(* ===== verification/Prelude.thy ===== *)
theory Prelude
  imports Main "HOL-Library.Sublist"
begin

text \<open>
  Shared vocabulary of the development: the collections of rewrite rules the component theories
  add to, a fold that stops at the first error (the shape of every validating loop of the code),
  and order-preserving removal of duplicates (what JavaScript's
  \<open>Array.from(new Set(xs))\<close> computes).
\<close>

named_theorems act_simps \<open>evaluation rules of the effect monad\<close>
named_theorems js_simps \<open>evaluation rules of the JavaScript string and object functions\<close>
named_theorems error_simps \<open>constructors and observers of the error classes\<close>

subsection \<open>Folds that stop at the first error\<close>

text \<open>
  A \<open>for\<close> loop whose body may throw: the state is threaded through the body until an
  element raises, and the exception is then the result of the loop.
\<close>

fun fold_result :: "('s \<Rightarrow> 'a \<Rightarrow> 'e + 's) \<Rightarrow> 's \<Rightarrow> 'a list \<Rightarrow> 'e + 's" where
  "fold_result f s [] = Inr s"
| "fold_result f s (x # xs) = (case f s x of Inl e \<Rightarrow> Inl e | Inr s' \<Rightarrow> fold_result f s' xs)"

lemma fold_result_append:
  "fold_result f s (xs @ ys) =
    (case fold_result f s xs of Inl e \<Rightarrow> Inl e | Inr s' \<Rightarrow> fold_result f s' ys)"
  by (induction xs arbitrary: s) (auto split: sum.splits)

lemma fold_result_cong:
  "(\<And>s x. x \<in> set xs \<Longrightarrow> f s x = g s x) \<Longrightarrow> fold_result f s xs = fold_result g s xs"
  by (induction xs arbitrary: s) (auto split: sum.splits)

text \<open>An invariant of the body is an invariant of the loop.\<close>

lemma fold_result_invariant:
  assumes "fold_result f s xs = Inr t" and "P s"
    and "\<And>s x s'. x \<in> set xs \<Longrightarrow> P s \<Longrightarrow> f s x = Inr s' \<Longrightarrow> P s'"
  shows "P t"
  using assms
proof (induction xs arbitrary: s)
  case Nil
  then show ?case by simp
next
  case (Cons x xs)
  then obtain s' where step: "f s x = Inr s'" and rest: "fold_result f s' xs = Inr t"
    by (auto split: sum.splits)
  have "P s'" using Cons.prems(3) [OF _ Cons.prems(2) step] by simp
  show ?case
    by (rule Cons.IH [OF rest \<open>P s'\<close>], rule Cons.prems(3)) simp_all
qed

lemma map_sum_eq_InrD [simp]: "map_sum f g x = Inr y \<longleftrightarrow> (\<exists>a. x = Inr a \<and> y = g a)"
  by (cases x) auto

lemma map_sum_eq_InlD [simp]: "map_sum f g x = Inl y \<longleftrightarrow> (\<exists>a. x = Inl a \<and> y = f a)"
  by (cases x) auto

text \<open>A body that never raises makes the loop an ordinary fold.\<close>

lemma fold_result_total:
  assumes "\<And>s x. x \<in> set xs \<Longrightarrow> f s x = Inr (g x s)"
  shows "fold_result f s xs = Inr (fold g xs s)"
  using assms by (induction xs arbitrary: s) auto

lemma fold_result_map:
  "fold_result f s (map g xs) = fold_result (\<lambda>s x. f s (g x)) s xs"
  by (induction xs arbitrary: s) (auto split: sum.splits)

subsection \<open>Order-preserving removal of duplicates\<close>

text \<open>The first occurrence of every element is kept, later ones are dropped.\<close>

fun dedup_onto :: "'a list \<Rightarrow> 'a list \<Rightarrow> 'a list" where
  "dedup_onto acc [] = acc"
| "dedup_onto acc (x # xs) = dedup_onto (if x \<in> set acc then acc else acc @ [x]) xs"

definition dedup :: "'a list \<Rightarrow> 'a list" where
  "dedup xs = dedup_onto [] xs"

lemma set_dedup_onto [simp]: "set (dedup_onto acc xs) = set acc \<union> set xs"
  by (induction xs arbitrary: acc) auto

lemma set_dedup [simp]: "set (dedup xs) = set xs"
  by (simp add: dedup_def)

lemma distinct_dedup_onto: "distinct acc \<Longrightarrow> distinct (dedup_onto acc xs)"
  by (induction xs arbitrary: acc) auto

lemma distinct_dedup [simp]: "distinct (dedup xs)"
  by (simp add: dedup_def distinct_dedup_onto)

lemma dedup_onto_append: "dedup_onto acc (xs @ ys) = dedup_onto (dedup_onto acc xs) ys"
  by (induction xs arbitrary: acc) auto

lemma dedup_onto_distinct:
  "distinct (acc @ xs) \<Longrightarrow> dedup_onto acc xs = acc @ xs"
  by (induction xs arbitrary: acc) auto

lemma dedup_distinct: "distinct xs \<Longrightarrow> dedup xs = xs"
  by (simp add: dedup_def dedup_onto_distinct)

lemma dedup_append: "dedup (xs @ ys) = dedup (dedup xs @ ys)"
  by (simp add: dedup_def dedup_onto_append dedup_onto_distinct distinct_dedup_onto)

lemma dedup_Nil [simp]: "dedup [] = []"
  by (simp add: dedup_def)

lemma dedup_eq_Nil [simp]: "dedup xs = [] \<longleftrightarrow> xs = []"
proof
  assume "dedup xs = []"
  then have "set xs = {}" by (metis set_dedup list.set(1))
  then show "xs = []" by simp
qed simp

text \<open>An invariant of every step is one of a fold.\<close>

lemma fold_inv: "(\<And>x st. I st \<Longrightarrow> I (f x st)) \<Longrightarrow> I st \<Longrightarrow> I (fold f xs st)"
  by (induction xs arbitrary: st) auto

end
