(* ===== verification/JsString.thy ===== *)
theory JsString
  imports Prelude
begin

text \<open>
  The string operations of the language that the code uses: \<open>trim\<close>, \<open>toLowerCase\<close>, \<open>split\<close>
  on a one-character separator, \<open>join\<close>, decimal rendering of numbers in template literals.
  A string is a sequence of code units; the type \<open>char\<close> covers the units below 256, so the
  white space and the case mapping are those of the ISO-8859-1 range.
\<close>

subsection \<open>White space and case\<close>

text \<open>
  \<open>String.prototype.trim\<close> strips tab, line feed, vertical tab, form feed, carriage return,
  space and the no-break space.
\<close>

definition is_ws :: "char \<Rightarrow> bool" where
  "is_ws c \<longleftrightarrow> (of_char c :: nat) \<in> {9, 10, 11, 12, 13, 32, 160}"

definition trim :: "string \<Rightarrow> string" where
  "trim s = rev (dropWhile is_ws (rev (dropWhile is_ws s)))"

text \<open>\<open>String.prototype.toLowerCase\<close> on one code unit: A-Z and the accented capitals but the times sign.\<close>

definition lower_char :: "char \<Rightarrow> char" where
  "lower_char c =
    (let n = (of_char c :: nat)
     in if (65 \<le> n \<and> n \<le> 90) \<or> (192 \<le> n \<and> n \<le> 222 \<and> n \<noteq> 215) then char_of (n + 32) else c)"

definition lower :: "string \<Rightarrow> string" where
  "lower s = map lower_char s"

subsection \<open>Split and join\<close>

text \<open>\<open>s.split(c)\<close> for a single character; the result is never empty.\<close>

fun split_on :: "char \<Rightarrow> string \<Rightarrow> string list" where
  "split_on d [] = [[]]"
| "split_on d (c # s) =
     (if c = d then [] # split_on d s
      else (case split_on d s of [] \<Rightarrow> [[c]] | w # ws \<Rightarrow> (c # w) # ws))"

fun join :: "string \<Rightarrow> string list \<Rightarrow> string" where
  "join sep [] = []"
| "join sep [w] = w"
| "join sep (w # ws) = w @ sep @ join sep ws"

subsection \<open>Decimal numerals\<close>

definition digit :: "nat \<Rightarrow> char" where
  "digit n = char_of (48 + n)"

fun decimal :: "nat \<Rightarrow> string" where
  "decimal n = (if n < 10 then [digit n] else decimal (n div 10) @ [digit (n mod 10)])"

declare decimal.simps [simp del]

definition decimal_int :: "int \<Rightarrow> string" where
  "decimal_int i = (if i < 0 then ''-'' @ decimal (nat (- i)) else decimal (nat i))"

definition is_digit :: "char \<Rightarrow> bool" where
  "is_digit c \<longleftrightarrow> 48 \<le> (of_char c :: nat) \<and> (of_char c :: nat) \<le> 57"

definition digit_value :: "char \<Rightarrow> nat" where
  "digit_value c = of_char c - 48"

text \<open>
  \<open>parseInt\<close> of a string, base ten: leading white space and a sign are skipped and the longest
  run of digits is read; with no digit the result is NaN, here \<open>None\<close>. Values are exact (JavaScript rounds them from
  \<open>2^53\<close> on), and a hexadecimal prefix is not read.
\<close>

definition read_digits :: "string \<Rightarrow> nat" where
  "read_digits ds = foldl (\<lambda>n c. 10 * n + digit_value c) 0 ds"

definition parse_nat :: "string \<Rightarrow> nat option" where
  "parse_nat s = (let ds = takeWhile is_digit s in if ds = [] then None else Some (read_digits ds))"

definition parse_int :: "string \<Rightarrow> int option" where
  "parse_int s =
    (case dropWhile is_ws s of
       [] \<Rightarrow> None
     | c # r \<Rightarrow>
         if c = CHR ''-'' then map_option (\<lambda>n. - int n) (parse_nat r)
         else if c = CHR ''+'' then map_option int (parse_nat r)
         else map_option int (parse_nat (c # r)))"

subsection \<open>Lemmas on trimming\<close>

lemma hd_dropWhile_ws: "dropWhile is_ws s \<noteq> [] \<Longrightarrow> \<not> is_ws (hd (dropWhile is_ws s))"
  by (induction s) auto

lemma last_dropWhile_ws:
  "dropWhile is_ws s \<noteq> [] \<Longrightarrow> last (dropWhile is_ws s) = last s"
  by (induction s) auto

lemma trim_id_iff:
  "trim s = s \<longleftrightarrow> s = [] \<or> (\<not> is_ws (hd s) \<and> \<not> is_ws (last s))"
proof (cases s rule: rev_cases)
  case Nil
  then show ?thesis by (simp add: trim_def)
next
  case (snoc m x)
  show ?thesis
  proof
    assume eq: "trim s = s"
    show "s = [] \<or> (\<not> is_ws (hd s) \<and> \<not> is_ws (last s))"
    proof (cases "dropWhile is_ws s = []")
      case True
      with eq show ?thesis by (simp add: trim_def)
    next
      case False
      have len: "length (trim s) \<le> length (dropWhile is_ws s)"
        by (simp add: trim_def length_dropWhile_le order.trans [OF length_dropWhile_le])
      have "length (dropWhile is_ws s) \<le> length s" by (rule length_dropWhile_le)
      with eq len have "length (dropWhile is_ws s) = length s" by simp
      then have d: "dropWhile is_ws s = s"
        by (metis dropWhile_eq_drop drop_eq_Nil2 length_drop diff_diff_cancel drop0 length_dropWhile_le
            diff_self_eq_0 length_0_conv append_Nil takeWhile_dropWhile_id length_append add_cancel_left_left)
      then have hd: "\<not> is_ws (hd s)" using False hd_dropWhile_ws by metis
      from eq d have "rev (dropWhile is_ws (rev s)) = s" by (simp add: trim_def)
      then have r: "dropWhile is_ws (rev s) = rev s" by (metis rev_rev_ident)
      then have "\<not> is_ws (hd (rev s))" using hd_dropWhile_ws [of "rev s"] snoc by simp
      with hd show ?thesis by (simp add: hd_rev)
    qed
  next
    assume "s = [] \<or> (\<not> is_ws (hd s) \<and> \<not> is_ws (last s))"
    with snoc have h: "\<not> is_ws (hd s)" and l: "\<not> is_ws x" by auto
    from h snoc have "dropWhile is_ws s = s" by (metis dropWhile.simps list.exhaust_sel)
    then show "trim s = s" using l snoc by (simp add: trim_def)
  qed
qed

lemma trim_trim [simp]: "trim (trim s) = trim s"
proof -
  let ?d = "dropWhile is_ws s" and ?t = "trim s"
  show ?thesis
  proof (cases "?t = []")
    case True
    then show ?thesis unfolding True by (simp add: trim_def)
  next
    case False
    then have r: "dropWhile is_ws (rev ?d) \<noteq> []" by (auto simp: trim_def)
    have l: "\<not> is_ws (last ?t)"
      using hd_dropWhile_ws [OF r] by (simp add: trim_def last_rev)
    have "hd ?t = hd ?d"
      using last_dropWhile_ws [OF r] by (simp add: trim_def hd_rev last_rev)
    moreover from r have "?d \<noteq> []" by (metis dropWhile.simps(1) rev.simps(1))
    ultimately have "\<not> is_ws (hd ?t)" by (metis hd_dropWhile_ws)
    with l show ?thesis by (simp add: trim_id_iff)
  qed
qed

lemma trim_Nil [simp]: "trim [] = []"
  by (simp add: trim_def)

lemma trim_eq_Nil_iff: "trim s = [] \<longleftrightarrow> (\<forall>c \<in> set s. is_ws c)"
proof -
  have "trim s = [] \<longleftrightarrow> (\<forall>c \<in> set (dropWhile is_ws s). is_ws c)"
    by (simp add: trim_def)
  also have "\<dots> \<longleftrightarrow> dropWhile is_ws s = []"
    by (metis hd_dropWhile hd_in_set empty_iff list.set(1))
  finally show ?thesis by simp
qed

subsection \<open>Lemmas on split and join\<close>

lemma split_on_not_Nil [simp]: "split_on d s \<noteq> []"
  by (induction s) (auto split: list.splits)

lemma join_split_on: "join [d] (split_on d s) = s"
proof (induction s)
  case Nil
  then show ?case by simp
next
  case (Cons c s)
  then show ?case
    by (cases "split_on d s") (auto split: list.splits simp: neq_Nil_conv,
        (metis join.simps(2,3) append_Cons list.exhaust)+)
qed

lemma split_on_no_sep: "d \<notin> set w \<Longrightarrow> split_on d w = [w]"
  by (induction w) auto

lemma split_on_append_sep:
  "d \<notin> set w \<Longrightarrow> split_on d (w @ d # s) = w # split_on d s"
  by (induction w) auto

lemma split_on_join:
  "ws \<noteq> [] \<Longrightarrow> \<forall>w \<in> set ws. d \<notin> set w \<Longrightarrow> split_on d (join [d] ws) = ws"
  by (induction "[d]" ws rule: join.induct) (auto simp: split_on_no_sep split_on_append_sep)

lemma split_on_parts: "w \<in> set (split_on d s) \<Longrightarrow> d \<notin> set w"
  by (induction s arbitrary: w) (fastforce split: list.splits if_splits)+

lemma set_split_on: "w \<in> set (split_on d s) \<Longrightarrow> set w \<subseteq> set s"
  by (induction s arbitrary: w) (fastforce split: list.splits if_splits)+

subsection \<open>Lemmas on numerals\<close>

lemma is_digit_digit: "n < 10 \<Longrightarrow> is_digit (digit n)"
  by (simp add: is_digit_def digit_def)

lemma digit_value_digit: "n < 10 \<Longrightarrow> digit_value (digit n) = n"
  by (simp add: digit_value_def digit_def)

lemma decimal_digits: "c \<in> set (decimal n) \<Longrightarrow> is_digit c"
proof (induction n rule: decimal.induct)
  case (1 n)
  then show ?case
    by (subst (asm) (2) decimal.simps) (auto simp: is_digit_digit split: if_splits)
qed

lemma decimal_not_Nil [simp]: "decimal n \<noteq> []"
  by (subst decimal.simps) simp

lemma read_digits_decimal: "read_digits (decimal n) = n"
proof (induction n rule: decimal.induct)
  case (1 n)
  then show ?case
    by (subst decimal.simps) (auto simp: read_digits_def digit_value_digit)
qed

lemma parse_nat_decimal: "parse_nat (decimal n) = Some n"
proof -
  have "takeWhile is_digit (decimal n) = decimal n"
    by (simp add: takeWhile_eq_all_conv decimal_digits)
  then show ?thesis
    by (simp only: parse_nat_def Let_def decimal_not_Nil if_False read_digits_decimal)
qed

lemma parse_int_decimal [js_simps]: "parse_int (decimal n) = Some (int n)"
proof (cases "decimal n")
  case Nil
  then show ?thesis using decimal_not_Nil by simp
next
  case (Cons c r)
  then have "is_digit c" using decimal_digits [of c n] by simp
  then have "\<not> is_ws c" "c \<noteq> CHR ''-''" "c \<noteq> CHR ''+''" by (auto simp: is_digit_def is_ws_def)
  then show ?thesis using Cons parse_nat_decimal [of n] by (simp add: parse_int_def)
qed

lemma decimal_inj: "decimal m = decimal n \<Longrightarrow> m = n"
  by (metis read_digits_decimal)

end
