(* ===== verification/JsObject.thy ===== *)
theory JsObject
  imports JsString
begin

text \<open>
  Plain objects used as dictionaries (\<open>Record<string, T>\<close>): the own properties in property
  order, assignment, lookup through the prototype, and enumeration. Property order is the
  language's: array-index keys first, ascending, then the other keys in the order they were
  created; \<open>Object.values\<close> and \<open>Object.entries\<close> follow it. The interface of such a dictionary
  is the locale \<open>keyed_map\<close>, whose client lemmas are about the fold that merges a list of
  keyed values; \<open>js_object\<close> provides it.
\<close>

type_synonym 'v js_object = "(string \<times> 'v) list"

subsection \<open>Operations\<close>

text \<open>A canonical numeric string below \<open>2^32 - 1\<close> is an array index.\<close>

definition array_index :: "string \<Rightarrow> nat option" where
  "array_index s =
    (if s \<noteq> [] \<and> list_all is_digit s \<and> decimal (read_digits s) = s \<and> read_digits s < 4294967295
     then Some (read_digits s) else None)"

fun js_replace :: "string \<Rightarrow> 'v \<Rightarrow> 'v js_object \<Rightarrow> 'v js_object" where
  "js_replace k v [] = []"
| "js_replace k v ((k', v') # ps) = (if k = k' then (k, v) # ps else (k', v') # js_replace k v ps)"

fun js_insert_index :: "nat \<Rightarrow> string \<Rightarrow> 'v \<Rightarrow> 'v js_object \<Rightarrow> 'v js_object" where
  "js_insert_index n k v [] = [(k, v)]"
| "js_insert_index n k v ((k', v') # ps) =
    (case array_index k' of
       Some m \<Rightarrow> if m < n then (k', v') # js_insert_index n k v ps else (k, v) # (k', v') # ps
     | None \<Rightarrow> (k, v) # (k', v') # ps)"

text \<open>\<open>obj[k] = v\<close> for a name \<open>k\<close> other than \<open>__proto__\<close>, whose assignment sets the prototype.\<close>

definition js_put :: "string \<Rightarrow> 'v \<Rightarrow> 'v js_object \<Rightarrow> 'v js_object" where
  "js_put k v ps =
    (if k \<in> fst ` set ps then js_replace k v ps
     else case array_index k of
            Some n \<Rightarrow> js_insert_index n k v ps
          | None \<Rightarrow> ps @ [(k, v)])"

text \<open>The assignment for any name: \<open>__proto__\<close> adds no entry.\<close>

definition assign_entry :: "string \<Rightarrow> 'v \<Rightarrow> 'v js_object \<Rightarrow> 'v js_object" where
  "assign_entry k v ps = (if k = ''__proto__'' then ps else js_put k v ps)"

definition js_own :: "'v js_object \<Rightarrow> string \<Rightarrow> 'v option" where
  "js_own ps k = map_of ps k"

definition js_keys :: "'v js_object \<Rightarrow> string list" where
  "js_keys ps = map fst ps"

definition js_values :: "'v js_object \<Rightarrow> 'v list" where
  "js_values ps = map snd ps"

text \<open>The names every object inherits from \<open>Object.prototype\<close>.\<close>

definition proto_names :: "string list" where
  "proto_names =
    [''constructor'', ''__defineGetter__'', ''__defineSetter__'', ''hasOwnProperty'',
     ''__lookupGetter__'', ''__lookupSetter__'', ''isPrototypeOf'', ''propertyIsEnumerable'',
     ''toString'', ''valueOf'', ''__proto__'', ''toLocaleString'']"

text \<open>Reading \<open>obj[k]\<close>: an own property, else an inherited one, else \<open>undefined\<close>.\<close>

datatype 'v js_prop = Own 'v | Inherited | Absent

definition js_read :: "'v js_object \<Rightarrow> string \<Rightarrow> 'v js_prop" where
  "js_read ps k =
    (case js_own ps k of
       Some v \<Rightarrow> Own v
     | None \<Rightarrow> if k \<in> set proto_names then Inherited else Absent)"

subsection \<open>Property order\<close>

text \<open>Array-index keys come first, in ascending order.\<close>

fun index_sorted :: "nat option \<Rightarrow> string list \<Rightarrow> bool" where
  "index_sorted l [] = True"
| "index_sorted l (k # ks) =
    (case array_index k of
       Some n \<Rightarrow> (case l of None \<Rightarrow> True | Some m \<Rightarrow> m < n) \<and> index_sorted (Some n) ks
     | None \<Rightarrow> list_all (\<lambda>k'. array_index k' = None) ks)"

definition js_wf :: "'v js_object \<Rightarrow> bool" where
  "js_wf ps \<longleftrightarrow> distinct (js_keys ps) \<and> index_sorted None (js_keys ps)"

subsection \<open>Lemmas on the operations\<close>

lemma array_index_inj: "array_index k = Some n \<Longrightarrow> array_index k' = Some n \<Longrightarrow> k = k'"
  by (auto simp: array_index_def split: if_splits)

lemma js_replace_keys [simp]: "map fst (js_replace k v ps) = map fst ps"
  by (induction k v ps rule: js_replace.induct) auto

lemma map_of_js_replace:
  "map_of (js_replace k v ps) x = (if x = k then map_option (\<lambda>_. v) (map_of ps x) else map_of ps x)"
  by (induction k v ps rule: js_replace.induct) auto

lemma js_insert_index_keys: "set (map fst (js_insert_index n k v ps)) = insert k (set (map fst ps))"
  by (induction n k v ps rule: js_insert_index.induct) (auto split: option.splits)

lemma map_of_js_insert_index:
  "k \<notin> fst ` set ps \<Longrightarrow> 
    map_of (js_insert_index n k v ps) x = (if x = k then Some v else map_of ps x)"
  by (induction n k v ps rule: js_insert_index.induct) (auto split: option.splits)

lemma distinct_js_insert_index:
  "k \<notin> fst ` set ps \<Longrightarrow> distinct (map fst ps) \<Longrightarrow> distinct (map fst (js_insert_index n k v ps))"
proof (induction n k v ps rule: js_insert_index.induct)
  case (2 n k v k' v' ps)
  have "k' \<notin> set (map fst (js_insert_index n k v ps))"
    using 2(2,3) by (auto simp only: js_insert_index_keys) auto
  with 2 show ?case by (auto split: option.splits)
qed simp

lemma js_own_map_of: "js_own ps = map_of ps"
  by (rule ext) (simp add: js_own_def)

lemma js_own_put: "js_own (js_put k v ps) = (js_own ps)(k \<mapsto> v)"
proof
  fix x
  have fresh: "k \<notin> fst ` set ps \<Longrightarrow> map_of ps k = None" by (simp add: map_of_eq_None_iff)
  have found: "k \<in> fst ` set ps \<Longrightarrow> \<exists>w. map_of ps k = Some w"
    by (metis map_of_eq_None_iff not_None_eq)
  show "js_own (js_put k v ps) x = ((js_own ps)(k \<mapsto> v)) x"
  proof (cases "k \<in> fst ` set ps")
    case True
    with found show ?thesis by (auto simp: js_own_map_of js_put_def map_of_js_replace)
  next
    case False
    with fresh show ?thesis
      by (auto simp: js_own_map_of js_put_def map_of_js_insert_index map_add_def split: option.splits)
  qed
qed

lemma dom_js_own: "dom (js_own ps) = set (js_keys ps)"
  by (simp add: js_own_map_of js_keys_def dom_map_of_conv_image_fst)

lemma distinct_js_put: "distinct (js_keys ps) \<Longrightarrow> distinct (js_keys (js_put k v ps))"
  by (auto simp: js_keys_def js_put_def distinct_js_insert_index split: option.splits)

lemma index_sorted_replace:
  "index_sorted l (map fst (js_replace k v ps)) = index_sorted l (map fst ps)"
  by simp

lemma index_sorted_snoc:
  "array_index k = None \<Longrightarrow> index_sorted l ks \<Longrightarrow> index_sorted l (ks @ [k])"
  by (induction l ks rule: index_sorted.induct) (auto split: option.splits)

lemma index_sorted_insert:
  "array_index k = Some n \<Longrightarrow> k \<notin> fst ` set ps \<Longrightarrow> (case l of None \<Rightarrow> True | Some m \<Rightarrow> m < n) \<Longrightarrow>
   index_sorted l (map fst ps) \<Longrightarrow> index_sorted l (map fst (js_insert_index n k v ps))"
proof (induction n k v ps arbitrary: l rule: js_insert_index.induct)
  case (2 n k v k' v' ps)
  show ?case
  proof (cases "array_index k'")
    case None
    with 2 show ?thesis by simp
  next
    case (Some m)
    have "m \<noteq> n" using Some 2(2,3) array_index_inj [of k n k'] by auto
    with Some 2 show ?thesis by (auto split: option.splits)
  qed
qed simp

lemma js_wf_Nil [simp]: "js_wf []"
  by (simp add: js_wf_def js_keys_def)

lemma js_wf_put: "js_wf ps \<Longrightarrow> js_wf (js_put k v ps)"
  using index_sorted_insert [of k _ ps None v] index_sorted_snoc [of k None "map fst ps"]
  by (auto simp: js_wf_def distinct_js_put)
    (auto simp: js_keys_def js_put_def split: option.splits)

lemma js_own_Nil [simp]: "js_own [] = Map.empty"
  by (simp add: js_own_def fun_eq_iff)

lemma js_own_in_entries: "js_own ps k = Some v \<Longrightarrow> (k, v) \<in> set ps"
  by (simp add: js_own_def map_of_SomeD)

lemma js_entries_own: "js_wf ps \<Longrightarrow> (k, v) \<in> set ps \<longleftrightarrow> js_own ps k = Some v"
  by (simp add: js_own_def js_wf_def js_keys_def)

lemma js_put_fresh_plain:
  "k \<notin> fst ` set ps \<Longrightarrow> array_index k = None \<Longrightarrow> js_put k v ps = ps @ [(k, v)]"
  by (simp add: js_put_def)

text \<open>Entering the entries of a well-formed object one by one rebuilds it.\<close>

lemma js_insert_index_last:
  "\<forall>k' \<in> fst ` set ps. \<exists>m. array_index k' = Some m \<and> m < n \<Longrightarrow>
    js_insert_index n k v ps = ps @ [(k, v)]"
  by (induction n k v ps rule: js_insert_index.induct) auto

lemma index_sorted_before:
  "index_sorted l (ks @ [k]) \<Longrightarrow> array_index k = Some n \<Longrightarrow> k' \<in> set ks \<Longrightarrow>
    \<exists>m. array_index k' = Some m \<and> m < n"
  and index_sorted_bound:
  "index_sorted (Some m) (ks @ [k]) \<Longrightarrow> array_index k = Some n \<Longrightarrow> m < n"
proof -
  have bound: "m < n" if "index_sorted (Some m) (ks @ [k])" "array_index k = Some n" for m ks
    using that by (induction ks arbitrary: m) (fastforce split: option.splits)+
  then show "index_sorted (Some m) (ks @ [k]) \<Longrightarrow> array_index k = Some n \<Longrightarrow> m < n" .
  show "index_sorted l (ks @ [k]) \<Longrightarrow> array_index k = Some n \<Longrightarrow> k' \<in> set ks \<Longrightarrow>
    \<exists>m. array_index k' = Some m \<and> m < n"
  proof (induction ks arbitrary: l)
    case (Cons a ks)
    then show ?case using bound by (cases "array_index a") auto
  qed simp
qed

lemma js_wf_snocD: "js_wf (ps @ [(k, v)]) \<Longrightarrow> js_put k v ps = ps @ [(k, v)]"
proof (cases "array_index k")
  case None
  assume "js_wf (ps @ [(k, v)])"
  then show ?thesis using None by (auto simp: js_wf_def js_keys_def js_put_def)
next
  case (Some n)
  assume wf: "js_wf (ps @ [(k, v)])"
  then have "\<forall>k' \<in> fst ` set ps. \<exists>m. array_index k' = Some m \<and> m < n"
    using index_sorted_before [of None "map fst ps" k n] Some by (auto simp: js_wf_def js_keys_def)
  then show ?thesis
    using wf Some js_insert_index_last [of ps n k v] by (auto simp: js_wf_def js_keys_def js_put_def)
qed

lemma index_sorted_prefix: "index_sorted l (ks @ ks') \<Longrightarrow> index_sorted l ks"
  by (induction l ks rule: index_sorted.induct) (auto split: option.splits)

lemma js_wf_prefix: "js_wf (ps @ qs) \<Longrightarrow> js_wf ps"
  using index_sorted_prefix [of None "map fst ps"] by (auto simp: js_wf_def js_keys_def)

lemma js_wf_keys: "map fst ps = map fst qs \<Longrightarrow> js_wf ps = js_wf qs"
  by (simp add: js_wf_def js_keys_def)

subsection \<open>The interface of a dictionary\<close>

text \<open>
  What the clients rely on: reading after writing, and that the enumerated keys are the
  defined ones, each once.
\<close>

fun combine_all :: "('v \<Rightarrow> 'v \<Rightarrow> 'v) \<Rightarrow> 'v option \<Rightarrow> 'v list \<Rightarrow> 'v option" where
  "combine_all g acc [] = acc"
| "combine_all g None (v # vs) = combine_all g (Some v) vs"
| "combine_all g (Some w) (v # vs) = combine_all g (Some (g w v)) vs"

locale keyed_map =
  fixes look :: "'m \<Rightarrow> 'k \<Rightarrow> 'v option"
    and put :: "'k \<Rightarrow> 'v \<Rightarrow> 'm \<Rightarrow> 'm"
    and keys :: "'m \<Rightarrow> 'k list"
    and empty :: "'m"
    and inv :: "'m \<Rightarrow> bool"
  assumes look_empty: "look empty k = None"
    and look_put: "look (put k v m) = (look m)(k \<mapsto> v)"
    and set_keys: "set (keys m) = dom (look m)"
    and inv_empty: "inv empty"
    and inv_put: "inv m \<Longrightarrow> inv (put k v m)"
    and inv_keys: "inv m \<Longrightarrow> distinct (keys m)"
begin

text \<open>Storing a value under a key, combined with the value already there.\<close>

definition upsert :: "('v \<Rightarrow> 'v \<Rightarrow> 'v) \<Rightarrow> 'k \<Rightarrow> 'v \<Rightarrow> 'm \<Rightarrow> 'm" where
  "upsert g k v m = put k (case look m k of None \<Rightarrow> v | Some w \<Rightarrow> g w v) m"

lemma look_upsert:
  "look (upsert g k v m) k' =
    (if k' = k then combine_all g (look m k) [v] else look m k')"
  by (simp add: upsert_def look_put split: option.splits)

lemma inv_upsert: "inv m \<Longrightarrow> inv (upsert g k v m)"
  by (simp add: upsert_def inv_put)

lemma combine_all_step: "combine_all g (combine_all g acc [v]) vs = combine_all g acc (v # vs)"
  by (cases acc) auto

text \<open>A fold of upserts holds, under each key, the combination of that key's values in order.\<close>

lemma look_fold_upsert:
  "look (fold (\<lambda>x. upsert g (f x) (h x)) xs m) k =
    combine_all g (look m k) (map h (filter (\<lambda>x. f x = k) xs))"
  by (induction xs arbitrary: m) (auto simp: look_upsert combine_all_step)

lemma inv_fold_upsert: "inv m \<Longrightarrow> inv (fold (\<lambda>x. upsert g (f x) (h x)) xs m)"
  by (induction xs arbitrary: m) (auto simp: inv_upsert)

lemma keys_fold_upsert:
  "set (keys (fold (\<lambda>x. upsert g (f x) (h x)) xs m)) = set (keys m) \<union> f ` set xs"
proof (induction xs arbitrary: m)
  case Nil
  then show ?case by simp
next
  case (Cons x xs)
  have "set (keys (upsert g (f x) (h x) m)) = insert (f x) (set (keys m))"
    by (simp add: set_keys upsert_def look_put)
  with Cons show ?case by simp
qed

end

interpretation objs: keyed_map js_own js_put js_keys "[]" js_wf
proof
  show "js_wf (js_put k v m)" if "js_wf m" for m k and v :: 'a
    using that by (rule js_wf_put)
qed (simp_all add: js_own_put dom_js_own js_wf_def js_keys_def)

lemma set_js_insert_index: "set (js_insert_index n k v ps) \<subseteq> insert (k, v) (set ps)"
  by (induction n k v ps rule: js_insert_index.induct) (auto split: option.splits)

lemma set_js_replace: "set (js_replace k v ps) \<subseteq> insert (k, v) (set ps)"
  by (induction k v ps rule: js_replace.induct) auto

lemma set_assign_entry: "set (assign_entry k v ps) \<subseteq> insert (k, v) (set ps)"
proof (cases "k = ''__proto__''")
  case False
  then show ?thesis
    using set_js_replace [of k v ps] set_js_insert_index [of _ k v ps]
    by (auto simp: assign_entry_def js_put_def split: option.split)
qed (auto simp: assign_entry_def)

lemma js_own_assign_entry:
  "k \<noteq> ''__proto__'' \<Longrightarrow> js_own (assign_entry k v ps) = (js_own ps)(k \<mapsto> v)"
  by (simp add: assign_entry_def js_own_put)

end
