(* ===== verification/JsValue.thy ===== *)
theory JsValue
  imports JsObject
begin

text \<open>
  Values of unknown type, as they travel through error responses, queue payloads and log lines:
  optional chaining, the nullish fallback, rendering in a template literal and
  \<open>JSON.stringify\<close>. Numbers are integers (the code only handles counters, status codes and
  offsets).
\<close>

datatype jv =
    JUndef
  | JNull
  | JBool bool
  | JNum int
  | JStr string
  | JArr "jv list"
  | JObj "(string \<times> jv) list"

subsection \<open>Reading\<close>

text \<open>\<open>v?.k\<close> on the values above; strings and arrays have none of the properties the code reads.\<close>

fun jv_get :: "jv \<Rightarrow> string \<Rightarrow> jv" where
  "jv_get (JObj ps) k = (case js_own ps k of Some v \<Rightarrow> v | None \<Rightarrow> JUndef)"
| "jv_get _ k = JUndef"

definition nullish :: "jv \<Rightarrow> bool" where
  "nullish v \<longleftrightarrow> v = JUndef \<or> v = JNull"

text \<open>\<open>a ?? b ?? ... ?? z\<close>: the first operand that is neither null nor undefined, else the last.\<close>

fun coalesce :: "jv list \<Rightarrow> jv \<Rightarrow> jv" where
  "coalesce [] z = z"
| "coalesce (v # vs) z = (if nullish v then coalesce vs z else v)"

fun truthy :: "jv \<Rightarrow> bool" where
  "truthy JUndef = False"
| "truthy JNull = False"
| "truthy (JBool b) = b"
| "truthy (JNum n) = (n \<noteq> 0)"
| "truthy (JStr s) = (s \<noteq> [])"
| "truthy (JArr _) = True"
| "truthy (JObj _) = True"

subsection \<open>Rendering\<close>

text \<open>\<open>String(v)\<close>, what a template literal inserts; null and undefined elements of an array are empty.\<close>

fun jv_string :: "jv \<Rightarrow> string" where
  "jv_string JUndef = ''undefined''"
| "jv_string JNull = ''null''"
| "jv_string (JBool b) = (if b then ''true'' else ''false'')"
| "jv_string (JNum n) = decimal_int n"
| "jv_string (JStr s) = s"
| "jv_string (JArr vs) = join '','' (map (\<lambda>v. if nullish v then [] else jv_string v) vs)"
| "jv_string (JObj ps) = ''[object Object]''"

definition hex_digit :: "nat \<Rightarrow> char" where
  "hex_digit n = (if n < 10 then char_of (48 + n) else char_of (87 + n))"

definition json_char :: "char \<Rightarrow> string" where
  "json_char c =
    (let n = (of_char c :: nat)
     in if n = 34 then [char_of (92 :: nat), c]
        else if n = 92 then [c, c]
        else if n = 8 then [char_of (92 :: nat), CHR ''b'']
        else if n = 9 then [char_of (92 :: nat), CHR ''t'']
        else if n = 10 then [char_of (92 :: nat), CHR ''n'']
        else if n = 12 then [char_of (92 :: nat), CHR ''f'']
        else if n = 13 then [char_of (92 :: nat), CHR ''r'']
        else if n < 32 then [char_of (92 :: nat)] @ ''u00'' @ [hex_digit (n div 16), hex_digit (n mod 16)]
        else [c])"

definition json_quote :: "string \<Rightarrow> string" where
  "json_quote s = [char_of (34 :: nat)] @ concat (map json_char s) @ [char_of (34 :: nat)]"

text \<open>
  \<open>JSON.stringify\<close> of a value inside an array or at the top (where \<open>undefined\<close> has no text);
  an undefined property of an object is left out.
\<close>

lemma size_elem: "v \<in> set vs \<Longrightarrow> size v < size (JArr vs)"
  by (induction vs) auto

lemma size_entry: "p \<in> set ps \<Longrightarrow> size (snd p) < size (JObj ps)"
  by (induction ps) (auto simp: snds_def split: prod.splits)

function json_value :: "jv \<Rightarrow> string" where
  "json_value JUndef = ''null''"
| "json_value JNull = ''null''"
| "json_value (JBool b) = (if b then ''true'' else ''false'')"
| "json_value (JNum n) = decimal_int n"
| "json_value (JStr s) = json_quote s"
| "json_value (JArr vs) = ''['' @ join '','' (map json_value vs) @ '']''"
| "json_value (JObj ps) =
     ''{'' @ join '','' (map (\<lambda>p. json_quote (fst p) @ '':'' @ json_value (snd p))
                     (filter (\<lambda>p. snd p \<noteq> JUndef) ps)) @ ''}''"
  by pat_completeness auto
termination
  by (relation "measure size") (auto dest: size_elem size_entry simp del: jv.size)

definition json_stringify :: "jv \<Rightarrow> jv" where
  "json_stringify v = (if v = JUndef then JUndef else JStr (json_value v))"

text \<open>\<open>`...${JSON.stringify(v)}...`\<close>\<close>

definition json_text :: "jv \<Rightarrow> string" where
  "json_text v = jv_string (json_stringify v)"

definition jv_strings :: "string list \<Rightarrow> jv" where
  "jv_strings ss = JArr (map JStr ss)"

definition jv_opt :: "string option \<Rightarrow> jv" where
  "jv_opt s = (case s of None \<Rightarrow> JUndef | Some t \<Rightarrow> JStr t)"

subsection \<open>Lemmas\<close>

lemma coalesce_nullish: "nullish v \<Longrightarrow> coalesce (v # vs) z = coalesce vs z"
  by simp

lemma jv_string_JStr_list: "jv_string (jv_strings ss) = join '','' ss"
  by (simp add: jv_strings_def nullish_def comp_def)

end
