(* ===== verification/JsError.thy ===== *)
theory JsError
  imports JsValue
begin

text \<open>
  Thrown values and the error classes of the packages: an \<open>Error\<close> object has a class, a name, a
  message, the causing value in \<open>data\<close> and further own properties (the \<open>status\<close> and \<open>response\<close>
  of an HTTP exception); anything else that is thrown is a plain value. The constructors follow
  the classes' \<open>super\<close> calls, so that the message each class ends up with is the source's.
\<close>

subsection \<open>Classes\<close>

datatype err_class =
    C_Error | C_TypeError | C_LibraryError | C_HttpException
  | C_QueueServiceError
  | C_KafkaServiceError | C_KafkaProducerServiceError | C_KafkaConsumerServiceError
  | C_KafkaConsumerRunError
  | C_ASBServiceError | C_ASBProducerServiceError | C_ASBConsumerServiceError
  | C_ASBConsumerProcessorError
  | C_CachingServiceError | C_RedisServiceError
  | C_DBServiceError | C_MongoServiceError | C_SqlServiceError | C_ElasticsearchServiceError

text \<open>The \<open>extends\<close> clauses; errors of libraries are instances of \<open>Error\<close>.\<close>

fun parent_class :: "err_class \<Rightarrow> err_class option" where
  "parent_class C_Error = None"
| "parent_class C_TypeError = Some C_Error"
| "parent_class C_LibraryError = Some C_Error"
| "parent_class C_HttpException = Some C_Error"
| "parent_class C_QueueServiceError = Some C_Error"
| "parent_class C_KafkaServiceError = Some C_QueueServiceError"
| "parent_class C_KafkaProducerServiceError = Some C_KafkaServiceError"
| "parent_class C_KafkaConsumerServiceError = Some C_KafkaServiceError"
| "parent_class C_KafkaConsumerRunError = Some C_KafkaConsumerServiceError"
| "parent_class C_ASBServiceError = Some C_QueueServiceError"
| "parent_class C_ASBProducerServiceError = Some C_ASBServiceError"
| "parent_class C_ASBConsumerServiceError = Some C_ASBServiceError"
| "parent_class C_ASBConsumerProcessorError = Some C_ASBConsumerServiceError"
| "parent_class C_CachingServiceError = Some C_Error"
| "parent_class C_RedisServiceError = Some C_CachingServiceError"
| "parent_class C_DBServiceError = Some C_Error"
| "parent_class C_MongoServiceError = Some C_DBServiceError"
| "parent_class C_SqlServiceError = Some C_DBServiceError"
| "parent_class C_ElasticsearchServiceError = Some C_DBServiceError"

inductive subclass_of :: "err_class \<Rightarrow> err_class \<Rightarrow> bool" where
  same: "subclass_of c c"
| up: "parent_class c = Some p \<Longrightarrow> subclass_of p d \<Longrightarrow> subclass_of c d"

code_pred subclass_of .

inductive_simps subclass_of_step: "subclass_of c d"

subsection \<open>Thrown values\<close>

datatype exn =
    Exn (exn_class: err_class) (exn_name: string) (exn_message: string) (exn_data: "exn option")
      (exn_fields: "(string \<times> jv) list")
  | Thrown (thrown_value: jv)

text \<open>\<open>e?.name\<close>, \<open>e?.message\<close> and the further properties.\<close>

fun exn_get :: "exn \<Rightarrow> string \<Rightarrow> jv" where
  "exn_get (Exn c n m d fs) k =
     (if k = ''message'' then JStr m else if k = ''name'' then JStr n else jv_get (JObj fs) k)"
| "exn_get (Thrown v) k = jv_get v k"

fun instance_of :: "exn \<Rightarrow> err_class \<Rightarrow> bool" where
  "instance_of (Exn c n m d fs) k = subclass_of c k"
| "instance_of (Thrown v) k = False"

text \<open>\<open>Error.prototype.toString\<close>, and the rendering of another value.\<close>

fun exn_string :: "exn \<Rightarrow> string" where
  "exn_string (Exn c n m d fs) = (if n = [] then m else if m = [] then n else n @ '': '' @ m)"
| "exn_string (Thrown v) = jv_string v"

fun exn_truthy :: "exn \<Rightarrow> bool" where
  "exn_truthy (Exn c n m d fs) = True"
| "exn_truthy (Thrown v) = truthy v"

subsection \<open>Constructors\<close>

text \<open>\<open>new Error(m)\<close>, \<open>new TypeError(...)\<close> (its message is the engine's) and \<open>new HttpException(m, code)\<close>.\<close>

definition new_Error :: "string \<Rightarrow> exn" where
  "new_Error m = Exn C_Error ''Error'' m None []"

definition new_TypeError :: "string \<Rightarrow> exn" where
  "new_TypeError m = Exn C_TypeError ''TypeError'' m None []"

definition HttpException :: "string \<Rightarrow> nat \<Rightarrow> exn" where
  "HttpException m code =
    Exn C_HttpException ''HttpException'' m None
      [(''response'', JStr m), (''status'', JNum (int code))]"

text \<open>
  \<open>`${message}${data ? `: ${data.toString()}` : ""}`\<close>, for data that has a \<open>toString\<close> that returns, as every \<open>Error\<close> and JSON value
  without an own property of that name has. (A thrown value whose \<open>toString\<close> is missing or throws is not modelled.)
\<close>

definition with_data :: "string \<Rightarrow> exn option \<Rightarrow> string" where
  "with_data m d =
    (case d of None \<Rightarrow> m | Some e \<Rightarrow> if exn_truthy e then m @ '': '' @ exn_string e else m)"

text \<open>What a subclass constructor does after \<open>super(...)\<close>: it sets \<open>name\<close> and \<open>data\<close>.\<close>

fun refine_exn :: "err_class \<Rightarrow> string \<Rightarrow> exn option \<Rightarrow> exn \<Rightarrow> exn" where
  "refine_exn c n d (Exn c' n' m d' fs) = Exn c n m d fs"
| "refine_exn c n d (Thrown v) = Thrown v"

definition QueueServiceError :: "string \<Rightarrow> exn option \<Rightarrow> exn" where
  "QueueServiceError m d =
    refine_exn C_QueueServiceError ''QueueServiceError'' d (new_Error (with_data m d))"

definition KafkaServiceError :: "string \<Rightarrow> exn option \<Rightarrow> exn" where
  "KafkaServiceError m d =
    refine_exn C_KafkaServiceError ''KafkaServiceError'' d (QueueServiceError (with_data m d) None)"

definition KafkaProducerServiceError :: "string \<Rightarrow> exn option \<Rightarrow> exn" where
  "KafkaProducerServiceError m d =
    refine_exn C_KafkaProducerServiceError ''KafkaProducerServiceError'' d
      (KafkaServiceError (with_data m d) None)"

definition KafkaConsumerServiceError :: "string \<Rightarrow> exn option \<Rightarrow> exn" where
  "KafkaConsumerServiceError m d =
    refine_exn C_KafkaConsumerServiceError ''KafkaConsumerServiceError'' d
      (KafkaServiceError (with_data m d) None)"

definition KafkaConsumerRunError :: "string \<Rightarrow> string \<Rightarrow> exn option \<Rightarrow> exn" where
  "KafkaConsumerRunError topic m d =
    refine_exn C_KafkaConsumerRunError ''KafkaConsumerRunError'' d
      (KafkaConsumerServiceError (''['' @ topic @ ''] '' @ with_data m d) None)"

definition CachingServiceError :: "string \<Rightarrow> exn option \<Rightarrow> exn" where
  "CachingServiceError m d =
    refine_exn C_CachingServiceError ''CachingServiceError'' d (new_Error (with_data m d))"

definition RedisServiceError :: "string \<Rightarrow> exn option \<Rightarrow> exn" where
  "RedisServiceError m d =
    refine_exn C_RedisServiceError ''RedisServiceError'' d (CachingServiceError (with_data m d) None)"

definition ASBServiceError :: "string \<Rightarrow> exn option \<Rightarrow> exn" where
  "ASBServiceError m d =
    refine_exn C_ASBServiceError ''ASBServiceError'' d (QueueServiceError (with_data m d) None)"

definition ASBProducerServiceError :: "string \<Rightarrow> exn option \<Rightarrow> exn" where
  "ASBProducerServiceError m d =
    refine_exn C_ASBProducerServiceError ''ASBProducerServiceError'' d (ASBServiceError (with_data m d) None)"

definition ASBConsumerServiceError :: "string \<Rightarrow> exn option \<Rightarrow> exn" where
  "ASBConsumerServiceError m d =
    refine_exn C_ASBConsumerServiceError ''ASBConsumerServiceError'' d (ASBServiceError (with_data m d) None)"

definition DBServiceError :: "string \<Rightarrow> exn option \<Rightarrow> exn" where
  "DBServiceError m d = refine_exn C_DBServiceError ''DBServiceError'' d (new_Error (with_data m d))"

definition MongoServiceError :: "string \<Rightarrow> exn option \<Rightarrow> exn" where
  "MongoServiceError m d =
    refine_exn C_MongoServiceError ''MongoServiceError'' d (DBServiceError (with_data m d) None)"

definition SqlServiceError :: "string \<Rightarrow> exn option \<Rightarrow> exn" where
  "SqlServiceError m d =
    refine_exn C_SqlServiceError ''SqlServiceError'' d (DBServiceError (with_data m d) None)"

definition ElasticsearchServiceError :: "string \<Rightarrow> exn option \<Rightarrow> exn" where
  "ElasticsearchServiceError m d =
    refine_exn C_ElasticsearchServiceError ''ElasticsearchServiceError'' d (DBServiceError (with_data m d) None)"

subsection \<open>What the constructors build\<close>

lemma with_data_None [simp]: "with_data m None = m"
  by (simp add: with_data_def)

lemma QueueServiceError_eq [error_simps]:
  "QueueServiceError m d = Exn C_QueueServiceError ''QueueServiceError'' (with_data m d) d []"
  by (simp add: QueueServiceError_def new_Error_def)

lemma KafkaServiceError_eq [error_simps]:
  "KafkaServiceError m d = Exn C_KafkaServiceError ''KafkaServiceError'' (with_data m d) d []"
  by (simp add: KafkaServiceError_def QueueServiceError_eq)

lemma KafkaProducerServiceError_eq [error_simps]:
  "KafkaProducerServiceError m d =
    Exn C_KafkaProducerServiceError ''KafkaProducerServiceError'' (with_data m d) d []"
  by (simp add: KafkaProducerServiceError_def KafkaServiceError_eq)

lemma KafkaConsumerServiceError_eq [error_simps]:
  "KafkaConsumerServiceError m d =
    Exn C_KafkaConsumerServiceError ''KafkaConsumerServiceError'' (with_data m d) d []"
  by (simp add: KafkaConsumerServiceError_def KafkaServiceError_eq)

lemma KafkaConsumerRunError_eq [error_simps]:
  "KafkaConsumerRunError t m d =
    Exn C_KafkaConsumerRunError ''KafkaConsumerRunError'' (''['' @ t @ ''] '' @ with_data m d) d []"
  by (simp add: KafkaConsumerRunError_def KafkaConsumerServiceError_eq)

lemma CachingServiceError_eq [error_simps]:
  "CachingServiceError m d = Exn C_CachingServiceError ''CachingServiceError'' (with_data m d) d []"
  by (simp add: CachingServiceError_def new_Error_def)

lemma RedisServiceError_eq [error_simps]:
  "RedisServiceError m d = Exn C_RedisServiceError ''RedisServiceError'' (with_data m d) d []"
  by (simp add: RedisServiceError_def CachingServiceError_eq)

lemma ASBServiceError_eq [error_simps]:
  "ASBServiceError m d = Exn C_ASBServiceError ''ASBServiceError'' (with_data m d) d []"
  by (simp add: ASBServiceError_def QueueServiceError_eq)

lemma ASBProducerServiceError_eq [error_simps]:
  "ASBProducerServiceError m d = Exn C_ASBProducerServiceError ''ASBProducerServiceError'' (with_data m d) d []"
  by (simp add: ASBProducerServiceError_def ASBServiceError_eq)

lemma ASBConsumerServiceError_eq [error_simps]:
  "ASBConsumerServiceError m d = Exn C_ASBConsumerServiceError ''ASBConsumerServiceError'' (with_data m d) d []"
  by (simp add: ASBConsumerServiceError_def ASBServiceError_eq)

lemma DBServiceError_eq [error_simps]:
  "DBServiceError m d = Exn C_DBServiceError ''DBServiceError'' (with_data m d) d []"
  by (simp add: DBServiceError_def new_Error_def)

lemma MongoServiceError_eq [error_simps]:
  "MongoServiceError m d = Exn C_MongoServiceError ''MongoServiceError'' (with_data m d) d []"
  by (simp add: MongoServiceError_def DBServiceError_eq)

lemma SqlServiceError_eq [error_simps]:
  "SqlServiceError m d = Exn C_SqlServiceError ''SqlServiceError'' (with_data m d) d []"
  by (simp add: SqlServiceError_def DBServiceError_eq)

lemma ElasticsearchServiceError_eq [error_simps]:
  "ElasticsearchServiceError m d = Exn C_ElasticsearchServiceError ''ElasticsearchServiceError'' (with_data m d) d []"
  by (simp add: ElasticsearchServiceError_def DBServiceError_eq)

lemma instance_of_MongoServiceError [error_simps]:
  "instance_of (MongoServiceError m d) C_MongoServiceError" "instance_of (MongoServiceError m d) C_DBServiceError"
proof -
  have "subclass_of C_MongoServiceError C_DBServiceError"
    by (rule subclass_of.up [of _ C_DBServiceError]) (simp_all add: subclass_of.same)
  then show "instance_of (MongoServiceError m d) C_MongoServiceError" "instance_of (MongoServiceError m d) C_DBServiceError"
    by (simp_all add: MongoServiceError_eq subclass_of.same)
qed

lemma instance_of_run_error [error_simps]:
  "instance_of (KafkaConsumerRunError t m d) C_KafkaConsumerRunError"
  by (simp add: KafkaConsumerRunError_eq subclass_of.same)

lemma subclass_of_run_error: "subclass_of c C_KafkaConsumerRunError \<longleftrightarrow> c = C_KafkaConsumerRunError"
proof
  assume "subclass_of c C_KafkaConsumerRunError"
  then show "c = C_KafkaConsumerRunError"
    by (induction c "C_KafkaConsumerRunError" rule: subclass_of.induct)
      (auto elim: parent_class.elims)
qed (simp add: subclass_of.same)

end
