(* ===== verification/AppConfig.thy ===== *)
theory AppConfig
  imports JsError
begin

text \<open>
  The constants of the application that the models mention: HTTP codes, failure messages, the CSV
  headers, and the statuses and messages of a request.
\<close>

subsection \<open>\<open>constants/http-response-codes.ts\<close>\<close>

datatype http_code =
    ACCEPTED_CODE | BAD_REQUEST | UNAUTHORIZED | FORBIDDEN | NOT_FOUND | PAYLOAD_TOO_LARGE
  | UNPROCESSABLE_ENTITY | DEPENDENCY_FAILED | PRECONDITION_REQUIRED | INTERNAL_SERVER_ERROR

fun code_of :: "http_code \<Rightarrow> nat" where
  "code_of ACCEPTED_CODE = 202"
| "code_of BAD_REQUEST = 400"
| "code_of UNAUTHORIZED = 401"
| "code_of FORBIDDEN = 403"
| "code_of NOT_FOUND = 404"
| "code_of PAYLOAD_TOO_LARGE = 413"
| "code_of UNPROCESSABLE_ENTITY = 422"
| "code_of DEPENDENCY_FAILED = 424"
| "code_of PRECONDITION_REQUIRED = 428"
| "code_of INTERNAL_SERVER_ERROR = 500"

fun code_message :: "http_code \<Rightarrow> string" where
  "code_message ACCEPTED_CODE = ''Accepted''"
| "code_message BAD_REQUEST = ''Bad request''"
| "code_message UNAUTHORIZED = ''Unauthorized''"
| "code_message FORBIDDEN = ''Forbidden''"
| "code_message NOT_FOUND = ''Not found''"
| "code_message PAYLOAD_TOO_LARGE = ''Payload too large''"
| "code_message UNPROCESSABLE_ENTITY = ''Unprocessable entity''"
| "code_message DEPENDENCY_FAILED = ''Dependency failed''"
| "code_message PRECONDITION_REQUIRED = ''Precondition required''"
| "code_message INTERNAL_SERVER_ERROR = ''Internal server error''"

subsection \<open>\<open>entities/csv/constants/config.ts\<close>\<close>

definition ALLOWED_MIME_TYPE :: string where
  "ALLOWED_MIME_TYPE = ''text/csv''"

definition EXPECTED_HEADERS :: "string list" where
  "EXPECTED_HEADERS = [''S. No.'', ''Product Name'', ''Input Image Urls'']"

definition CSV_OUTPUT_HEADERS :: "string list" where
  "CSV_OUTPUT_HEADERS = [''S. No.'', ''Product Name'', ''Input Image Urls'', ''Output Image Urls'']"

datatype csv_failure =
    INCORRECT_FILE_FORMAT | CSV_HEADER_PARSE_ERROR | CSV_PARSE_ERROR | INVALID_PRODUCT

fun csv_failure_message :: "csv_failure \<Rightarrow> string" where
  "csv_failure_message INCORRECT_FILE_FORMAT = ''Incorrect file format. Only CSV files are allowed''"
| "csv_failure_message CSV_HEADER_PARSE_ERROR = ''CSV header parsing error''"
| "csv_failure_message CSV_PARSE_ERROR = ''CSV file parsing error''"
| "csv_failure_message INVALID_PRODUCT = ''Invalid product''"

definition csv_failure_code :: "csv_failure \<Rightarrow> nat" where
  "csv_failure_code f = code_of UNPROCESSABLE_ENTITY"

subsection \<open>\<open>models/request/request.schema.ts\<close>: statuses\<close>

datatype request_status = ACCEPTED | PROCESSING | SUCCEEDED | FAILED

fun status_text :: "request_status \<Rightarrow> string" where
  "status_text ACCEPTED = ''Accepted''"
| "status_text PROCESSING = ''Processing''"
| "status_text SUCCEEDED = ''Succeeded''"
| "status_text FAILED = ''Failed''"

fun status_message :: "request_status \<Rightarrow> string" where
  "status_message ACCEPTED = ''request accepted and queued for processing''"
| "status_message PROCESSING = ''request processing started''"
| "status_message SUCCEEDED = ''request processing completed successfully''"
| "status_message FAILED = ''request processing failed''"

declare status_message.simps [simp del] status_text.simps [simp del]

subsection \<open>Failures of the repository and of the upload endpoint\<close>

definition REQUEST_NOT_FOUND :: exn where
  "REQUEST_NOT_FOUND = HttpException ''Request with the given request id not found'' (code_of NOT_FOUND)"

definition FILE_NOT_UPLOADED :: exn where
  "FILE_NOT_UPLOADED = HttpException ''File not present in request body'' (code_of UNPROCESSABLE_ENTITY)"

definition CSV_FILES_COUNT_LIMIT :: nat where
  "CSV_FILES_COUNT_LIMIT = 1"

definition CSV_FILE_SIZE_LIMIT :: nat where
  "CSV_FILE_SIZE_LIMIT = 5 * 1024 * 1024"

end
