(* ===== verification/CsvEntity.thy ===== *)
theory CsvEntity
  imports AppConfig
begin

text \<open>
  \<open>app/src/entities/csv/services/csv.entity.ts\<close>: the MIME check, the chunked reader, the column
  parser, header, row and product validation, the merge of rows of one product, and the writer of
  the output file. The class-validator library is the parameter \<open>V\<close>, the decoding of a chunk to
  a string (\<open>ch.toString()\<close>) the parameter \<open>dec\<close>.
\<close>

subsection \<open>Data\<close>

record csv_product =
  name :: string
  inputImageUrls :: "string list"

record csv_product_output = csv_product +
  outputImageUrls :: "string list"

record csv_data =
  products :: "csv_product js_object"

text \<open>
  A readable stream, as \<open>for await\<close> sees it: the chunks it delivers, then its end or the error it
  is destroyed with.
\<close>

record 'b readable =
  chunks :: "'b list"
  failure :: "exn option"

text \<open>An error of \<open>validate\<close>: the texts of its constraints, or its own rendering when it has none.\<close>

datatype validation_error = Constraints "string list" | Other_error string

type_synonym validator = "csv_product \<Rightarrow> validation_error list"

subsection \<open>Splitting a text into rows\<close>

text \<open>\<open>s.split(/\r\n|\n\r|\n|\r/)\<close>: the two-character breaks are tried first.\<close>

abbreviation CR :: char where "CR \<equiv> CHR 0x0D"
abbreviation LF :: char where "LF \<equiv> CHR 0x0A"
abbreviation QUOTE :: char where "QUOTE \<equiv> CHR 0x22"
abbreviation COMMA :: char where "COMMA \<equiv> CHR 0x2C"
abbreviation SPACE :: char where "SPACE \<equiv> CHR 0x20"

fun cons_row :: "char \<Rightarrow> string list \<Rightarrow> string list" where
  "cons_row c [] = [[c]]"
| "cons_row c (w # ws) = (c # w) # ws"

fun split_rows :: "string \<Rightarrow> string list" where
  "split_rows [] = [[]]"
| "split_rows [c] = (if c = CR \<or> c = LF then [[], []] else [[c]])"
| "split_rows (c # d # s) =
     (if (c = CR \<and> d = LF) \<or> (c = LF \<and> d = CR) then [] # split_rows s
      else if c = CR \<or> c = LF then [] # split_rows (d # s)
      else cons_row c (split_rows (d # s)))"

subsection \<open>Splitting a row into columns\<close>

text \<open>
  The two inner \<open>while\<close> loops over blanks: \<open>skip_back row i\<close> is \<open>j + 1\<close> for the final value of
  \<open>j\<close> when it starts at \<open>i - 1\<close>, so that \<open>0\<close> stands for a negative \<open>j\<close>; \<open>skip_fwd row k\<close> is
  the final value of \<open>k\<close>.
\<close>

fun skip_back :: "string \<Rightarrow> nat \<Rightarrow> nat" where
  "skip_back row 0 = 0"
| "skip_back row (Suc j) = (if row ! j = SPACE then skip_back row j else Suc j)"

function skip_fwd :: "string \<Rightarrow> nat \<Rightarrow> nat" where
  "skip_fwd row k = (if k < length row \<and> row ! k = SPACE then skip_fwd row (Suc k) else k)"
  by pat_completeness auto
termination
  by (relation "measure (\<lambda>(row, k). length row - k)") auto

declare skip_fwd.simps [simp del]

text \<open>A quote next to a comma or an end of the row (blanks aside) opens or closes a quoted column.\<close>

definition delimiting_quote :: "string \<Rightarrow> nat \<Rightarrow> bool" where
  "delimiting_quote row i =
    (let j = skip_back row i; k = skip_fwd row (i + 1)
     in j = 0 \<or> row ! (j - 1) = COMMA \<or> k = length row \<or> row ! k = COMMA)"

text \<open>The main loop: index, columns so far, current column, inside quotes.\<close>

function parse_cols_loop ::
  "string \<Rightarrow> nat \<Rightarrow> string list \<Rightarrow> string \<Rightarrow> bool \<Rightarrow> string list \<times> string \<times> bool" where
  "parse_cols_loop row i cols cur inQuotes =
    (if i < length row then
       (let c = row ! i
        in if c = QUOTE then
             if i + 1 < length row \<and> row ! (i + 1) = QUOTE
             then parse_cols_loop row (i + 2) cols (cur @ [QUOTE]) inQuotes
             else if delimiting_quote row i
                  then parse_cols_loop row (i + 1) cols cur (\<not> inQuotes)
                  else parse_cols_loop row (i + 1) cols (cur @ [c]) inQuotes
           else if c = COMMA \<and> \<not> inQuotes
           then parse_cols_loop row (i + 1) (cols @ [trim cur]) [] inQuotes
           else parse_cols_loop row (i + 1) cols (cur @ [c]) inQuotes)
     else (cols, cur, inQuotes))"
  by pat_completeness auto
termination
  by (relation "measure (\<lambda>(row, i, _). length row - i)") auto

declare parse_cols_loop.simps [simp del]

definition csv_error :: "csv_failure \<Rightarrow> string \<Rightarrow> exn" where
  "csv_error f detail = HttpException (csv_failure_message f @ detail) (csv_failure_code f)"

definition parse_cols :: "string \<Rightarrow> exn + string list" where
  "parse_cols row =
    (case parse_cols_loop row 0 [] [] False of
       (cols, cur, inQuotes) \<Rightarrow>
         if inQuotes then Inl (csv_error CSV_PARSE_ERROR (''. Unclosed quote in row: '' @ row))
         else Inr (cols @ [trim cur]))"

subsection \<open>Validation of headers, rows and products\<close>

definition validate_header_row :: "string list \<Rightarrow> exn + unit" where
  "validate_header_row headers =
    (if length headers \<noteq> length EXPECTED_HEADERS then
       Inl (csv_error CSV_HEADER_PARSE_ERROR
         ('': '' @ join '', '' headers @ ''. Expected: '' @ decimal (length EXPECTED_HEADERS) @
          '' columns, Received: '' @ decimal (length headers) @ '' columns.''))
     else if \<not> list_all (\<lambda>(header, h). lower h = lower header) (zip EXPECTED_HEADERS headers) then
       Inl (csv_error CSV_HEADER_PARSE_ERROR
         ('': Invalid headers '' @ join '', '' headers @ ''. Expected: '' @
          join '', '' EXPECTED_HEADERS @ ''.''))
     else Inr ())"

definition is_empty_row :: "string list \<Rightarrow> bool" where
  "is_empty_row cols = list_all (\<lambda>col. trim col = []) cols"

definition validate_row :: "string list \<Rightarrow> exn + unit" where
  "validate_row cols =
    (if length cols \<noteq> length EXPECTED_HEADERS then
       Inl (csv_error CSV_PARSE_ERROR
         ('': '' @ join '', '' cols @ ''. Expected: '' @ decimal (length EXPECTED_HEADERS) @
          '' columns, Received: '' @ decimal (length cols) @ '' columns.''))
     else Inr ())"

definition get_product_from_row :: "string list \<Rightarrow> exn + csv_product" where
  "get_product_from_row cols =
    (case validate_row cols of
       Inl e \<Rightarrow> Inl e
     | Inr _ \<Rightarrow> Inr \<lparr>name = cols ! 1, inputImageUrls = map trim (split_on COMMA (trim (cols ! 2)))\<rparr>)"

definition product_jv :: "csv_product \<Rightarrow> jv" where
  "product_jv p = JObj [(''name'', JStr (name p)), (''inputImageUrls'', jv_strings (inputImageUrls p))]"

fun validation_error_text :: "validation_error \<Rightarrow> string" where
  "validation_error_text (Constraints cs) = join '', '' cs"
| "validation_error_text (Other_error s) = s"

definition validate_product :: "validator \<Rightarrow> csv_product \<Rightarrow> exn + unit" where
  "validate_product V p =
    (let errors = V p
     in if errors \<noteq> [] then
          Inl (csv_error INVALID_PRODUCT
            ('': '' @ json_text (product_jv p) @ ''. Errors: '' @
             join '', '' (map validation_error_text errors)))
        else Inr ())"

subsection \<open>Merging the rows of a product\<close>

text \<open>
  A name that the dictionary's prototype answers to is found but has no \<open>inputImageUrls\<close>, and
  spreading \<open>undefined\<close> throws.
\<close>

definition merge_products_data :: "csv_data \<Rightarrow> csv_product \<Rightarrow> exn + csv_data" where
  "merge_products_data data p =
    (case js_read (products data) (name p) of
       Own q \<Rightarrow>
         Inr (data\<lparr>products := js_put (name p)
           (q\<lparr>inputImageUrls := dedup (inputImageUrls q @ inputImageUrls p)\<rparr>) (products data)\<rparr>)
     | Inherited \<Rightarrow> Inl (new_TypeError ''data.products[product.name].inputImageUrls is not iterable'')
     | Absent \<Rightarrow> Inr (data\<lparr>products := js_put (name p) p (products data)\<rparr>))"

subsection \<open>The reader\<close>

record reader =
  rdata :: csv_data
  headerRow :: "string list"

definition data_row :: "validator \<Rightarrow> csv_data \<Rightarrow> string list \<Rightarrow> exn + csv_data" where
  "data_row V data cols =
    (case get_product_from_row cols of
       Inl e \<Rightarrow> Inl e
     | Inr p \<Rightarrow>
         (case validate_product V p of
            Inl e \<Rightarrow> Inl e
          | Inr _ \<Rightarrow> merge_products_data data p))"

text \<open>The body of the loop over the complete rows of a chunk.\<close>

definition process_row :: "validator \<Rightarrow> reader \<Rightarrow> string \<Rightarrow> exn + reader" where
  "process_row V st row =
    (case parse_cols row of
       Inl e \<Rightarrow> Inl e
     | Inr cols \<Rightarrow>
         if headerRow st = [] then
           (case validate_header_row cols of
              Inl e \<Rightarrow> Inl e
            | Inr _ \<Rightarrow> Inr (st\<lparr>headerRow := cols\<rparr>))
         else if is_empty_row cols then Inr st
         else map_sum id (\<lambda>d. st\<lparr>rdata := d\<rparr>) (data_row V (rdata st) cols))"

text \<open>One chunk: the last row may be incomplete and is kept for the next chunk.\<close>

definition process_chunk ::
  "validator \<Rightarrow> ('b \<Rightarrow> string) \<Rightarrow> reader \<times> string \<Rightarrow> 'b \<Rightarrow> exn + (reader \<times> string)" where
  "process_chunk V dec sp ch =
    (case sp of (st, partialRow) \<Rightarrow>
       (let rows = split_rows (partialRow @ dec ch)
        in map_sum id (\<lambda>st'. (st', last rows)) (fold_result (process_row V) st (butlast rows))))"

text \<open>The row left over after the last chunk.\<close>

definition process_last_row :: "validator \<Rightarrow> reader \<times> string \<Rightarrow> exn + csv_data" where
  "process_last_row V sp =
    (case sp of (st, partialRow) \<Rightarrow>
       if trim partialRow \<noteq> [] then
         (case parse_cols partialRow of
            Inl e \<Rightarrow> Inl e
          | Inr cols \<Rightarrow>
              if is_empty_row cols then Inr (rdata st)
              else if headerRow st = [] then
                (case validate_header_row cols of Inl e \<Rightarrow> Inl e | Inr _ \<Rightarrow> Inr (rdata st))
              else data_row V (rdata st) cols)
       else Inr (rdata st))"

definition empty_reader :: reader where
  "empty_reader = \<lparr>rdata = \<lparr>products = []\<rparr>, headerRow = []\<rparr>"

definition parse_data :: "validator \<Rightarrow> ('b \<Rightarrow> string) \<Rightarrow> 'b readable \<Rightarrow> exn + csv_data" where
  "parse_data V dec csvFile =
    (case fold_result (process_chunk V dec) (empty_reader, []) (chunks csvFile) of
       Inl e \<Rightarrow> Inl e
     | Inr sp \<Rightarrow>
         (case failure csvFile of
            Some e \<Rightarrow> Inl e
          | None \<Rightarrow> process_last_row V sp))"

definition validate_mime_type :: "string \<Rightarrow> exn + unit" where
  "validate_mime_type mimeType =
    (if mimeType \<noteq> ALLOWED_MIME_TYPE then
       Inl (csv_error INCORRECT_FILE_FORMAT
         (''. Required: '' @ ALLOWED_MIME_TYPE @ '', Received: '' @ mimeType))
     else Inr ())"

definition validate_and_parse ::
  "validator \<Rightarrow> ('b \<Rightarrow> string) \<Rightarrow> 'b readable \<Rightarrow> string \<Rightarrow> exn + csv_data" where
  "validate_and_parse V dec csvFile mimeType =
    (case validate_mime_type mimeType of
       Inl e \<Rightarrow> Inl e
     | Inr _ \<Rightarrow> parse_data V dec csvFile)"

subsection \<open>The writer\<close>

definition output_row :: "nat \<Rightarrow> csv_product_output \<Rightarrow> string" where
  "output_row i p =
    decimal i @ '','' @ name p @ '','' @ [QUOTE] @ join '','' (inputImageUrls p) @ [QUOTE] @ '','' @
    [QUOTE] @ join '','' (outputImageUrls p) @ [QUOTE]"

fun output_rows :: "nat \<Rightarrow> csv_product_output list \<Rightarrow> string" where
  "output_rows i [] = []"
| "output_rows i (p # ps) = output_row i p @ [CR, LF] @ output_rows (i + 1) ps"

definition build_csv :: "csv_product_output js_object \<Rightarrow> string" where
  "build_csv ps = join '','' CSV_OUTPUT_HEADERS @ [CR, LF] @ output_rows 1 (js_values ps)"

end
