(* ===== verification/RequestRepository.thy ===== *)
theory RequestRepository
  imports AppConfig
begin

text \<open>
  \<open>app/src/models/request\<close> and
  \<open>app/src/services/repository-service/repositories/request/request.repository.ts\<close>: the stored
  request and the repository's four methods. The mongoose model is a parameter \<open>M\<close>, a record of
  the three methods the repository calls; \<open>collection_laws\<close> says what their documentation promises
  about the stored documents, \<open>docs\<close> being the documents by request id. A method is a call on the
  database's state; the repository neither logs nor catches.
\<close>

subsection \<open>Documents\<close>

record product_doc =
  pd_name :: string
  pd_inputImageUrls :: "string list"
  pd_outputImageUrls :: "string list option"

record request_doc =
  rq_requestId :: string
  rq_status :: request_status
  rq_message :: string
  rq_webhookUrl :: string
  rq_products :: "product_doc js_object"

text \<open>\<open>Partial<Request>\<close>, as far as the callers fill it.\<close>

record request_patch =
  up_status :: "request_status option"
  up_message :: "string option"
  up_products :: "product_doc js_object option"

text \<open>The defaults of the schemas: absent output urls are the empty list.\<close>

definition product_defaults :: "product_doc \<Rightarrow> product_doc" where
  "product_defaults p =
    p\<lparr>pd_outputImageUrls := Some (case pd_outputImageUrls p of None \<Rightarrow> [] | Some us \<Rightarrow> us)\<rparr>"

definition request_defaults :: "request_doc \<Rightarrow> request_doc" where
  "request_defaults r =
    r\<lparr>rq_products := map (\<lambda>(k, p). (k, product_defaults p)) (rq_products r)\<rparr>"

text \<open>\<open>findOneAndUpdate\<close> sets the given fields and leaves the others.\<close>

definition apply_patch :: "request_patch \<Rightarrow> request_doc \<Rightarrow> request_doc" where
  "apply_patch u r =
    request_defaults
     (r\<lparr>rq_status := (case up_status u of None \<Rightarrow> rq_status r | Some x \<Rightarrow> x),
        rq_message := (case up_message u of None \<Rightarrow> rq_message r | Some x \<Rightarrow> x),
        rq_products := (case up_products u of None \<Rightarrow> rq_products r | Some x \<Rightarrow> x)\<rparr>)"

subsection \<open>The mongoose model\<close>

type_synonym ('d, 'a) db_call = "'d \<Rightarrow> (exn + 'a) \<times> 'd"

record 'd request_model =
  mg_create :: "request_doc \<Rightarrow> ('d, request_doc) db_call"
  mg_findOneAndUpdate :: "string \<Rightarrow> request_patch \<Rightarrow> ('d, request_doc option) db_call"
  mg_findOne :: "string \<Rightarrow> ('d, request_doc option) db_call"

text \<open>
  \<open>create\<close> stores the document with the schema's defaults, under a request id that was not taken
  (\<open>unique\<close>); \<open>findOneAndUpdate\<close>, without the option \<open>new\<close>, returns the document as it was before
  the update, or null when there is none; \<open>findOne\<close> reads. Nothing is promised about the stored
  documents when a call rejects.
\<close>

definition collection_laws :: "'d request_model \<Rightarrow> ('d \<Rightarrow> string \<Rightarrow> request_doc option) \<Rightarrow> bool" where
  "collection_laws M docs \<longleftrightarrow>
    (\<forall>r d x d'. mg_create M r d = (Inr x, d') \<longrightarrow>
       docs d (rq_requestId r) = None \<and> x = request_defaults r \<and>
       docs d' = (docs d)(rq_requestId r \<mapsto> request_defaults r)) \<and>
    (\<forall>i u d x d'. mg_findOneAndUpdate M i u d = (Inr x, d') \<longrightarrow>
       x = docs d i \<and>
       docs d' = (case docs d i of None \<Rightarrow> docs d | Some r \<Rightarrow> (docs d)(i \<mapsto> apply_patch u r))) \<and>
    (\<forall>i d x d'. mg_findOne M i d = (Inr x, d') \<longrightarrow> x = docs d i \<and> docs d' = docs d)"

subsection \<open>The repository\<close>

definition found_or_404 :: "('d, 'a option) db_call \<Rightarrow> ('d, 'a) db_call" where
  "found_or_404 c d =
    (case c d of
       (Inl e, d') \<Rightarrow> (Inl e, d')
     | (Inr None, d') \<Rightarrow> (Inl REQUEST_NOT_FOUND, d')
     | (Inr (Some r), d') \<Rightarrow> (Inr r, d'))"

definition create_request :: "'d request_model \<Rightarrow> request_doc \<Rightarrow> ('d, request_doc) db_call" where
  "create_request M request = mg_create M request"

definition update_status ::
  "'d request_model \<Rightarrow> string \<Rightarrow> request_status \<Rightarrow> string \<Rightarrow> ('d, request_doc) db_call" where
  "update_status M requestId st msg =
    found_or_404 (mg_findOneAndUpdate M requestId
      \<lparr>up_status = Some st, up_message = Some msg, up_products = None\<rparr>)"

definition get_status :: "'d request_model \<Rightarrow> string \<Rightarrow> ('d, request_status \<times> string) db_call" where
  "get_status M requestId d =
    (case found_or_404 (mg_findOne M requestId) d of
       (Inl e, d') \<Rightarrow> (Inl e, d')
     | (Inr r, d') \<Rightarrow> (Inr (rq_status r, rq_message r), d'))"

definition update_request ::
  "'d request_model \<Rightarrow> string \<Rightarrow> request_patch \<Rightarrow> ('d, request_doc) db_call" where
  "update_request M requestId patch = found_or_404 (mg_findOneAndUpdate M requestId patch)"

subsection \<open>The interface the application uses\<close>

text \<open>
  A store of requests, for lawful databases: a creation that returns has added the request, an
  update that returns has changed exactly the addressed request, and reading returns what is
  stored; an update of an unknown request is refused with the 404 error.
\<close>

locale request_store =
  fixes lawful :: "'m \<Rightarrow> ('d \<Rightarrow> string \<Rightarrow> request_doc option) \<Rightarrow> bool"
    and creat :: "'m \<Rightarrow> request_doc \<Rightarrow> ('d, request_doc) db_call"
    and update :: "'m \<Rightarrow> string \<Rightarrow> request_patch \<Rightarrow> ('d, request_doc) db_call"
    and status :: "'m \<Rightarrow> string \<Rightarrow> ('d, request_status \<times> string) db_call"
  assumes creat_adds: "lawful M docs \<Longrightarrow> creat M r d = (Inr x, d') \<Longrightarrow>
      docs d (rq_requestId r) = None \<and> docs d' = (docs d)(rq_requestId r \<mapsto> request_defaults r)"
    and update_changes: "lawful M docs \<Longrightarrow> update M i u d = (Inr x, d') \<Longrightarrow>
      docs d i = Some x \<and> docs d' = (docs d)(i \<mapsto> apply_patch u x)"
    and update_refuses: "lawful M docs \<Longrightarrow> docs d i = None \<Longrightarrow> update M i u d \<noteq> (Inr x, d')"
    and status_reads: "lawful M docs \<Longrightarrow> status M i d = (Inr (st, m), d') \<Longrightarrow>
      docs d' = docs d \<and> (\<exists>r. docs d i = Some r \<and> st = rq_status r \<and> m = rq_message r)"
begin

text \<open>Reading after updates: the last one that sets the status decides, whatever the request was.\<close>

lemma status_after_update:
  assumes "lawful M docs" and "update M i u d = (Inr x, d')" and "status M i d' = (Inr (st, m), d'')"
  shows "st = (case up_status u of None \<Rightarrow> rq_status x | Some a \<Rightarrow> a) \<and>
    m = (case up_message u of None \<Rightarrow> rq_message x | Some a \<Rightarrow> a)"
  using update_changes [OF assms(1,2)] status_reads [OF assms(1,3)]
  by (auto simp: apply_patch_def request_defaults_def)

lemma status_after_creat:
  assumes "lawful M docs" and "creat M r d = (Inr x, d')" and "status M (rq_requestId r) d' = (Inr (st, m), d'')"
  shows "st = rq_status r \<and> m = rq_message r"
  using creat_adds [OF assms(1,2)] status_reads [OF assms(1,3)]
  by (auto simp: request_defaults_def)

lemma update_frame:
  "lawful M docs \<Longrightarrow> update M i u d = (Inr x, d') \<Longrightarrow> j \<noteq> i \<Longrightarrow> docs d' j = docs d j"
  using update_changes by fastforce

end

lemma found_or_404_Inr: "found_or_404 c d = (Inr r, d') \<longleftrightarrow> c d = (Inr (Some r), d')"
  by (auto simp: found_or_404_def split: prod.splits sum.splits option.splits)

lemma get_status_Inr:
  "get_status M i d = (Inr (st, m), d') \<longleftrightarrow>
    (\<exists>r. mg_findOne M i d = (Inr (Some r), d') \<and> st = rq_status r \<and> m = rq_message r)"
  by (auto simp: get_status_def found_or_404_Inr [symmetric] split: prod.splits sum.splits)

lemma collection_update:
  assumes "collection_laws M docs" and "mg_findOneAndUpdate M i u d = (Inr x, d')"
  shows "x = docs d i" and
    "docs d' = (case docs d i of None \<Rightarrow> docs d | Some r \<Rightarrow> (docs d)(i \<mapsto> apply_patch u r))"
  using assms unfolding collection_laws_def by blast+

lemma collection_find:
  assumes "collection_laws M docs" and "mg_findOne M i d = (Inr x, d')"
  shows "x = docs d i" and "docs d' = docs d"
  using assms unfolding collection_laws_def by blast+

lemma collection_create:
  assumes "collection_laws M docs" and "mg_create M r d = (Inr x, d')"
  shows "docs d (rq_requestId r) = None" and "docs d' = (docs d)(rq_requestId r \<mapsto> request_defaults r)"
  using assms unfolding collection_laws_def by blast+

interpretation repo: request_store collection_laws create_request update_request get_status
proof
  show "docs d (rq_requestId r) = None \<and> docs d' = (docs d)(rq_requestId r \<mapsto> request_defaults r)"
    if "collection_laws M docs" "create_request M r d = (Inr x, d')"
    for M :: "'a request_model" and docs r d x d'
    using collection_create [OF that(1)] that(2) by (auto simp: create_request_def)
  show "docs d i = Some x \<and> docs d' = (docs d)(i \<mapsto> apply_patch u x)"
    if "collection_laws M docs" "update_request M i u d = (Inr x, d')"
    for M :: "'a request_model" and docs i u d x d'
    using collection_update [OF that(1), of i u d "Some x" d'] that(2)
    by (auto simp: update_request_def found_or_404_Inr split: option.splits)
  show "update_request M i u d \<noteq> (Inr x, d')"
    if "collection_laws M docs" "docs d i = None"
    for M :: "'a request_model" and docs i u d x d'
    using collection_update [OF that(1), of i u d "Some x" d'] that(2)
    by (auto simp: update_request_def found_or_404_Inr)
  show "docs d' = docs d \<and> (\<exists>r. docs d i = Some r \<and> st = rq_status r \<and> m = rq_message r)"
    if "collection_laws M docs" "get_status M i d = (Inr (st, m), d')"
    for M :: "'a request_model" and docs i d st m d'
    using collection_find [OF that(1)] that(2) by (fastforce simp: get_status_Inr)
qed

lemma update_status_request:
  "update_status M i st msg = update_request M i \<lparr>up_status = Some st, up_message = Some msg, up_products = None\<rparr>"
  by (simp add: update_status_def update_request_def)

text \<open>
  Status round trip: after an update of a request's status has returned, reading the status of
  that request returns the status and message just written, and no other request has changed.
\<close>

theorem update_then_get_status:
  assumes "collection_laws M docs" and "update_status M i st msg d = (Inr x, d')"
    and "get_status M i d' = (Inr (st', msg'), d'')"
  shows "st' = st \<and> msg' = msg \<and> (\<forall>j. j \<noteq> i \<longrightarrow> docs d'' j = docs d j)"
  using repo.status_after_update [OF assms(1) assms(2) [unfolded update_status_request] assms(3)]
    repo.update_frame [OF assms(1) assms(2) [unfolded update_status_request]]
    repo.status_reads [OF assms(1,3)]
  by auto

text \<open>
  The document an update returns is the one from before the update, although the source calls
  it \<open>updatedRequest\<close>: its status is the old one.
\<close>

theorem update_returns_old_document:
  assumes "collection_laws M docs" and "update_request M i u d = (Inr x, d')"
  shows "docs d i = Some x \<and> docs d' i = Some (apply_patch u x)"
  using repo.update_changes [OF assms] by simp

subsection \<open>A collection in memory\<close>

text \<open>The laws hold of a map from request ids to documents.\<close>

definition memory_model :: "(string \<Rightarrow> request_doc option) request_model" where
  "memory_model =
    \<lparr>mg_create = (\<lambda>r d.
       if d (rq_requestId r) = None
       then (Inr (request_defaults r), d(rq_requestId r \<mapsto> request_defaults r))
       else (Inl (new_Error ''E11000 duplicate key error collection''), d)),
     mg_findOneAndUpdate = (\<lambda>i u d.
       (Inr (d i), case d i of None \<Rightarrow> d | Some r \<Rightarrow> d(i \<mapsto> apply_patch u r))),
     mg_findOne = (\<lambda>i d. (Inr (d i), d))\<rparr>"

lemma memory_model_laws: "collection_laws memory_model id"
  by (auto simp: collection_laws_def memory_model_def split: if_splits option.splits)

definition sample_request :: request_doc where
  "sample_request =
    \<lparr>rq_requestId = ''r1'', rq_status = ACCEPTED, rq_message = status_message ACCEPTED,
     rq_webhookUrl = ''http://hook'', rq_products = []\<rparr>"

definition sample_db :: "string \<Rightarrow> request_doc option" where
  "sample_db = Map.empty(''r1'' \<mapsto> sample_request)"

theorem update_then_get_status_witness:
  "fst (get_status memory_model ''r1''
    (snd (update_status memory_model ''r1'' PROCESSING ''started'' sample_db))) = Inr (PROCESSING, ''started'')"
proof -
  obtain x d' where u: "update_status memory_model ''r1'' PROCESSING ''started'' sample_db = (Inr x, d')"
    by (simp add: update_status_def found_or_404_def memory_model_def sample_db_def)
  obtain st msg d'' where g: "get_status memory_model ''r1'' d' = (Inr (st, msg), d'')"
    using u by (auto simp: update_status_def get_status_def found_or_404_def memory_model_def sample_db_def)
  show ?thesis using update_then_get_status [OF memory_model_laws u g] u g by simp
qed

theorem update_returns_old_document_witness:
  "\<exists>x d'. update_status memory_model ''r1'' PROCESSING ''started'' sample_db = (Inr x, d') \<and>
    rq_status x = ACCEPTED \<and> map_option rq_status (d' ''r1'') = Some PROCESSING"
proof -
  let ?u = "\<lparr>up_status = Some PROCESSING, up_message = Some ''started'', up_products = None\<rparr>"
  obtain x d' where u: "update_request memory_model ''r1'' ?u sample_db = (Inr x, d')"
    by (simp add: update_request_def found_or_404_def memory_model_def sample_db_def)
  from update_returns_old_document [OF memory_model_laws u]
  have "sample_db ''r1'' = Some x" "d' ''r1'' = Some (apply_patch ?u x)" by simp_all
  then show ?thesis using u
    by (intro exI [of _ x] exI [of _ d'])
      (auto simp: update_status_request sample_db_def sample_request_def apply_patch_def request_defaults_def)
qed

end
