(* ===== verification/FileSystem.thy ===== *)
theory FileSystem
  imports JsError "HOL-Library.Word"
begin

text \<open>
  The part of Node's \<open>path\<close>, \<open>fs/promises\<close> and \<open>Buffer\<close> that the image processor uses, over POSIX
  paths from the root: joining and resolving, the recursive \<open>mkdir\<close> and \<open>rmdir\<close>, writing a
  stream to a file, \<open>readFile\<close>, \<open>unlink\<close>, and base64. A file is kept under its normalised path,
  the list of its segments.
\<close>

type_synonym bytes = "8 word list"
type_synonym path_key = "string list"

subsection \<open>Paths\<close>

text \<open>One step of normalisation: empty segments and \<open>.\<close> vanish, \<open>..\<close> drops the last segment.\<close>

definition norm_step :: "path_key \<Rightarrow> string \<Rightarrow> path_key" where
  "norm_step acc seg =
    (if seg = [] \<or> seg = ''.'' then acc else if seg = ''..'' then butlast acc else acc @ [seg])"

definition path_key :: "string \<Rightarrow> path_key" where
  "path_key p = foldl norm_step [] (split_on CHR ''/'' p)"

definition key_path :: "path_key \<Rightarrow> string" where
  "key_path k = ''/'' @ join ''/'' k"

text \<open>\<open>resolve(join(p, ...))\<close> of parts whose first is absolute.\<close>

definition path_join :: "string list \<Rightarrow> string" where
  "path_join ps = key_path (path_key (join ''/'' ps))"

definition path_basename :: "string \<Rightarrow> string" where
  "path_basename p =
    (case filter (\<lambda>w. w \<noteq> []) (split_on CHR ''/'' p) of [] \<Rightarrow> [] | ws \<Rightarrow> last ws)"

definition path_dirname :: "string \<Rightarrow> string" where
  "path_dirname p =
    (let slash = (\<lambda>c. c = CHR ''/'');
         r = dropWhile slash (dropWhile (\<lambda>c. \<not> slash c) (dropWhile slash (rev p)))
     in if r \<noteq> [] then rev r else if p \<noteq> [] \<and> hd p = CHR ''/'' then ''/'' else ''.'')"

subsection \<open>The file system\<close>

record fs =
  is_dir :: "path_key \<Rightarrow> bool"
  file_at :: "path_key \<Rightarrow> bytes option"

definition node_error :: "string \<Rightarrow> string \<Rightarrow> string \<Rightarrow> string \<Rightarrow> exn" where
  "node_error code desc syscall p =
    Exn C_LibraryError ''Error'' (code @ '': '' @ desc @ '', '' @ syscall @ '' '' @ [CHR 0x27] @ p @ [CHR 0x27])
      None [(''code'', JStr code)]"

definition ENOENT :: "string \<Rightarrow> string \<Rightarrow> exn" where
  "ENOENT syscall p = node_error ''ENOENT'' ''no such file or directory'' syscall p"

definition ENOTDIR :: "string \<Rightarrow> string \<Rightarrow> exn" where
  "ENOTDIR syscall p = node_error ''ENOTDIR'' ''not a directory'' syscall p"

definition EISDIR :: "string \<Rightarrow> string \<Rightarrow> exn" where
  "EISDIR syscall p = node_error ''EISDIR'' ''illegal operation on a directory'' syscall p"

definition EEXIST :: "string \<Rightarrow> string \<Rightarrow> exn" where
  "EEXIST syscall p = node_error ''EEXIST'' ''file already exists'' syscall p"

text \<open>\<open>mkdir(p, { recursive: true })\<close>: every missing directory on the way is made.\<close>

definition fs_mkdir :: "string \<Rightarrow> fs \<Rightarrow> (exn + unit) \<times> fs" where
  "fs_mkdir p f =
    (let k = path_key p
     in if file_at f k \<noteq> None then (Inl (EEXIST ''mkdir'' p), f)
        else if list_ex (\<lambda>q. file_at f q \<noteq> None) (prefixes k) then (Inl (ENOTDIR ''mkdir'' p), f)
        else (Inr (), f\<lparr>is_dir := (\<lambda>q. is_dir f q \<or> prefix q k)\<rparr>))"

text \<open>
  \<open>pipeline(data, createWriteStream(p))\<close>: the file is created or truncated, the delivered bytes are
  written, and a failure of the source leaves what had arrived.
\<close>

definition fs_write_stream :: "string \<Rightarrow> bytes \<Rightarrow> exn option \<Rightarrow> fs \<Rightarrow> (exn + unit) \<times> fs" where
  "fs_write_stream p content failure f =
    (let k = path_key p
     in if is_dir f k then (Inl (EISDIR ''open'' p), f)
        else if \<not> is_dir f (butlast k) then (Inl (ENOENT ''open'' p), f)
        else (case failure of Some e \<Rightarrow> Inl e | None \<Rightarrow> Inr (),
              f\<lparr>file_at := (file_at f)(k \<mapsto> content)\<rparr>))"

definition fs_read :: "string \<Rightarrow> fs \<Rightarrow> (exn + bytes) \<times> fs" where
  "fs_read p f =
    (let k = path_key p
     in if is_dir f k then (Inl (EISDIR ''read'' p), f)
        else case file_at f k of
               None \<Rightarrow> (Inl (ENOENT ''open'' p), f)
             | Some c \<Rightarrow> (Inr c, f))"

definition fs_unlink :: "string \<Rightarrow> fs \<Rightarrow> (exn + unit) \<times> fs" where
  "fs_unlink p f =
    (let k = path_key p
     in if is_dir f k then (Inl (EISDIR ''unlink'' p), f)
        else if file_at f k = None then (Inl (ENOENT ''unlink'' p), f)
        else (Inr (), f\<lparr>file_at := (file_at f)(k := None)\<rparr>))"

text \<open>
  \<open>rmdir(p, { recursive: true })\<close>: since Node 16 a missing path is an error of the initial \<open>stat\<close>,
  and a path that is a file an error of \<open>rmdir\<close>.
\<close>

definition fs_rmdir :: "string \<Rightarrow> fs \<Rightarrow> (exn + unit) \<times> fs" where
  "fs_rmdir p f =
    (let k = path_key p
     in if is_dir f k then
          (Inr (), f\<lparr>is_dir := (\<lambda>q. is_dir f q \<and> \<not> prefix k q),
                     file_at := (\<lambda>q. if prefix k q then None else file_at f q)\<rparr>)
        else if file_at f k \<noteq> None then (Inl (ENOTDIR ''rmdir'' p), f)
        else (Inl (ENOENT ''stat'' p), f))"

subsection \<open>Base64\<close>

definition b64_char :: "nat \<Rightarrow> char" where
  "b64_char n =
    (if n < 26 then char_of (65 + n) else if n < 52 then char_of (71 + n)
     else if n < 62 then char_of (n - 4) else if n = 62 then CHR ''+'' else CHR ''/'')"

text \<open>\<open>buffer.toString('base64')\<close>: three bytes make four characters, the rest is padded.\<close>

fun base64 :: "bytes \<Rightarrow> string" where
  "base64 [] = []"
| "base64 [a] =
     [b64_char (unat a div 4), b64_char (unat a mod 4 * 16), CHR ''='', CHR ''='']"
| "base64 [a, b] =
     [b64_char (unat a div 4), b64_char (unat a mod 4 * 16 + unat b div 16),
      b64_char (unat b mod 16 * 4), CHR ''='']"
| "base64 (a # b # c # bs) =
     [b64_char (unat a div 4), b64_char (unat a mod 4 * 16 + unat b div 16),
      b64_char (unat b mod 16 * 4 + unat c div 64), b64_char (unat c mod 64)] @ base64 bs"

subsection \<open>Lemmas on paths\<close>

text \<open>A segment that normalisation keeps as it is.\<close>

definition plain_seg :: "string \<Rightarrow> bool" where
  "plain_seg s \<longleftrightarrow> s \<noteq> [] \<and> s \<noteq> ''.'' \<and> s \<noteq> ''..'' \<and> CHR ''/'' \<notin> set s"

lemma foldl_norm_plain: "\<forall>s \<in> set ks. plain_seg s \<Longrightarrow> foldl norm_step acc ks = acc @ ks"
  by (induction ks arbitrary: acc) (auto simp: norm_step_def plain_seg_def)

lemma path_key_key_path: "\<forall>s \<in> set ks. plain_seg s \<Longrightarrow> path_key (key_path ks) = ks"
proof (cases "ks = []")
  case True
  then show ?thesis by (simp add: path_key_def key_path_def norm_step_def)
next
  case False
  assume plain: "\<forall>s \<in> set ks. plain_seg s"
  then have "split_on CHR ''/'' (join ''/'' ks) = ks"
    using False by (intro split_on_join) (auto simp: plain_seg_def)
  then show ?thesis
    using foldl_norm_plain [OF plain, of "[]"] by (simp add: path_key_def key_path_def norm_step_def)
qed

lemma split_on_append:
  "split_on d (u @ d # v) = split_on d u @ split_on d v"
  by (induction u) (auto split: list.splits simp: neq_Nil_conv)

lemma path_key_snoc:
  "plain_seg s \<Longrightarrow> path_key (p @ ''/'' @ s) = path_key p @ [s]"
  by (auto simp: path_key_def split_on_append split_on_no_sep norm_step_def plain_seg_def)

lemma norm_step_plain: "\<forall>s \<in> set acc. plain_seg s \<Longrightarrow> CHR ''/'' \<notin> set w \<Longrightarrow>
    \<forall>s \<in> set (norm_step acc w). plain_seg s"
  by (auto simp: norm_step_def plain_seg_def dest: in_set_butlastD)

lemma path_key_plain: "\<forall>s \<in> set (path_key p). plain_seg s"
proof -
  have "\<forall>w \<in> set ws. CHR ''/'' \<notin> set w \<Longrightarrow> \<forall>s \<in> set acc. plain_seg s \<Longrightarrow>
      \<forall>s \<in> set (foldl norm_step acc ws). plain_seg s" for ws acc
  proof (induction ws arbitrary: acc)
    case (Cons w ws)
    then have "\<forall>s \<in> set (norm_step acc w). plain_seg s" by (intro norm_step_plain) auto
    with Cons show ?case by simp
  qed simp
  from this [of "split_on CHR ''/'' p" "[]"] show ?thesis
    using split_on_parts by (simp add: path_key_def)
qed

lemma path_key_path_join [simp]: "path_key (path_join ps) = path_key (join ''/'' ps)"
  by (simp add: path_join_def path_key_key_path path_key_plain)

lemma split_key_path:
  "\<forall>s \<in> set ks. plain_seg s \<Longrightarrow> ks \<noteq> [] \<Longrightarrow> split_on CHR ''/'' (key_path ks) = [] # ks"
  using split_on_join [of ks "CHR ''/''"] by (auto simp: key_path_def plain_seg_def)

lemma path_basename_key_path:
  assumes "\<forall>s \<in> set (ks @ [w]). plain_seg s" shows "path_basename (key_path (ks @ [w])) = w"
proof -
  have "filter (\<lambda>w. w \<noteq> []) (ks @ [w]) = ks @ [w]"
    using assms by (subst filter_id_conv) (auto simp: plain_seg_def)
  moreover obtain x xs where "ks @ [w] = x # xs" by (cases "ks @ [w]") auto
  ultimately show ?thesis
    using split_key_path [OF assms] last_snoc [of ks w] by (simp add: path_basename_def del: filter_append)
qed

lemma key_path_snoc: "ks \<noteq> [] \<Longrightarrow> key_path (ks @ [w]) = key_path ks @ ''/'' @ w"
  by (induction ks rule: induct_list012) (auto simp: key_path_def)

lemma last_key_path: "\<forall>s \<in> set ks. plain_seg s \<Longrightarrow> ks \<noteq> [] \<Longrightarrow> last (key_path ks) \<noteq> CHR ''/''"
proof (induction ks rule: rev_induct)
  case (snoc w ks)
  then have w: "w \<noteq> []" "CHR ''/'' \<notin> set w" by (auto simp: plain_seg_def)
  then have "last w \<noteq> CHR ''/''" using last_in_set by metis
  then show ?case using w by (cases "ks = []") (simp add: key_path_def, simp add: key_path_snoc)
qed simp

lemma dropWhile_other: "w \<noteq> [] \<Longrightarrow> c \<notin> set w \<Longrightarrow> dropWhile (\<lambda>x. x = c) (w @ t) = w @ t"
  by (cases w) auto

lemma path_dirname_key_path:
  assumes "\<forall>s \<in> set (ks @ [w]). plain_seg s" shows "path_dirname (key_path (ks @ [w])) = key_path ks"
proof -
  have w: "rev w \<noteq> []" "CHR ''/'' \<notin> set (rev w)" using assms by (auto simp: plain_seg_def)
  define top where "top = (if ks = [] then [] else key_path ks)"
  have p: "key_path (ks @ [w]) = top @ ''/'' @ w"
    by (simp add: top_def key_path_snoc) (simp add: key_path_def)
  have strip: "dropWhile (\<lambda>c. c = CHR ''/'') (rev top) = rev top"
  proof (cases "top = []")
    case False
    then have "last top \<noteq> CHR ''/''" using last_key_path assms by (auto simp: top_def split: if_splits)
    then show ?thesis using False by (cases top rule: rev_cases) auto
  qed simp
  have d: "dropWhile (\<lambda>c. c \<noteq> CHR ''/'') (rev w @ CHR ''/'' # rev top) = CHR ''/'' # rev top"
    using w(2) by (subst dropWhile_append2) auto
  have "dropWhile (\<lambda>c. c = CHR ''/'') (dropWhile (\<lambda>c. c \<noteq> CHR ''/'')
      (dropWhile (\<lambda>c. c = CHR ''/'') (rev (key_path (ks @ [w]))))) = rev top"
    using dropWhile_other [OF w] d strip by (simp add: p)
  then have "path_dirname (key_path (ks @ [w])) = (if rev top \<noteq> [] then rev (rev top) else ''/'')"
    unfolding path_dirname_def Let_def by (simp add: key_path_def)
  also have "\<dots> = key_path ks" by (simp add: top_def key_path_def)
  finally show ?thesis .
qed

end
