(* ===== verification/Effects.thy ===== *)
theory Effects
  imports FileSystem
begin

text \<open>
  The effects of the code's asynchronous methods. An action runs in a state that holds the state of
  the external services (\<open>world\<close>, of any type), the host's file system, the lines written to the
  two loggers and the calls made to the APM agent, and ends with a thrown value or a result; what
  it did to the state before throwing stays done. \<open>await\<close> is sequencing. The package's classes all
  follow one idiom, a library call in a \<open>try\<close> whose \<open>catch\<close> wraps, logs, reports and rethrows; the
  locale \<open>wrapped_call\<close> is its contract.
\<close>

subsection \<open>State and actions\<close>

datatype sink = AppLogger | TxnLogger | ApmLogger | Console

datatype level = LLog | LError

text \<open>A call \<open>logger.log(text, ...args)\<close> or \<open>logger.error(text, ...args)\<close>.\<close>

datatype log_entry = Log_line sink level string "jv list"

text \<open>
  The calls on the agent: captured errors, labels of the current transaction, and the life of a span or of
  a transaction that the code started itself.
\<close>

datatype apm_event =
    Captured exn
  | Set_label string jv
  | Span_start string jv
  | Span_target string string
  | Span_type string
  | Span_label string jv
  | Span_outcome string
  | Span_end
  | Transaction_start string string jv
  | Transaction_label string jv
  | Transaction_end

record 'w rt =
  world :: 'w
  files :: fs
  log_lines :: "log_entry list"
  apm_events :: "apm_event list"

type_synonym ('w, 'a) act = "'w rt \<Rightarrow> (exn + 'a) \<times> 'w rt"

text \<open>An operation of a library or a service, on its own state only.\<close>

type_synonym ('w, 'a) call = "'w \<Rightarrow> (exn + 'a) \<times> 'w"

text \<open>
  The agent a service was given: whether there is one, and the ids of its current transaction
  (\<open>None\<close> when none is open).
\<close>

record apm_conf =
  apm_on :: bool
  apm_txn :: "jv option"

definition returning :: "'a \<Rightarrow> ('w, 'a) act" where
  "returning a s = (Inr a, s)"

definition raise :: "exn \<Rightarrow> ('w, 'a) act" where
  "raise e s = (Inl e, s)"

definition andThen :: "('w, 'a) act \<Rightarrow> ('a \<Rightarrow> ('w, 'b) act) \<Rightarrow> ('w, 'b) act" where
  "andThen m f s = (case m s of (Inl e, s') \<Rightarrow> (Inl e, s') | (Inr a, s') \<Rightarrow> f a s')"

definition thenDo :: "('w, 'a) act \<Rightarrow> ('w, 'b) act \<Rightarrow> ('w, 'b) act" where
  "thenDo m n = andThen m (\<lambda>_. n)"

text \<open>\<open>try m catch (e) h(e)\<close>, and \<open>try m finally f\<close>.\<close>

definition tryCatch :: "('w, 'a) act \<Rightarrow> (exn \<Rightarrow> ('w, 'a) act) \<Rightarrow> ('w, 'a) act" where
  "tryCatch m h s = (case m s of (Inl e, s') \<Rightarrow> h e s' | (Inr a, s') \<Rightarrow> (Inr a, s'))"

definition tryFinally :: "('w, 'a) act \<Rightarrow> ('w, unit) act \<Rightarrow> ('w, 'a) act" where
  "tryFinally m f s =
    (case m s of (r, s') \<Rightarrow> (case f s' of (Inl e, s'') \<Rightarrow> (Inl e, s'') | (Inr _, s'') \<Rightarrow> (r, s'')))"

text \<open>An action whose exception becomes its result, for a \<open>try\<close> whose handler goes on.\<close>

definition attempt :: "('w, 'a) act \<Rightarrow> ('w, exn + 'a) act" where
  "attempt m s = (case m s of (r, s') \<Rightarrow> (Inr r, s'))"

definition external :: "('w, 'a) call \<Rightarrow> ('w, 'a) act" where
  "external c s = (case c (world s) of (r, w) \<Rightarrow> (r, s\<lparr>world := w\<rparr>))"

definition on_files :: "(fs \<Rightarrow> (exn + 'a) \<times> fs) \<Rightarrow> ('w, 'a) act" where
  "on_files c s = (case c (files s) of (r, f) \<Rightarrow> (r, s\<lparr>files := f\<rparr>))"

text \<open>A computation that may throw but has no other effect.\<close>

definition pure_result :: "exn + 'a \<Rightarrow> ('w, 'a) act" where
  "pure_result r s = (r, s)"

definition log_to :: "sink \<Rightarrow> level \<Rightarrow> string \<Rightarrow> jv list \<Rightarrow> ('w, unit) act" where
  "log_to k l t vs s = (Inr (), s\<lparr>log_lines := log_lines s @ [Log_line k l t vs]\<rparr>)"

text \<open>\<open>this.apm?.captureError(e)\<close> and \<open>this.apm?.currentTransaction?.setLabel(k, v)\<close>.\<close>

definition capture_error :: "apm_conf \<Rightarrow> exn \<Rightarrow> ('w, unit) act" where
  "capture_error A e s =
    (Inr (), if apm_on A then s\<lparr>apm_events := apm_events s @ [Captured e]\<rparr> else s)"

definition set_label :: "apm_conf \<Rightarrow> string \<Rightarrow> jv \<Rightarrow> ('w, unit) act" where
  "set_label A k v s =
    (Inr (), if apm_on A \<and> apm_txn A \<noteq> None
             then s\<lparr>apm_events := apm_events s @ [Set_label k v]\<rparr> else s)"

text \<open>A loop over the elements of an array whose body is awaited.\<close>

fun for_each :: "('a \<Rightarrow> ('w, unit) act) \<Rightarrow> 'a list \<Rightarrow> ('w, unit) act" where
  "for_each f [] = returning ()"
| "for_each f (x # xs) = thenDo (f x) (for_each f xs)"

text \<open>\<open>Promise.all\<close>: every call is made; the first that fails, in the order of the list, is the failure.\<close>

fun all_calls :: "('x \<Rightarrow> ('w, unit) call) \<Rightarrow> 'x list \<Rightarrow> ('w, unit) call" where
  "all_calls c [] w = (Inr (), w)"
| "all_calls c (x # xs) w =
     (case c x w of (r, w1) \<Rightarrow>
       (case all_calls c xs w1 of (r', w2) \<Rightarrow> (case r of Inl e \<Rightarrow> Inl e | Inr _ \<Rightarrow> r', w2)))"

text \<open>
  The two statements that open nearly every \<open>catch\<close> block:
  \<open>logger.error(err.message); apm?.captureError(err)\<close>.
\<close>

definition exn_text :: "exn \<Rightarrow> string" where
  "exn_text e = jv_string (exn_get e ''message'')"

definition report :: "sink \<Rightarrow> apm_conf \<Rightarrow> exn \<Rightarrow> ('w, unit) act" where
  "report k A e = thenDo (log_to k LError (exn_text e) []) (capture_error A e)"

subsection \<open>Evaluation rules\<close>

lemma andThen_Inr: "m s = (Inr a, s') \<Longrightarrow> andThen m f s = f a s'"
  by (simp add: andThen_def)

lemma andThen_Inl: "m s = (Inl e, s') \<Longrightarrow> andThen m f s = (Inl e, s')"
  by (simp add: andThen_def)

lemma thenDo_Inr: "m s = (Inr a, s') \<Longrightarrow> thenDo m n s = n s'"
  by (simp add: thenDo_def andThen_def)

lemma thenDo_Inl: "m s = (Inl e, s') \<Longrightarrow> thenDo m n s = (Inl e, s')"
  by (simp add: thenDo_def andThen_def)

lemma tryCatch_Inr: "m s = (Inr a, s') \<Longrightarrow> tryCatch m h s = (Inr a, s')"
  by (simp add: tryCatch_def)

lemma tryCatch_Inl: "m s = (Inl e, s') \<Longrightarrow> tryCatch m h s = h e s'"
  by (simp add: tryCatch_def)

lemma external_eq: "c (world s) = (r, w) \<Longrightarrow> external c s = (r, s\<lparr>world := w\<rparr>)"
  by (simp add: external_def)

lemma on_files_eq: "c (files s) = (r, f) \<Longrightarrow> on_files c s = (r, s\<lparr>files := f\<rparr>)"
  by (simp add: on_files_def)

lemmas act_defs = andThen_def thenDo_def tryCatch_def tryFinally_def returning_def raise_def
  external_def on_files_def pure_result_def log_to_def capture_error_def set_label_def report_def

lemma thenDo_log [act_simps]:
  "thenDo (log_to k l t vs) n s = n (s\<lparr>log_lines := log_lines s @ [Log_line k l t vs]\<rparr>)"
  by (simp add: thenDo_def andThen_def log_to_def)

lemma thenDo_returning [act_simps]: "thenDo (returning a) n s = n s"
  by (simp add: thenDo_def andThen_def returning_def)

lemma thenDo_capture [act_simps]:
  "thenDo (capture_error A e) n s =
    n (if apm_on A then s\<lparr>apm_events := apm_events s @ [Captured e]\<rparr> else s)"
  by (simp add: thenDo_def andThen_def capture_error_def)

lemma thenDo_label [act_simps]:
  "thenDo (set_label A k v) n s =
    n (if apm_on A \<and> apm_txn A \<noteq> None then s\<lparr>apm_events := apm_events s @ [Set_label k v]\<rparr> else s)"
  by (simp add: thenDo_def andThen_def set_label_def)

lemma returning_eq [act_simps]: "returning a s = (Inr a, s)"
  by (simp add: returning_def)

lemma raise_eq [act_simps]: "raise e s = (Inl e, s)"
  by (simp add: raise_def)

text \<open>The state after a report: one more error line, and a captured error when there is an agent.\<close>

definition reported :: "sink \<Rightarrow> apm_conf \<Rightarrow> exn \<Rightarrow> 'w rt \<Rightarrow> 'w rt" where
  "reported k A e s =
    s\<lparr>log_lines := log_lines s @ [Log_line k LError (exn_text e) []],
      apm_events := apm_events s @ (if apm_on A then [Captured e] else [])\<rparr>"

lemma thenDo_report [act_simps]: "thenDo (report k A e) n s = n (reported k A e s)"
  by (simp add: report_def act_defs reported_def)

lemma report_eq [act_simps]: "report k A e s = (Inr (), reported k A e s)"
  by (simp add: report_def act_defs reported_def)

lemma reported_sel [simp]:
  "world (reported k A e s) = world s"
  "files (reported k A e s) = files s"
  by (simp_all add: reported_def)

lemma thenDo_assoc: "thenDo (thenDo a b) c = thenDo a (thenDo b c)"
  by (rule ext) (simp add: thenDo_def andThen_def split: prod.splits sum.splits)

text \<open>How an action that returned a result got there.\<close>

lemma andThen_result: "andThen m f s = (Inr b, s') \<longleftrightarrow> (\<exists>a s1. m s = (Inr a, s1) \<and> f a s1 = (Inr b, s'))"
  by (auto simp: andThen_def split: prod.splits sum.splits)

lemma thenDo_result: "thenDo m n s = (Inr b, s') \<longleftrightarrow> (\<exists>a s1. m s = (Inr a, s1) \<and> n s1 = (Inr b, s'))"
  by (simp add: thenDo_def andThen_result)

lemma tryCatch_result:
  "tryCatch m h s = (Inr b, s') \<longleftrightarrow>
    m s = (Inr b, s') \<or> (\<exists>e s1. m s = (Inl e, s1) \<and> h e s1 = (Inr b, s'))"
  by (auto simp: tryCatch_def split: prod.splits sum.splits)

lemma external_result: "external c s = (r, s') \<longleftrightarrow> (\<exists>w. c (world s) = (r, w) \<and> s' = s\<lparr>world := w\<rparr>)"
  by (auto simp: external_def split: prod.splits)

lemma on_files_result: "on_files c s = (r, s') \<longleftrightarrow> (\<exists>f. c (files s) = (r, f) \<and> s' = s\<lparr>files := f\<rparr>)"
  by (auto simp: on_files_def split: prod.splits)

lemma log_result: "log_to k l t vs s = (r, s') \<longleftrightarrow>
    r = Inr () \<and> s' = s\<lparr>log_lines := log_lines s @ [Log_line k l t vs]\<rparr>"
  by (auto simp: log_to_def)

lemmas result_simps = andThen_result thenDo_result tryCatch_result external_result on_files_result
  log_result returning_eq raise_eq pure_result_def

subsection \<open>Actions that leave a component of the state alone\<close>

text \<open>An action keeps an observation of the state whatever its outcome.\<close>

definition keeps :: "('w rt \<Rightarrow> 'o) \<Rightarrow> ('w, 'a) act \<Rightarrow> bool" where
  "keeps obs m \<longleftrightarrow> (\<forall>s. obs (snd (m s)) = obs s)"

lemma keepsD: "keeps obs m \<Longrightarrow> m s = (r, s') \<Longrightarrow> obs s' = obs s"
  by (metis keeps_def snd_conv)

lemma keeps_andThen: "keeps obs m \<Longrightarrow> (\<And>a. keeps obs (f a)) \<Longrightarrow> keeps obs (andThen m f)"
  by (simp add: keeps_def andThen_def split: prod.splits sum.splits) (metis snd_conv)

lemma keeps_thenDo: "keeps obs m \<Longrightarrow> keeps obs n \<Longrightarrow> keeps obs (thenDo m n)"
  by (simp add: thenDo_def keeps_andThen)

lemma keeps_tryCatch: "keeps obs m \<Longrightarrow> (\<And>e. keeps obs (h e)) \<Longrightarrow> keeps obs (tryCatch m h)"
  by (simp add: keeps_def tryCatch_def split: prod.splits sum.splits) (metis snd_conv)

lemma keeps_returning: "keeps obs (returning a)"
  by (simp add: keeps_def returning_def)

lemma keeps_raise: "keeps obs (raise e)"
  by (simp add: keeps_def raise_def)

lemma keeps_pure: "keeps obs (pure_result r)"
  by (simp add: keeps_def pure_result_def)

lemma keeps_for_each: "(\<And>x. keeps obs (f x)) \<Longrightarrow> keeps obs (for_each f xs)"
  by (induction xs) (auto intro: keeps_returning keeps_thenDo)

lemma keeps_log: "keeps world (log_to k l t vs)" "keeps files (log_to k l t vs)"
  by (simp_all add: keeps_def log_to_def)

lemma keeps_report: "keeps world (report k A e)" "keeps files (report k A e)"
  by (simp_all add: keeps_def report_eq)

lemma keeps_label: "keeps world (set_label A k v)" "keeps files (set_label A k v)"
  by (simp_all add: keeps_def set_label_def)

lemma keeps_capture: "keeps world (capture_error A e)" "keeps files (capture_error A e)"
  by (simp_all add: keeps_def capture_error_def)

lemma keeps_external_files: "keeps files (external c)"
  by (simp add: keeps_def external_def split: prod.splits)

lemma keeps_on_files_world: "keeps world (on_files c)"
  by (simp add: keeps_def on_files_def split: prod.splits)

lemmas keeps_intros = keeps_andThen keeps_thenDo keeps_tryCatch keeps_returning keeps_raise
  keeps_pure keeps_for_each keeps_log keeps_report keeps_label keeps_capture
  keeps_external_files keeps_on_files_world

subsection \<open>The contract of a wrapped library call\<close>

text \<open>
  \<open>op\<close> makes the library call \<open>call\<close> on argument \<open>x\<close>. When it succeeds, \<open>op\<close> returns a value made
  from the call's result; when it throws \<open>e\<close>, \<open>op\<close> throws \<open>mk x e\<close> after reporting it. Either
  way the external state is what the call left, and nothing else but the logs has changed.
\<close>

locale wrapped_call =
  fixes op :: "'x \<Rightarrow> ('w, 'b) act"
    and call :: "'x \<Rightarrow> ('w, 'a) call"
    and res :: "'x \<Rightarrow> 'a \<Rightarrow> 'b"
    and mk :: "'x \<Rightarrow> exn \<Rightarrow> exn"
    and sk :: sink
    and A :: apm_conf
    and before :: "'x \<Rightarrow> 'w rt \<Rightarrow> 'w rt"
    and after :: "'x \<Rightarrow> 'a \<Rightarrow> 'w rt \<Rightarrow> 'w rt"
  assumes op_success: "call x (world s) = (Inr a, w) \<Longrightarrow>
      op x s = (Inr (res x a), after x a ((before x s)\<lparr>world := w\<rparr>))"
    and op_failure: "call x (world s) = (Inl e, w) \<Longrightarrow>
      op x s = (Inl (mk x e), reported sk A (mk x e) ((before x s)\<lparr>world := w\<rparr>))"
    and before_files: "files (before x s) = files s"
    and after_frame: "world (after x a s) = world s" "files (after x a s) = files s"
begin

lemma outcome: "fst (op x s) = map_sum (mk x) (res x) (fst (call x (world s)))"
proof (cases "call x (world s)")
  case (Pair r w)
  then show ?thesis by (cases r) (simp_all add: op_success op_failure)
qed

lemma world_after: "world (snd (op x s)) = snd (call x (world s))"
proof (cases "call x (world s)")
  case (Pair r w)
  then show ?thesis by (cases r) (simp_all add: op_success op_failure after_frame)
qed

lemma files_after: "files (snd (op x s)) = files s"
proof (cases "call x (world s)")
  case (Pair r w)
  then show ?thesis by (cases r) (simp_all add: op_success op_failure after_frame before_files)
qed

lemma failure_is_reported:
  assumes "op x s = (Inl err, s')"
  shows "\<exists>e. fst (call x (world s)) = Inl e \<and> err = mk x e \<and>
      last (log_lines s') = Log_line sk LError (exn_text err) [] \<and>
      (apm_on A \<longrightarrow> last (apm_events s') = Captured err)"
proof (cases "call x (world s)")
  case (Pair r w)
  show ?thesis
  proof (cases r)
    case (Inl e)
    with Pair assms show ?thesis by (auto simp: op_failure reported_def)
  next
    case (Inr a)
    with Pair assms show ?thesis by (simp add: op_success)
  qed
qed

text \<open>Arguments handled one after the other: the world is that of the calls alone, when none of them fails.\<close>

lemma for_each_world:
  assumes "\<And>x w. x \<in> set xs \<Longrightarrow> \<exists>a. fst (call x w) = Inr a"
  shows "\<exists>s'. for_each (\<lambda>x. thenDo (op x) (returning ())) xs s = (Inr (), s') \<and>
      world s' = fold (\<lambda>x w. snd (call x w)) xs (world s)"
  using assms
proof (induction xs arbitrary: s)
  case Nil
  then show ?case by (simp add: returning_def)
next
  case (Cons x xs)
  obtain a w where c: "call x (world s) = (Inr a, w)"
    using Cons.prems [of x "world s"] by (cases "call x (world s)") auto
  have "op x s = (Inr (res x a), after x a ((before x s)\<lparr>world := w\<rparr>))"
    using c by (rule op_success)
  then show ?case
    using Cons.IH [of "after x a ((before x s)\<lparr>world := w\<rparr>)"] Cons.prems c
    by (simp add: thenDo_Inr returning_def after_frame thenDo_def andThen_def)
qed

end

end
