(* ===== verification/ImageProcessor.thy ===== *)
theory ImageProcessor
  imports CsvEntity RequestRepository Effects
begin

text \<open>
  \<open>app/src/modules/image-processing/processors/image.processor.ts\<close>: download, conversion and
  upload of one image, the loops over the products of a request, and the two ways a request ends.
  The state of the outside world is a pair, the database's state and that of everything the HTTP
  client, the uuid generator reach. The mongoose model, the HTTP client, uuid, mime and sharp are
  parameters.
\<close>

subsection \<open>The libraries\<close>

text \<open>A response with \<open>responseType: 'stream'\<close>: its content type, its bytes and the error that ends it.\<close>

record http_stream =
  hs_content_type :: "string option"
  hs_body :: bytes
  hs_failure :: "exn option"

record upload_body =
  ub_message :: string
  ub_committer :: "string \<times> string"
  ub_branch :: string
  ub_content :: string

record upload_response =
  ur_download_url :: string

type_synonym headers = "(string \<times> string) list"

record 'h net_lib =
  net_get :: "string \<Rightarrow> 'h \<Rightarrow> (exn + http_stream) \<times> 'h"
  net_put :: "string \<Rightarrow> upload_body \<Rightarrow> headers \<Rightarrow> 'h \<Rightarrow> (exn + upload_response) \<times> 'h"
  net_post :: "string \<Rightarrow> string \<Rightarrow> headers \<Rightarrow> 'h \<Rightarrow> (exn + unit) \<times> 'h"
  net_uuid :: "'h \<Rightarrow> string \<times> 'h"

text \<open>
  sharp: the format it finds in a file (\<open>None\<close> for no such file), whether an image has a method of
  that name, the encoding at quality 50, and the error it makes of a failed write.
\<close>

record sharp_lib =
  sh_metadata :: "bytes option \<Rightarrow> exn + string option"
  sh_has_method :: "string \<Rightarrow> bool"
  sh_encode :: "string \<Rightarrow> bytes option \<Rightarrow> exn + bytes"
  sh_write_error :: "exn \<Rightarrow> exn"

record ('d, 'h) image_processor =
  ip_model :: "'d request_model"
  ip_http :: "'h net_lib"
  ip_sharp :: sharp_lib
  ip_mime_extension :: "string \<Rightarrow> string option"
  ip_tmpdir :: string
  ip_base_url :: string
  ip_author :: string
  ip_email :: string
  ip_branch :: string
  ip_token :: string

record processing_request =
  pr_requestId :: string
  pr_webhookUrl :: string
  pr_products :: "csv_product js_object"

definition on_db :: "('d \<Rightarrow> (exn + 'a) \<times> 'd) \<Rightarrow> ('d \<times> 'h, 'a) act" where
  "on_db c = external (\<lambda>(d, h). case c d of (r, d') \<Rightarrow> (r, (d', h)))"

definition on_net :: "('h \<Rightarrow> (exn + 'a) \<times> 'h) \<Rightarrow> ('d \<times> 'h, 'a) act" where
  "on_net c = external (\<lambda>(d, h). case c h of (r, h') \<Rightarrow> (r, (d, h')))"

subsection \<open>One image\<close>

definition temp_dir :: "('d, 'h) image_processor \<Rightarrow> string \<Rightarrow> string" where
  "temp_dir P requestId = path_join [ip_tmpdir P, ''image-processing'', requestId]"

definition get_file_name ::
  "('d, 'h) image_processor \<Rightarrow> string \<Rightarrow> string \<Rightarrow> ('d \<times> 'h, string) act" where
  "get_file_name P url contentType =
    (let ext = (case ip_mime_extension P contentType of Some x \<Rightarrow> x | None \<Rightarrow> ''bin'')
     in andThen (on_net (\<lambda>h. case net_uuid (ip_http P) h of (u, h') \<Rightarrow> (Inr u, h')))
          (\<lambda>uuid. returning (uuid @ ''.'' @ ext)))"

definition download_image ::
  "('d, 'h) image_processor \<Rightarrow> string \<Rightarrow> string \<Rightarrow> ('d \<times> 'h, string) act" where
  "download_image P requestId url =
    andThen (on_net (net_get (ip_http P) url)) (\<lambda>data.
      let dirPath = temp_dir P requestId
      in thenDo (on_files (fs_mkdir dirPath))
          (andThen (get_file_name P url
                     (case hs_content_type data of Some t \<Rightarrow> t | None \<Rightarrow> ''application/octet-stream''))
            (\<lambda>fileName.
              let filePath = path_join [dirPath, fileName]
              in thenDo (on_files (fs_write_stream filePath (hs_body data) (hs_failure data)))
                  (returning filePath))))"

text \<open>\<open>e?.message ?? e\<close> in a template literal.\<close>

definition message_or_self :: "exn \<Rightarrow> string" where
  "message_or_self e =
    (let m = exn_get e ''message'' in if nullish m then exn_string e else jv_string m)"

text \<open>\<open>`${p.split('.').slice(0, -1)}`\<close>: the array of the parts but the last, rendered with commas.\<close>

definition drop_extension :: "string \<Rightarrow> string" where
  "drop_extension p = join '','' (butlast (split_on CHR ''.'' p))"

definition file_content :: "string \<Rightarrow> ('w, bytes option) act" where
  "file_content p s = (Inr (file_at (files s) (path_key p)), s)"

text \<open>\<open>image[format]({ quality: 50 }).toFile(p)\<close>.\<close>

definition encode_to_file ::
  "('d, 'h) image_processor \<Rightarrow> string \<Rightarrow> bytes option \<Rightarrow> string \<Rightarrow> ('w, unit) act" where
  "encode_to_file P format input p =
    andThen (pure_result (sh_encode (ip_sharp P) format input)) (\<lambda>content.
      tryCatch (on_files (fs_write_stream p content None))
        (\<lambda>e. raise (sh_write_error (ip_sharp P) e)))"

definition convert_image_quality ::
  "('d, 'h) image_processor \<Rightarrow> string \<Rightarrow> ('w, string) act" where
  "convert_image_quality P filePath =
    tryCatch
      (andThen (file_content filePath) (\<lambda>input.
        andThen (pure_result (sh_metadata (ip_sharp P) input)) (\<lambda>format.
          case format of
            None \<Rightarrow> raise (new_Error ''Cannot determine image format.'')
          | Some fmt \<Rightarrow>
              if fmt = [] then raise (new_Error ''Cannot determine image format.'')
              else let outputDirPath = path_join [path_dirname filePath, ''processed''];
                       outputFilePath =
                         path_join [outputDirPath, drop_extension (path_basename filePath) @ ''.'' @ fmt]
                   in thenDo (on_files (fs_mkdir outputDirPath))
                       (if sh_has_method (ip_sharp P) fmt
                        then thenDo (encode_to_file P fmt input outputFilePath)
                               (returning outputFilePath)
                        else let pngPath = drop_extension outputFilePath @ ''.png''
                             in thenDo (encode_to_file P ''png'' input pngPath) (returning pngPath)))))
      (\<lambda>e. raise (new_Error (''Failed to convert image quality: '' @ message_or_self e)))"

definition upload_url :: "('d, 'h) image_processor \<Rightarrow> string \<Rightarrow> string \<Rightarrow> string \<Rightarrow> string" where
  "upload_url P requestId productName filePath =
    ip_base_url P @ ''/'' @ requestId @ ''/'' @ productName @ ''/'' @ path_basename filePath"

definition upload_request ::
  "('d, 'h) image_processor \<Rightarrow> string \<Rightarrow> string \<Rightarrow> string \<Rightarrow> bytes \<Rightarrow> upload_body" where
  "upload_request P productName imageUrl filePath file =
    \<lparr>ub_message = ''Uploading file '' @ path_basename filePath @ [CHR 0x0A] @ ''Product: '' @ productName @
       [CHR 0x0A] @ ''Image URL: '' @ imageUrl,
     ub_committer = (ip_author P, ip_email P),
     ub_branch = ip_branch P,
     ub_content = base64 file\<rparr>"

definition upload_file ::
  "('d, 'h) image_processor \<Rightarrow> string \<Rightarrow> string \<Rightarrow> string \<Rightarrow> string \<Rightarrow> ('d \<times> 'h, string) act" where
  "upload_file P requestId productName imageUrl filePath =
    andThen (on_files (fs_read filePath)) (\<lambda>file.
      andThen
        (on_net (net_put (ip_http P) (upload_url P requestId productName filePath)
          (upload_request P productName imageUrl filePath file)
          [(''Authorization'', ''Bearer '' @ ip_token P)]))
        (\<lambda>data. returning (ur_download_url data)))"

definition delete_file :: "string \<Rightarrow> ('w, unit) act" where
  "delete_file filePath = on_files (fs_unlink filePath)"

definition delete_directory :: "string \<Rightarrow> ('w, unit) act" where
  "delete_directory dirPath = on_files (fs_rmdir dirPath)"

definition process_image ::
  "('d, 'h) image_processor \<Rightarrow> string \<Rightarrow> string \<Rightarrow> string \<Rightarrow> ('d \<times> 'h, string) act" where
  "process_image P requestId productName url =
    andThen (download_image P requestId url) (\<lambda>filePath.
      andThen (convert_image_quality P filePath) (\<lambda>outputFilePath.
        thenDo (delete_file filePath)
          (andThen (upload_file P requestId productName url outputFilePath) (\<lambda>outputUrl.
            thenDo (delete_file outputFilePath) (returning outputUrl)))))"

subsection \<open>A request\<close>

definition update_request_processing_status ::
  "('d, 'h) image_processor \<Rightarrow> string \<Rightarrow> ('d \<times> 'h, request_doc) act" where
  "update_request_processing_status P requestId =
    on_db (update_status (ip_model P) requestId PROCESSING (status_message PROCESSING))"

text \<open>The products as they are handed to the repository.\<close>

definition output_doc :: "csv_product_output \<Rightarrow> product_doc" where
  "output_doc p =
    \<lparr>pd_name = name p, pd_inputImageUrls = inputImageUrls p, pd_outputImageUrls = Some (outputImageUrls p)\<rparr>"

definition output_docs :: "csv_product_output js_object \<Rightarrow> product_doc js_object" where
  "output_docs ps = map (\<lambda>(k, p). (k, output_doc p)) ps"

definition update_request_success_status ::
  "('d, 'h) image_processor \<Rightarrow> string \<Rightarrow> csv_product_output js_object \<Rightarrow> ('d \<times> 'h, request_doc) act" where
  "update_request_success_status P requestId ps =
    on_db (update_request (ip_model P) requestId
      \<lparr>up_status = Some SUCCEEDED, up_message = Some (status_message SUCCEEDED),
       up_products = Some (output_docs ps)\<rparr>)"

definition call_webhook ::
  "('d, 'h) image_processor \<Rightarrow> string \<Rightarrow> string \<Rightarrow> string \<Rightarrow> ('d \<times> 'h, unit) act" where
  "call_webhook P requestId csv webhookUrl =
    thenDo (log_to Console LLog webhookUrl [JStr ''Webhook URL''])
      (on_net (net_post (ip_http P) webhookUrl csv
        [(''Content-Type'', ''text/csv''), (''X-Request-Id'', requestId)]))"

text \<open>
  \<open>error?.response?.data?.message ?? error?.response?.error ?? error?.response?.message ??
  error?.message ?? error\<close>
\<close>

definition error_detail :: "exn \<Rightarrow> string" where
  "error_detail e =
    (let resp = exn_get e ''response'';
         v = coalesce [jv_get (jv_get resp ''data'') ''message'', jv_get resp ''error'',
                       jv_get resp ''message'', exn_get e ''message''] JUndef
     in if nullish v then exn_string e else jv_string v)"

definition image_processing_error :: "string \<Rightarrow> string \<Rightarrow> exn \<Rightarrow> exn" where
  "image_processing_error productName url e =
    new_Error (''Processing failed for product '' @ productName @ '', image '' @ url @ '': '' @ error_detail e)"

definition image_log :: "string \<Rightarrow> string \<Rightarrow> string \<Rightarrow> string \<Rightarrow> ('w, unit) act" where
  "image_log what requestId productName url =
    log_to AppLogger LLog (what @ url) [JObj [(''product'', JStr productName), (''requestId'', JStr requestId)]]"

text \<open>The loop over the urls of a product; \<open>outs\<close> is \<open>outputImageUrls\<close> of its entry so far.\<close>

fun process_urls ::
  "('d, 'h) image_processor \<Rightarrow> string \<Rightarrow> string \<Rightarrow> csv_product \<Rightarrow> string list \<Rightarrow> string list \<Rightarrow>
   ('d \<times> 'h, string list) act" where
  "process_urls P requestId productName product outs [] = returning outs"
| "process_urls P requestId productName product outs (url # urls) =
     thenDo (image_log ''Processing image '' requestId (name product) url)
      (andThen
        (tryCatch (process_image P requestId productName url)
          (\<lambda>e. raise (image_processing_error productName url e)))
        (\<lambda>fileUrl.
          thenDo (image_log ''Processing completed for image '' requestId (name product) url)
            (process_urls P requestId productName product (outs @ [fileUrl]) urls)))"

text \<open>\<open>{ ...product, outputImageUrls: outs }\<close>\<close>

definition with_outputs :: "csv_product \<Rightarrow> string list \<Rightarrow> csv_product_output" where
  "with_outputs product outs =
    \<lparr>name = name product, inputImageUrls = inputImageUrls product, outputImageUrls = outs\<rparr>"

text \<open>
  The loop over the entries of the request's products. Assigning to the property \<open>__proto__\<close> sets
  the dictionary's prototype and adds no entry.
\<close>

fun process_products ::
  "('d, 'h) image_processor \<Rightarrow> string \<Rightarrow> csv_product_output js_object \<Rightarrow> csv_product js_object \<Rightarrow>
   ('d \<times> 'h, csv_product_output js_object) act" where
  "process_products P requestId processed [] = returning processed"
| "process_products P requestId processed ((productName, product) # ps) =
     andThen (process_urls P requestId productName product [] (inputImageUrls product)) (\<lambda>outs.
       process_products P requestId (assign_entry productName (with_outputs product outs) processed) ps)"

definition failure_message :: "exn \<Rightarrow> string" where
  "failure_message e =
    (if instance_of e C_Error then status_message FAILED @ '': '' @ jv_string (exn_get e ''message'')
     else status_message FAILED @ '': '' @ exn_string e)"

definition handle_error ::
  "('d, 'h) image_processor \<Rightarrow> string \<Rightarrow> exn \<Rightarrow> ('d \<times> 'h, unit) act" where
  "handle_error P requestId e =
    (let msg = failure_message e
     in thenDo (delete_directory (temp_dir P requestId))
         (thenDo (log_to AppLogger LError (''Processing failed for request '' @ requestId @ '': '' @ msg)
                    [JStr requestId])
           (thenDo (on_db (update_status (ip_model P) requestId FAILED msg)) (returning ()))))"

definition process_body ::
  "('d, 'h) image_processor \<Rightarrow> processing_request \<Rightarrow> ('d \<times> 'h, unit) act" where
  "process_body P request =
    (let requestId = pr_requestId request
     in thenDo (log_to AppLogger LLog (''Processing for request '' @ requestId) [JStr requestId])
         (thenDo (update_request_processing_status P requestId)
           (andThen (process_products P requestId [] (pr_products request)) (\<lambda>processed.
             thenDo (delete_directory (temp_dir P requestId))
              (thenDo (update_request_success_status P requestId processed)
                (thenDo (call_webhook P requestId (build_csv processed) (pr_webhookUrl request))
                  (log_to AppLogger LLog (''Processing completed for request '' @ requestId)
                    [JStr requestId])))))))"

definition process :: "('d, 'h) image_processor \<Rightarrow> processing_request \<Rightarrow> ('d \<times> 'h, unit) act" where
  "process P request = tryCatch (process_body P request) (handle_error P (pr_requestId request))"

end
