(* ===== verification/Processing.thy ===== *)
theory Processing
  imports ImageProcessor
begin

text \<open>
  How a request is processed: what a returning call of \<open>process\<close> leaves in the database and on
  disk, that the first failing image ends the work, and the ways \<open>process\<close> itself rejects and
  leaves the request without a final status.
\<close>

subsection \<open>What the steps leave alone\<close>

definition db_of :: "('d \<times> 'h) rt \<Rightarrow> 'd" where
  "db_of s = fst (world s)"

lemma keeps_db_base:
  "keeps db_of (log_to k l t vs)" "keeps db_of (on_files c)" "keeps db_of (on_net n)"
  "keeps db_of (file_content p)"
  by (simp_all add: keeps_def db_of_def log_to_def on_files_def on_net_def external_def file_content_def
      split: prod.splits)

lemma keeps_if: "keeps obs m \<Longrightarrow> keeps obs n \<Longrightarrow> keeps obs (if b then m else n)"
  by simp

lemmas keeps_db = keeps_db_base keeps_if keeps_andThen keeps_thenDo keeps_tryCatch keeps_returning
  keeps_raise keeps_pure

lemma keeps_db_process_image: "keeps db_of (process_image P r n u)"
proof -
  have "keeps db_of (download_image P r u)"
    unfolding download_image_def get_file_name_def Let_def by (intro keeps_db)
  moreover have "keeps db_of (convert_image_quality P p)" for p
    unfolding convert_image_quality_def encode_to_file_def Let_def
    by (intro keeps_db) (auto intro!: keeps_db split: option.split)
  moreover have "keeps db_of (upload_file P r n u p)" for p
    unfolding upload_file_def by (intro keeps_db)
  ultimately show ?thesis
    unfolding process_image_def delete_file_def by (intro keeps_db)
qed

lemma keeps_db_process_urls: "keeps db_of (process_urls P r n p outs us)"
  by (induction P r n p outs us rule: process_urls.induct)
    (auto simp: image_log_def intro!: keeps_db keeps_db_process_image)

lemma keeps_db_process_products: "keeps db_of (process_products P r done ps)"
  by (induction P r "done" ps rule: process_products.induct)
    (auto intro!: keeps_db keeps_db_process_urls)

subsection \<open>The products of a returning run\<close>

text \<open>
  \<open>produced_by P r n url out\<close>: an execution of \<open>processImage\<close> for the url has returned \<open>out\<close>.
\<close>

definition produced_by ::
  "('d, 'h) image_processor \<Rightarrow> string \<Rightarrow> string \<Rightarrow> string \<Rightarrow> string \<Rightarrow> bool" where
  "produced_by P r n url out \<longleftrightarrow> (\<exists>s s'. process_image P r n url s = (Inr out, s'))"

definition completed_entry ::
  "('d, 'h) image_processor \<Rightarrow> string \<Rightarrow> string \<times> csv_product \<Rightarrow> string \<times> csv_product_output \<Rightarrow> bool" where
  "completed_entry P r = (\<lambda>(n, p) (n', q).
     n' = n \<and> name q = name p \<and> inputImageUrls q = inputImageUrls p \<and>
     list_all2 (produced_by P r n) (inputImageUrls p) (outputImageUrls q))"

lemma process_urls_outputs:
  "process_urls P r n p outs us s = (Inr outs', s') \<Longrightarrow>
    \<exists>new. outs' = outs @ new \<and> list_all2 (produced_by P r n) us new"
proof (induction P r n p outs us arbitrary: s rule: process_urls.induct)
  case (1 P r n p outs)
  then show ?case by (simp add: returning_eq)
next
  case (2 P r n p outs u us)
  from 2(2) obtain out s1 s2 s3 where "process_image P r n u s1 = (Inr out, s2)"
    and rest: "process_urls P r n p (outs @ [out]) us s3 = (Inr outs', s')"
    by (auto simp: result_simps image_log_def)
  then have "produced_by P r n u out" by (auto simp: produced_by_def)
  with 2(1) [OF rest] show ?case by auto
qed

lemma process_products_outputs:
  assumes "process_products P r done ps s = (Inr processed, s')"
    and "js_wf (map (\<lambda>(k, _). (k, ())) done @ map (\<lambda>(k, _). (k, ())) ps)"
    and "''__proto__'' \<notin> fst ` set ps"
  shows "\<exists>new. processed = done @ new \<and> list_all2 (completed_entry P r) ps new"
  using assms
proof (induction P r "done" ps arbitrary: s rule: process_products.induct)
  case (1 P r "done")
  then show ?case by (simp add: returning_eq)
next
  case (2 P r "done" n p ps)
  from 2(2) obtain outs s1 where o: "process_urls P r n p [] (inputImageUrls p) s = (Inr outs, s1)"
    and rest: "process_products P r (assign_entry n (with_outputs p outs) done) ps s1 = (Inr processed, s')"
    by (auto simp: result_simps)
  have "js_wf (done @ [(n, with_outputs p outs)])"
    using 2(3) js_wf_prefix [of "map (\<lambda>(k, _). (k, ())) done @ [(n, ())]"]
      js_wf_keys [of "map (\<lambda>(k, _). (k, ())) done @ [(n, ())]" "done @ [(n, with_outputs p outs)]"]
    by (simp add: comp_def split_def)
  then have e: "assign_entry n (with_outputs p outs) done = done @ [(n, with_outputs p outs)]"
    using 2(4) by (auto simp: assign_entry_def js_wf_snocD)
  have "list_all2 (produced_by P r n) (inputImageUrls p) outs"
    using process_urls_outputs [OF o] by simp
  moreover obtain new where "processed = (done @ [(n, with_outputs p outs)]) @ new"
    "list_all2 (completed_entry P r) ps new"
    using 2(1) [OF rest] 2(3,4) by (auto simp: e)
  ultimately show ?case
    by (intro exI [of _ "(n, with_outputs p outs) # new"])
      (simp add: completed_entry_def with_outputs_def)
qed

subsection \<open>What is on disk and in the database afterwards\<close>

definition no_temp_files :: "('d, 'h) image_processor \<Rightarrow> string \<Rightarrow> fs \<Rightarrow> bool" where
  "no_temp_files P r f \<longleftrightarrow>
    (\<forall>q. prefix (path_key (temp_dir P r)) q \<longrightarrow> \<not> is_dir f q \<and> file_at f q = None)"

lemma delete_directory_result:
  "delete_directory (temp_dir P r) s = (Inr (), s') \<Longrightarrow>
    no_temp_files P r (files s') \<and> world s' = world s"
  by (auto simp: delete_directory_def result_simps fs_rmdir_def Let_def no_temp_files_def split: if_splits)

lemma on_db_result:
  "on_db c s = (Inr a, s') \<longleftrightarrow>
    (\<exists>d'. c (db_of s) = (Inr a, d') \<and> s' = s\<lparr>world := (d', snd (world s))\<rparr>)"
  by (auto simp: on_db_def external_result db_of_def split: prod.splits)

lemma on_net_result:
  "on_net c s = (r, s') \<longleftrightarrow>
    (\<exists>h'. c (snd (world s)) = (r, h') \<and> s' = s\<lparr>world := (fst (world s), h')\<rparr>)"
  by (auto simp: on_net_def external_result split: prod.splits)

lemma output_docs_defaults: "map (\<lambda>(k, p). (k, product_defaults p)) (output_docs ps) = output_docs ps"
  by (simp add: output_docs_def comp_def split_def product_defaults_def output_doc_def)

subsection \<open>A returning call\<close>

definition succeeded_with ::
  "('d, 'h) image_processor \<Rightarrow> processing_request \<Rightarrow> csv_product_output js_object \<Rightarrow> request_doc \<Rightarrow> bool" where
  "succeeded_with P req processed r \<longleftrightarrow>
    rq_status r = SUCCEEDED \<and> rq_message r = status_message SUCCEEDED \<and>
    rq_products r = output_docs processed"

definition delivered_webhook ::
  "('d, 'h) image_processor \<Rightarrow> processing_request \<Rightarrow> csv_product_output js_object \<Rightarrow> 'h \<Rightarrow> bool" where
  "delivered_webhook P req processed h' \<longleftrightarrow>
    (\<exists>h. net_post (ip_http P) (pr_webhookUrl req) (build_csv processed)
      [(''Content-Type'', ''text/csv''), (''X-Request-Id'', pr_requestId req)] h = (Inr (), h'))"

text \<open>The part of the body after the loops.\<close>

definition finish ::
  "('d, 'h) image_processor \<Rightarrow> processing_request \<Rightarrow> csv_product_output js_object \<Rightarrow> ('d \<times> 'h, unit) act" where
  "finish P req processed =
    thenDo (delete_directory (temp_dir P (pr_requestId req)))
     (thenDo (update_request_success_status P (pr_requestId req) processed)
       (thenDo (call_webhook P (pr_requestId req) (build_csv processed) (pr_webhookUrl req))
         (log_to AppLogger LLog (''Processing completed for request '' @ pr_requestId req)
           [JStr (pr_requestId req)])))"

lemma process_body_finish:
  "process_body P req =
    thenDo (log_to AppLogger LLog (''Processing for request '' @ pr_requestId req) [JStr (pr_requestId req)])
     (thenDo (update_request_processing_status P (pr_requestId req))
       (andThen (process_products P (pr_requestId req) [] (pr_products req)) (finish P req)))"
  by (simp only: process_body_def finish_def [abs_def] Let_def)

lemma succeeded_apply_patch:
  "succeeded_with P req processed
    (apply_patch \<lparr>up_status = Some SUCCEEDED, up_message = Some (status_message SUCCEEDED),
      up_products = Some (output_docs processed)\<rparr> r)"
  by (simp add: succeeded_with_def apply_patch_def request_defaults_def output_docs_defaults)

lemma finish_result:
  assumes "collection_laws (ip_model P) docs" and "finish P req processed s = (Inr (), s')"
  shows "\<exists>r. docs (db_of s') = (docs (db_of s))(pr_requestId req \<mapsto> r) \<and> succeeded_with P req processed r"
    and "delivered_webhook P req processed (snd (world s'))"
    and "no_temp_files P (pr_requestId req) (files s')"
proof -
  let ?u = "\<lparr>up_status = Some SUCCEEDED, up_message = Some (status_message SUCCEEDED),
      up_products = Some (output_docs processed)\<rparr>"
  from assms(2) obtain s1 x d2 h3 where
      1: "delete_directory (temp_dir P (pr_requestId req)) s = (Inr (), s1)"
    and 2: "update_request (ip_model P) (pr_requestId req) ?u (db_of s1) = (Inr x, d2)"
    and 3: "net_post (ip_http P) (pr_webhookUrl req) (build_csv processed)
      [(''Content-Type'', ''text/csv''), (''X-Request-Id'', pr_requestId req)] (snd (world s1)) = (Inr (), h3)"
    and 4: "world s' = (d2, h3)" "files s' = files s1"
    by (auto simp: finish_def thenDo_result update_request_success_status_def on_db_result
        call_webhook_def on_net_result log_result)
  have db: "db_of s1 = db_of s" using delete_directory_result [OF 1] by (simp add: db_of_def)
  have "docs (db_of s') = (docs (db_of s))(pr_requestId req \<mapsto> apply_patch ?u x)"
    using repo.update_changes [OF assms(1) 2] 4 db by (simp add: db_of_def)
  then show "\<exists>r. docs (db_of s') = (docs (db_of s))(pr_requestId req \<mapsto> r) \<and> succeeded_with P req processed r"
    using succeeded_apply_patch by blast
  show "delivered_webhook P req processed (snd (world s'))"
    using 3 4 by (auto simp: delivered_webhook_def)
  show "no_temp_files P (pr_requestId req) (files s')"
    using delete_directory_result [OF 1] 4 by simp
qed

lemma handle_error_result:
  assumes "collection_laws (ip_model P) docs" and "handle_error P i e s = (Inr (), s')"
  shows "\<exists>r. docs (db_of s') i = Some r \<and> rq_status r = FAILED \<and> rq_message r = failure_message e"
    and "no_temp_files P i (files s')"
proof -
  from assms(2) obtain s1 x d2 where 1: "delete_directory (temp_dir P i) s = (Inr (), s1)"
    and 2: "update_status (ip_model P) i FAILED (failure_message e) (db_of s1) = (Inr x, d2)"
    and 3: "db_of s' = d2" "files s' = files s1"
    by (auto simp: handle_error_def Let_def thenDo_result log_result on_db_result returning_eq db_of_def)
  show "\<exists>r. docs (db_of s') i = Some r \<and> rq_status r = FAILED \<and> rq_message r = failure_message e"
    using repo.update_changes [OF assms(1) 2 [unfolded update_status_request]] 3
    by (auto simp: apply_patch_def request_defaults_def)
  show "no_temp_files P i (files s')" using delete_directory_result [OF 1] 3 by simp
qed

lemma process_final:
  assumes "collection_laws (ip_model P) docs" and "process P req s = (Inr (), s')"
    and "js_wf (pr_products req)" and "''__proto__'' \<notin> set (js_keys (pr_products req))"
  shows "no_temp_files P (pr_requestId req) (files s') \<and>
    (\<exists>r. docs (db_of s') (pr_requestId req) = Some r \<and>
      ((\<exists>processed. list_all2 (completed_entry P (pr_requestId req)) (pr_products req) processed \<and>
          succeeded_with P req processed r \<and> delivered_webhook P req processed (snd (world s'))) \<or>
       (\<exists>e. rq_status r = FAILED \<and> rq_message r = failure_message e)))"
proof -
  consider (ok) "process_body P req s = (Inr (), s')"
    | (failed) e s1 where "handle_error P (pr_requestId req) e s1 = (Inr (), s')"
    using assms(2) by (auto simp: process_def tryCatch_result)
  then show ?thesis
  proof cases
    case ok
    then obtain s1 processed s2 where p: "process_products P (pr_requestId req) [] (pr_products req) s1 = (Inr processed, s2)"
      and f: "finish P req processed s2 = (Inr (), s')"
      by (auto simp: process_body_finish thenDo_result andThen_result)
    have "js_wf (map (\<lambda>(k, _). (k, ())) (pr_products req))"
      using assms(3) js_wf_keys [of "map (\<lambda>(k, _). (k, ())) (pr_products req)" "pr_products req"]
      by (simp add: comp_def split_def)
    then have "list_all2 (completed_entry P (pr_requestId req)) (pr_products req) processed"
      using process_products_outputs [OF p] assms(4) by (auto simp: js_keys_def)
    moreover obtain r where "docs (db_of s') (pr_requestId req) = Some r" "succeeded_with P req processed r"
      using finish_result(1) [OF assms(1) f] by auto
    ultimately show ?thesis using finish_result(2,3) [OF assms(1) f] by blast
  next
    case failed
    then show ?thesis using handle_error_result [OF assms(1)] by blast
  qed
qed

text \<open>
  C11: When \<open>process\<close> returns, the request has a final status and no temporary file of it is left. Either
  it is Succeeded: its stored products are the requested ones in their order, each with one output url
  per input url, in order, that an execution of \<open>processImage\<close> for that url returned, and the webhook
  has accepted the output file built from them; or it is Failed, with the failure's message.
\<close>

theorem process_returns_final:
  assumes "collection_laws (ip_model P) docs" and "process P req s = (Inr (), s')"
    and "js_wf (pr_products req)" and "''__proto__'' \<notin> set (js_keys (pr_products req))"
  shows "no_temp_files P (pr_requestId req) (files s') \<and>
    (\<exists>r. docs (db_of s') (pr_requestId req) = Some r \<and>
      ((\<exists>processed. list_all2 (completed_entry P (pr_requestId req)) (pr_products req) processed \<and>
          succeeded_with P req processed r \<and> delivered_webhook P req processed (snd (world s'))) \<or>
       (\<exists>e. rq_status r = FAILED \<and> rq_message r = failure_message e)))"
  using assms by (rule process_final)

subsection \<open>The first failing image ends the work\<close>

definition image_started :: "string \<Rightarrow> csv_product \<Rightarrow> string \<Rightarrow> 'w rt \<Rightarrow> 'w rt" where
  "image_started r p u s =
    s\<lparr>log_lines := log_lines s @ [Log_line AppLogger LLog (''Processing image '' @ u)
      [JObj [(''product'', JStr (name p)), (''requestId'', JStr r)]]]\<rparr>"

lemma process_urls_fails:
  assumes "process_image P r n u (image_started r p u s) = (Inl e, s')"
  shows "process_urls P r n p outs (u # vs) s = (Inl (image_processing_error n u e), s')"
  using assms
  by (simp add: image_log_def act_simps image_started_def andThen_def tryCatch_def)

lemma process_urls_append:
  "process_urls P r n p outs us s = (Inr outs1, s1) \<Longrightarrow>
    process_urls P r n p outs (us @ vs) s = process_urls P r n p outs1 vs s1"
proof (induction P r n p outs us arbitrary: s rule: process_urls.induct)
  case (1 P r n p outs)
  then show ?case by (simp add: returning_eq)
next
  case (2 P r n p outs u us)
  from 2(2) show ?case
    by (auto simp: thenDo_def andThen_def image_log_def log_to_def 2(1) split: prod.splits sum.splits)
qed

lemma process_products_append:
  "process_products P r done ps s = (Inr done1, s1) \<Longrightarrow>
    process_products P r done (ps @ qs) s = process_products P r done1 qs s1"
  by (induction P r "done" ps arbitrary: s rule: process_products.induct)
    (auto simp: returning_eq andThen_def split: prod.splits sum.splits)

text \<open>
  C21: The first image that fails ends the processing of the request: when the products before it and
  the product's earlier urls have gone through, the loops stop with the error that names product, image and
  cause, in exactly the state the failing execution left -- no later image is fetched, converted or uploaded.
\<close>

theorem first_failing_image_stops:
  assumes "process_products P r [] ps s = (Inr done, s1)"
    and "inputImageUrls p = us @ u # vs"
    and "process_urls P r n p [] us s1 = (Inr outs, s2)"
    and "process_image P r n u (image_started r p u s2) = (Inl e, s3)"
  shows "process_products P r [] (ps @ (n, p) # qs) s = (Inl (image_processing_error n u e), s3)"
  using process_products_append [OF assms(1)] process_urls_append [OF assms(3)]
    process_urls_fails [OF assms(4)] assms(2)
  by (simp add: andThen_def)

subsection \<open>The ways a request is left without a final status\<close>

lemma handle_error_no_temp_dir:
  assumes "\<not> is_dir (files s) (path_key (temp_dir P i))" and "file_at (files s) (path_key (temp_dir P i)) = None"
  shows "handle_error P i e s = (Inl (ENOENT ''stat'' (temp_dir P i)), s)"
  using assms by (simp add: handle_error_def Let_def thenDo_def andThen_def delete_directory_def on_files_def fs_rmdir_def)

lemma process_no_temp_dir:
  assumes "process_body P req s = (Inl e, s1)"
    and "\<not> is_dir (files s1) (path_key (temp_dir P (pr_requestId req)))"
    and "file_at (files s1) (path_key (temp_dir P (pr_requestId req))) = None"
  shows "process P req s = (Inl (ENOENT ''stat'' (temp_dir P (pr_requestId req))), s1)"
  using assms handle_error_no_temp_dir by (simp add: process_def tryCatch_def)

definition request_started :: "string \<Rightarrow> 'w rt \<Rightarrow> 'w rt" where
  "request_started i s =
    s\<lparr>log_lines := log_lines s @ [Log_line AppLogger LLog (''Processing for request '' @ i) [JStr i]]\<rparr>"

lemma process_body_started:
  assumes "update_status (ip_model P) (pr_requestId req) PROCESSING (status_message PROCESSING) (db_of s) = (Inr x, d)"
  shows "process_body P req s =
    andThen (process_products P (pr_requestId req) [] (pr_products req)) (finish P req)
      ((request_started (pr_requestId req) s)\<lparr>world := (d, snd (world s))\<rparr>)"
proof -
  have "on_db (update_status (ip_model P) (pr_requestId req) PROCESSING (status_message PROCESSING))
      (request_started (pr_requestId req) s) =
      (Inr x, (request_started (pr_requestId req) s)\<lparr>world := (d, snd (world s))\<rparr>)"
    using assms by (simp add: on_db_result request_started_def db_of_def)
  then show ?thesis
    by (simp add: process_body_finish act_simps update_request_processing_status_def request_started_def
        thenDo_def [of "on_db _"] andThen_def [of "on_db _"])
qed

lemma processing_status_written:
  assumes "collection_laws (ip_model P) docs"
    and "update_status (ip_model P) i PROCESSING (status_message PROCESSING) d = (Inr x, d')"
  shows "\<exists>r. docs d' i = Some r \<and> rq_status r = PROCESSING"
  using repo.update_changes [OF assms(1) assms(2) [unfolded update_status_request]]
  by (auto simp: apply_patch_def request_defaults_def)

definition no_temp_dir :: "('d, 'h) image_processor \<Rightarrow> string \<Rightarrow> fs \<Rightarrow> bool" where
  "no_temp_dir P i f \<longleftrightarrow>
    \<not> is_dir f (path_key (temp_dir P i)) \<and> file_at f (path_key (temp_dir P i)) = None"


text \<open>
  A request without products -- what an empty file is accepted as -- ends the same way: there is no
  temporary directory to remove, \<open>process\<close> rejects and the request stays Processing.
\<close>

theorem empty_request_is_lost:
  assumes "collection_laws (ip_model P) docs"
    and "update_status (ip_model P) (pr_requestId req) PROCESSING (status_message PROCESSING) (db_of s) = (Inr x, d)"
    and "no_temp_dir P (pr_requestId req) (files s)" and "pr_products req = []"
  shows "\<exists>s'. process P req s = (Inl (ENOENT ''stat'' (temp_dir P (pr_requestId req))), s') \<and>
    (\<exists>r. docs (db_of s') (pr_requestId req) = Some r \<and> rq_status r = PROCESSING)"
proof -
  let ?i = "pr_requestId req"
  let ?s1 = "(request_started ?i s)\<lparr>world := (d, snd (world s))\<rparr>"
  have "process_body P req s = (Inl (ENOENT ''stat'' (temp_dir P ?i)), ?s1)"
    unfolding process_body_started [OF assms(2)] using assms(3)
    by (simp add: assms(4) andThen_def returning_eq finish_def thenDo_def delete_directory_def on_files_def
        fs_rmdir_def no_temp_dir_def request_started_def)
  from process_no_temp_dir [OF this] assms(3) show ?thesis
    using processing_status_written [OF assms(1,2)]
    by (auto simp: no_temp_dir_def request_started_def db_of_def)
qed

text \<open>
  When everything has gone through but the webhook refuses the output file, the error handler
  fails on the directory that is already gone: \<open>process\<close> rejects with \<open>ENOENT\<close>, the request stays
  Succeeded and no failure is recorded.
\<close>

theorem webhook_failure_is_lost:
  assumes "collection_laws (ip_model P) docs"
    and "update_status (ip_model P) (pr_requestId req) PROCESSING (status_message PROCESSING) (db_of s) = (Inr x, d)"
    and "process_products P (pr_requestId req) [] (pr_products req)
      ((request_started (pr_requestId req) s)\<lparr>world := (d, snd (world s))\<rparr>) = (Inr processed, s1)"
    and "is_dir (files s1) (path_key (temp_dir P (pr_requestId req)))"
    and "update_request (ip_model P) (pr_requestId req)
      \<lparr>up_status = Some SUCCEEDED, up_message = Some (status_message SUCCEEDED),
       up_products = Some (output_docs processed)\<rparr> (db_of s1) = (Inr y, d2)"
    and "net_post (ip_http P) (pr_webhookUrl req) (build_csv processed)
      [(''Content-Type'', ''text/csv''), (''X-Request-Id'', pr_requestId req)] (snd (world s1)) = (Inl e, h)"
  shows "\<exists>s'. process P req s = (Inl (ENOENT ''stat'' (temp_dir P (pr_requestId req))), s') \<and>
    (\<exists>r. docs (db_of s') (pr_requestId req) = Some r \<and> succeeded_with P req processed r)"
proof -
  let ?i = "pr_requestId req"
  obtain s2 where rm: "delete_directory (temp_dir P ?i) s1 = (Inr (), s2)"
    using assms(4) by (simp add: delete_directory_def on_files_def fs_rmdir_def Let_def)
  note removed = delete_directory_result [OF rm]
  let ?s3 = "s2\<lparr>world := (d2, snd (world s1))\<rparr>"
  have update: "update_request_success_status P ?i processed s2 = (Inr y, ?s3)"
    using assms(5) removed by (simp add: update_request_success_status_def on_db_result db_of_def)
  obtain s4 where post: "call_webhook P ?i (build_csv processed) (pr_webhookUrl req) ?s3 = (Inl e, s4)"
    and s4: "files s4 = files s2" "db_of s4 = d2"
    using assms(6) by (simp add: call_webhook_def act_simps on_net_def external_def db_of_def)
  have "finish P req processed s1 = (Inl e, s4)"
    using rm update post by (simp add: finish_def thenDo_def andThen_def)
  then have "process_body P req s = (Inl e, s4)"
    unfolding process_body_started [OF assms(2)] using assms(3) by (simp add: andThen_def)
  from process_no_temp_dir [OF this] removed s4 have
    "process P req s = (Inl (ENOENT ''stat'' (temp_dir P ?i)), s4)"
    by (simp add: no_temp_files_def)
  moreover have "docs d2 ?i = Some (apply_patch \<lparr>up_status = Some SUCCEEDED,
      up_message = Some (status_message SUCCEEDED), up_products = Some (output_docs processed)\<rparr> y)"
    using repo.update_changes [OF assms(1,5)] by simp
  ultimately show ?thesis using succeeded_apply_patch s4 by blast
qed

subsection \<open>The statements in a concrete world\<close>

text \<open>
  The database is the collection in memory, the network counts the uuids it has handed out; the url \<open>bad\<close>
  cannot be fetched and the webhook \<open>down\<close> does not answer.
\<close>

definition sample_net :: "nat net_lib" where
  "sample_net =
    \<lparr>net_get = (\<lambda>url h. if url = ''bad'' then (Inl (new_Error ''Request failed''), h)
       else (Inr \<lparr>hs_content_type = Some ''image/png'', hs_body = [1, 2, 3], hs_failure = None\<rparr>, h)),
     net_put = (\<lambda>url b hs h. (Inr \<lparr>ur_download_url = ''cdn:'' @ url\<rparr>, h)),
     net_post = (\<lambda>url csv hs h. (if url = ''down'' then Inl (new_Error ''ECONNREFUSED'') else Inr (), h)),
     net_uuid = (\<lambda>h. (''u'' @ decimal h, h + 1))\<rparr>"

definition sample_sharp :: sharp_lib where
  "sample_sharp =
    \<lparr>sh_metadata = (\<lambda>c. case c of None \<Rightarrow> Inl (new_Error ''Input file is missing'') | Some b \<Rightarrow> Inr (Some ''png'')),
     sh_has_method = (\<lambda>f. f = ''png''),
     sh_encode = (\<lambda>f c. case c of None \<Rightarrow> Inl (new_Error ''Input file is missing'') | Some b \<Rightarrow> Inr (take 1 b)),
     sh_write_error = (\<lambda>e. e)\<rparr>"

definition sample_processor :: "(string \<Rightarrow> request_doc option, nat) image_processor" where
  "sample_processor =
    \<lparr>ip_model = memory_model, ip_http = sample_net, ip_sharp = sample_sharp,
     ip_mime_extension = (\<lambda>t. if t = ''image/png'' then Some ''png'' else None),
     ip_tmpdir = ''/tmp'', ip_base_url = ''up'', ip_author = ''bot'', ip_email = ''bot@x'',
     ip_branch = ''main'', ip_token = ''t''\<rparr>"

definition sample_run :: "((string \<Rightarrow> request_doc option) \<times> nat) rt" where
  "sample_run =
    \<lparr>world = (sample_db, 0), files = \<lparr>is_dir = (\<lambda>q. q = [] \<or> q = [''tmp'']), file_at = Map.empty\<rparr>,
     log_lines = [], apm_events = []\<rparr>"

definition sample_job :: "string \<Rightarrow> string list \<Rightarrow> processing_request" where
  "sample_job hook urls =
    \<lparr>pr_requestId = ''r1'', pr_webhookUrl = hook,
     pr_products = [(''tea'', \<lparr>name = ''tea'', inputImageUrls = urls\<rparr>)]\<rparr>"

lemma sample_laws: "collection_laws (ip_model sample_processor) id"
  using memory_model_laws by (simp add: sample_processor_def)

lemma sample_update:
  "\<exists>x d. update_status (ip_model sample_processor) ''r1'' PROCESSING (status_message PROCESSING) (db_of sample_run) = (Inr x, d)"
  by (simp add: update_status_def found_or_404_def memory_model_def sample_db_def sample_processor_def
      db_of_def sample_run_def)

lemma sample_no_temp_dir: "no_temp_dir sample_processor ''r1'' (files sample_run)"
  by code_simp

theorem process_returns_final_witness:
  "fst (process sample_processor (sample_job ''hook'' [''a'', ''b'']) sample_run) = Inr () \<and>
   (\<exists>r. db_of (snd (process sample_processor (sample_job ''hook'' [''a'', ''b'']) sample_run)) ''r1'' = Some r \<and>
     rq_status r \<in> {SUCCEEDED, FAILED})"
proof -
  let ?job = "sample_job ''hook'' [''a'', ''b'']"
  have ok: "fst (process sample_processor ?job sample_run) = Inr ()" by code_simp
  then have run: "process sample_processor ?job sample_run = (Inr (), snd (process sample_processor ?job sample_run))"
    by (metis prod.collapse)
  have "js_wf (pr_products ?job)" "''__proto__'' \<notin> set (js_keys (pr_products ?job))" by code_simp+
  from process_returns_final [OF sample_laws run this] ok show ?thesis
    by (auto simp: sample_job_def succeeded_with_def)
qed

theorem first_failing_image_stops_witness:
  "\<exists>e s3. process_products sample_processor ''r1'' [] [(''tea'', \<lparr>name = ''tea'', inputImageUrls = [''a'', ''bad'', ''b'']\<rparr>)]
     sample_run = (Inl (image_processing_error ''tea'' ''bad'' e), s3)"
proof -
  let ?p = "\<lparr>name = ''tea'', inputImageUrls = [''a'', ''bad'', ''b'']\<rparr>"
  have start: "process_products sample_processor ''r1'' [] [] sample_run = (Inr [], sample_run)"
    by (simp add: returning_eq)
  have urls: "inputImageUrls ?p = [''a''] @ ''bad'' # [''b'']" by simp
  let ?u = "process_urls sample_processor ''r1'' ''tea'' ?p [] [''a''] sample_run"
  have "fst ?u = Inr [''cdn:up/r1/tea/u0.png'']" by code_simp
  then have before: "?u = (Inr [''cdn:up/r1/tea/u0.png''], snd ?u)" by (metis prod.collapse)
  have "process_image sample_processor ''r1'' ''tea'' ''bad'' s = (Inl (new_Error ''Request failed''), s)" for s
    by (simp add: process_image_def download_image_def andThen_def on_net_def external_def sample_processor_def
        sample_net_def split: prod.split)
  from first_failing_image_stops [OF start urls before this, of "[]"] show ?thesis by simp blast
qed


theorem empty_request_is_lost_witness:
  "\<exists>s'. process sample_processor \<lparr>pr_requestId = ''r1'', pr_webhookUrl = ''hook'', pr_products = []\<rparr> sample_run =
      (Inl (ENOENT ''stat'' (temp_dir sample_processor ''r1'')), s') \<and>
    (\<exists>r. db_of s' ''r1'' = Some r \<and> rq_status r = PROCESSING)"
proof -
  let ?job = "\<lparr>pr_requestId = ''r1'', pr_webhookUrl = ''hook'', pr_products = []\<rparr> :: processing_request"
  obtain x d where u: "update_status (ip_model sample_processor) (pr_requestId ?job) PROCESSING
      (status_message PROCESSING) (db_of sample_run) = (Inr x, d)"
    using sample_update by auto
  have "no_temp_dir sample_processor (pr_requestId ?job) (files sample_run)" "pr_products ?job = []"
    using sample_no_temp_dir by simp_all
  from empty_request_is_lost [OF sample_laws u this] show ?thesis by simp
qed

theorem webhook_failure_is_lost_witness:
  "\<exists>s'. process sample_processor (sample_job ''down'' [''a'']) sample_run =
      (Inl (ENOENT ''stat'' (temp_dir sample_processor ''r1'')), s') \<and>
    (\<exists>r. db_of s' ''r1'' = Some r \<and> rq_status r = SUCCEEDED)"
proof -
  let ?job = "sample_job ''down'' [''a'']"
  have job: "pr_requestId ?job = ''r1''" "pr_webhookUrl ?job = ''down''" by (simp_all add: sample_job_def)
  obtain x d where u: "update_status (ip_model sample_processor) (pr_requestId ?job) PROCESSING
      (status_message PROCESSING) (db_of sample_run) = (Inr x, d)"
    using sample_update job by auto
  have d: "d ''r1'' \<noteq> None"
    using processing_status_written [OF sample_laws u] job by auto
  let ?s = "(request_started (pr_requestId ?job) sample_run)\<lparr>world := (d, snd (world sample_run))\<rparr>"
  let ?r = "process_products sample_processor (pr_requestId ?job) [] (pr_products ?job) ?s"
  let ?out = "[(''tea'', \<lparr>name = ''tea'', inputImageUrls = [''a''], outputImageUrls = [''cdn:up/r1/tea/u0.png'']\<rparr>)]"
  have "fst ?r = Inr ?out" by code_simp
  then have products: "?r = (Inr ?out, snd ?r)" by (metis prod.collapse)
  have dir: "is_dir (files (snd ?r)) (path_key (temp_dir sample_processor (pr_requestId ?job)))" by code_simp
  have "db_of (snd ?r) = d"
    using keepsD [OF keeps_db_process_products products] by (simp add: db_of_def request_started_def)
  then obtain y d2 where up: "update_request (ip_model sample_processor) (pr_requestId ?job)
      \<lparr>up_status = Some SUCCEEDED, up_message = Some (status_message SUCCEEDED),
       up_products = Some (output_docs ?out)\<rparr> (db_of (snd ?r)) = (Inr y, d2)"
    using d job by (auto simp: update_request_def found_or_404_def sample_processor_def memory_model_def)
  obtain h where post: "net_post (ip_http sample_processor) (pr_webhookUrl ?job) (build_csv ?out)
      [(''Content-Type'', ''text/csv''), (''X-Request-Id'', pr_requestId ?job)] (snd (world (snd ?r))) =
      (Inl (new_Error ''ECONNREFUSED''), h)"
    by (simp add: sample_processor_def sample_net_def job)
  from webhook_failure_is_lost [OF sample_laws u products dir up post] show ?thesis
    by (auto simp: job succeeded_with_def)
qed

end
