(* ===== verification/ImageRun.thy ===== *)
theory ImageRun
  imports Processing
begin

text \<open>
  One image from download to upload: the files that \<open>processImage\<close> makes and removes, what it sends,
  and what a failing step leaves on disk.
\<close>

subsection \<open>The names of the files\<close>

text \<open>A part of a file name: not empty, without dot and slash.\<close>

definition file_word :: "string \<Rightarrow> bool" where
  "file_word w \<longleftrightarrow> w \<noteq> [] \<and> CHR ''.'' \<notin> set w \<and> CHR ''/'' \<notin> set w"

definition temp_key :: "('d, 'h) image_processor \<Rightarrow> string \<Rightarrow> path_key" where
  "temp_key P r = path_key (temp_dir P r)"

lemma plain_file_name: "file_word a \<Longrightarrow> file_word b \<Longrightarrow> plain_seg (a @ ''.'' @ b)"
  by (cases a; cases b) (auto simp: file_word_def plain_seg_def)

lemma plain_processed: "plain_seg ''processed''"
  by code_simp

lemma temp_key_plain: "\<forall>s \<in> set (temp_key P r). plain_seg s"
  using path_key_plain by (simp add: temp_key_def)

lemma temp_dir_key_path: "temp_dir P r = key_path (temp_key P r)"
  by (simp add: temp_key_def temp_dir_def path_join_def path_key_key_path path_key_plain)

lemma path_join_key_path:
  assumes "\<forall>s \<in> set ks. plain_seg s" and "plain_seg w"
  shows "path_join [key_path ks, w] = key_path (ks @ [w])"
  using path_key_snoc [OF assms(2), of "key_path ks"] path_key_key_path [OF assms(1)]
  by (simp add: path_join_def)

lemma drop_extension_file_name: "file_word a \<Longrightarrow> file_word b \<Longrightarrow> drop_extension (a @ ''.'' @ b) = a"
  by (simp add: drop_extension_def file_word_def split_on_append split_on_no_sep)

definition download_key :: "('d, 'h) image_processor \<Rightarrow> string \<Rightarrow> string \<Rightarrow> string \<Rightarrow> path_key" where
  "download_key P r u ext = temp_key P r @ [u @ ''.'' @ ext]"

definition output_dir_key :: "('d, 'h) image_processor \<Rightarrow> string \<Rightarrow> path_key" where
  "output_dir_key P r = temp_key P r @ [''processed'']"

definition output_key :: "('d, 'h) image_processor \<Rightarrow> string \<Rightarrow> string \<Rightarrow> string \<Rightarrow> path_key" where
  "output_key P r u fmt = output_dir_key P r @ [u @ ''.'' @ fmt]"

lemmas key_defs = download_key_def output_dir_key_def output_key_def

lemma keys_plain:
  assumes "file_word u" "file_word x"
  shows "\<forall>s \<in> set (download_key P r u x). plain_seg s" "\<forall>s \<in> set (output_dir_key P r). plain_seg s"
    "\<forall>s \<in> set (output_key P r u x). plain_seg s"
  using temp_key_plain [of P r] plain_file_name [OF assms] plain_processed by (auto simp: key_defs)

text \<open>Nothing on disk is in the way: no file on the way to the directories, no directory in place of a file.\<close>

definition room_for :: "fs \<Rightarrow> ('d, 'h) image_processor \<Rightarrow> string \<Rightarrow> string \<Rightarrow> string \<Rightarrow> string \<Rightarrow> bool" where
  "room_for f P r u ext fmt \<longleftrightarrow>
    (\<forall>q \<in> set (prefixes (output_dir_key P r)). file_at f q = None) \<and>
    \<not> is_dir f (download_key P r u ext) \<and> \<not> is_dir f (output_key P r u fmt)"

lemma download_not_prefix: "file_word u \<Longrightarrow> file_word x \<Longrightarrow> \<not> prefix (download_key P r u x) (output_dir_key P r)"
proof -
  assume "file_word u" "file_word x"
  have "CHR ''.'' \<notin> set ''processed''" by code_simp
  moreover have "CHR ''.'' \<in> set (u @ ''.'' @ x)" by simp
  ultimately have "u @ ''.'' @ x \<noteq> ''processed''" by metis
  then show ?thesis by (simp add: key_defs)
qed

lemma longer_not_prefix: "\<not> prefix (k @ [x]) k"
  by (auto simp: prefix_def)

lemma keys_distinct: "file_word u \<Longrightarrow> file_word x \<Longrightarrow> download_key P r u x \<noteq> output_key P r u y"
  by (simp add: key_defs)

subsection \<open>The steps\<close>

lemma fs_mkdir_ok:
  "\<forall>q \<in> set (prefixes k). file_at f q = None \<Longrightarrow> \<forall>s \<in> set k. plain_seg s \<Longrightarrow>
    fs_mkdir (key_path k) f = (Inr (), f\<lparr>is_dir := (\<lambda>q. is_dir f q \<or> prefix q k)\<rparr>)"
  by (auto simp: fs_mkdir_def path_key_key_path list_ex_iff)

lemma fs_write_ok:
  "\<forall>s \<in> set k. plain_seg s \<Longrightarrow> \<not> is_dir f k \<Longrightarrow> is_dir f (butlast k) \<Longrightarrow>
    fs_write_stream (key_path k) c None f = (Inr (), f\<lparr>file_at := (file_at f)(k \<mapsto> c)\<rparr>)"
  by (simp add: fs_write_stream_def path_key_key_path)

lemma fs_read_ok:
  "\<forall>s \<in> set k. plain_seg s \<Longrightarrow> \<not> is_dir f k \<Longrightarrow> file_at f k = Some c \<Longrightarrow>
    fs_read (key_path k) f = (Inr c, f)"
  by (simp add: fs_read_def path_key_key_path)

lemma fs_unlink_ok:
  "\<forall>s \<in> set k. plain_seg s \<Longrightarrow> \<not> is_dir f k \<Longrightarrow> file_at f k = Some c \<Longrightarrow>
    fs_unlink (key_path k) f = (Inr (), f\<lparr>file_at := (file_at f)(k := None)\<rparr>)"
  by (simp add: fs_unlink_def path_key_key_path)

definition content_type_of :: "http_stream \<Rightarrow> string" where
  "content_type_of data =
    (case hs_content_type data of Some t \<Rightarrow> t | None \<Rightarrow> ''application/octet-stream'')"

definition extension_for :: "('d, 'h) image_processor \<Rightarrow> http_stream \<Rightarrow> string" where
  "extension_for P data =
    (case ip_mime_extension P (content_type_of data) of Some x \<Rightarrow> x | None \<Rightarrow> ''bin'')"

lemma download_image_ok:
  assumes "net_get (ip_http P) url h = (Inr data, h1)" and "hs_failure data = None"
    and "net_uuid (ip_http P) h1 = (u, h2)" and "extension_for P data = ext"
    and "file_word u" and "file_word ext" and "room_for f P r u ext fmt"
    and "world s = (d, h)" and "files s = f"
  shows "download_image P r url s =
    (Inr (key_path (download_key P r u ext)),
     s\<lparr>world := (d, h2),
       files := f\<lparr>is_dir := (\<lambda>q. is_dir f q \<or> prefix q (temp_key P r)),
                  file_at := (file_at f)(download_key P r u ext \<mapsto> hs_body data)\<rparr>\<rparr>)"
proof -
  let ?f1 = "f\<lparr>is_dir := (\<lambda>q. is_dir f q \<or> prefix q (temp_key P r))\<rparr>"
  have "\<forall>q \<in> set (prefixes (temp_key P r)). file_at f q = None"
    using assms(7) by (auto simp: room_for_def key_defs)
  then have mkdir: "fs_mkdir (temp_dir P r) f = (Inr (), ?f1)"
    by (simp add: temp_dir_key_path fs_mkdir_ok temp_key_plain)
  have path: "path_join [temp_dir P r, u @ ''.'' @ ext] = key_path (download_key P r u ext)"
    using path_join_key_path [OF temp_key_plain plain_file_name [OF assms(5,6)]]
    by (simp add: temp_dir_key_path download_key_def)
  have "\<not> is_dir ?f1 (download_key P r u ext)"
    using assms(7) by (auto simp: room_for_def download_key_def longer_not_prefix)
  then have "fs_write_stream (key_path (download_key P r u ext)) (hs_body data) None ?f1 =
      (Inr (), ?f1\<lparr>file_at := (file_at ?f1)(download_key P r u ext \<mapsto> hs_body data)\<rparr>)"
    using keys_plain(1) [OF assms(5,6)] by (intro fs_write_ok) (auto simp: download_key_def)
  then show ?thesis
    using assms mkdir path
    by (simp add: download_image_def get_file_name_def extension_for_def content_type_of_def Let_def
        andThen_def thenDo_def on_net_def external_def on_files_def returning_eq)
qed

lemma convert_image_quality_ok:
  assumes "file_at f (download_key P r u ext) = Some body"
    and "sh_metadata (ip_sharp P) (Some body) = Inr (Some fmt)" and "sh_has_method (ip_sharp P) fmt"
    and "sh_encode (ip_sharp P) fmt (Some body) = Inr out"
    and "file_word u" and "file_word ext" and "file_word fmt"
    and "\<forall>q \<in> set (prefixes (output_dir_key P r)). file_at f q = None"
    and "\<not> is_dir f (output_key P r u fmt)" and "files s = f"
  shows "convert_image_quality P (key_path (download_key P r u ext)) s =
    (Inr (key_path (output_key P r u fmt)),
     s\<lparr>files := f\<lparr>is_dir := (\<lambda>q. is_dir f q \<or> prefix q (output_dir_key P r)),
                  file_at := (file_at f)(output_key P r u fmt \<mapsto> out)\<rparr>\<rparr>)"
proof -
  let ?k = "download_key P r u ext"
  let ?f1 = "f\<lparr>is_dir := (\<lambda>q. is_dir f q \<or> prefix q (output_dir_key P r))\<rparr>"
  have parts: "path_dirname (key_path ?k) = temp_dir P r" "path_basename (key_path ?k) = u @ ''.'' @ ext"
    using keys_plain(1) [OF assms(5,6), of P r]
    by (simp_all only: download_key_def path_dirname_key_path path_basename_key_path temp_dir_key_path)
  have dir: "path_join [temp_dir P r, ''processed''] = key_path (output_dir_key P r)"
    using path_join_key_path [OF temp_key_plain plain_processed] by (simp only: temp_dir_key_path output_dir_key_def)
  have out_path: "path_join [key_path (output_dir_key P r), u @ ''.'' @ fmt] = key_path (output_key P r u fmt)"
    using path_join_key_path [OF keys_plain(2) [OF assms(5,6)] plain_file_name [OF assms(5,7)], of P r]
    by (simp only: output_key_def)
  have mkdir: "fs_mkdir (key_path (output_dir_key P r)) f = (Inr (), ?f1)"
    using fs_mkdir_ok [OF assms(8) keys_plain(2) [OF assms(5,6)]] .
  have "\<not> is_dir ?f1 (output_key P r u fmt)"
    using assms(9) by (simp add: output_key_def longer_not_prefix)
  then have wrote: "fs_write_stream (key_path (output_key P r u fmt)) out None ?f1 =
      (Inr (), ?f1\<lparr>file_at := (file_at ?f1)(output_key P r u fmt \<mapsto> out)\<rparr>)"
    using keys_plain(3) [OF assms(5,7)] by (intro fs_write_ok) (auto simp: output_key_def)
  have fmt: "fmt \<noteq> []" using assms(7) by (simp add: file_word_def)
  have ext: "drop_extension (u @ ''.'' @ ext) = u" using drop_extension_file_name [OF assms(5,6)] .
  have key: "path_key (key_path ?k) = ?k" using path_key_key_path [OF keys_plain(1) [OF assms(5,6)]] .
  show ?thesis
    using assms(1-4,10) fmt mkdir wrote out_path
    by (simp add: convert_image_quality_def tryCatch_def andThen_def thenDo_def file_content_def
        pure_result_def parts key dir ext [simplified] out_path [simplified] Let_def encode_to_file_def
        on_files_def returning_eq)
qed

lemma upload_file_ok:
  assumes "file_at f (output_key P r u fmt) = Some out" and "\<not> is_dir f (output_key P r u fmt)"
    and "file_word u" and "file_word fmt"
    and "net_put (ip_http P) (ip_base_url P @ ''/'' @ r @ ''/'' @ n @ ''/'' @ u @ ''.'' @ fmt)
      \<lparr>ub_message = ''Uploading file '' @ u @ ''.'' @ fmt @ [CHR 0x0A] @ ''Product: '' @ n @ [CHR 0x0A] @
         ''Image URL: '' @ url,
       ub_committer = (ip_author P, ip_email P), ub_branch = ip_branch P, ub_content = base64 out\<rparr>
      [(''Authorization'', ''Bearer '' @ ip_token P)] h = (Inr resp, h')"
    and "files s = f" and "world s = (d, h)"
  shows "upload_file P r n url (key_path (output_key P r u fmt)) s =
    (Inr (ur_download_url resp), s\<lparr>world := (d, h')\<rparr>)"
proof -
  have base: "path_basename (key_path (output_key P r u fmt)) = u @ ''.'' @ fmt"
    using keys_plain(3) [OF assms(3,4), of P r] by (simp only: output_key_def path_basename_key_path)
  have read: "fs_read (key_path (output_key P r u fmt)) f = (Inr out, f)"
    using fs_read_ok [OF keys_plain(3) [OF assms(3,4)] assms(2,1)] .
  show ?thesis
    using assms(5-7) read
    by (simp add: upload_file_def upload_url_def upload_request_def base [simplified] andThen_def on_files_def
        on_net_def external_def returning_eq)
qed

lemma delete_file_ok:
  "\<forall>s \<in> set k. plain_seg s \<Longrightarrow> \<not> is_dir (files s) k \<Longrightarrow> file_at (files s) k = Some c \<Longrightarrow>
    delete_file (key_path k) s = (Inr (), s\<lparr>files := (files s)\<lparr>file_at := (file_at (files s))(k := None)\<rparr>\<rparr>)"
  by (simp add: delete_file_def on_files_def fs_unlink_ok)

text \<open>
  C18: When the image arrives, sharp recognises and encodes it and the upload is accepted, \<open>processImage\<close>
  returns the download url of the response. The file name is the fresh uuid with the format's
  extension, the request carries the encoded bytes in base64, and afterwards both temporary files are gone:
  the disk differs from before only by the two directories.
\<close>

theorem process_image_uploads:
  assumes "net_get (ip_http P) url h = (Inr data, h1)" and "hs_failure data = None"
    and "net_uuid (ip_http P) h1 = (u, h2)" and "extension_for P data = ext"
    and "sh_metadata (ip_sharp P) (Some (hs_body data)) = Inr (Some fmt)" and "sh_has_method (ip_sharp P) fmt"
    and "sh_encode (ip_sharp P) fmt (Some (hs_body data)) = Inr out"
    and "net_put (ip_http P) (ip_base_url P @ ''/'' @ r @ ''/'' @ n @ ''/'' @ u @ ''.'' @ fmt)
      \<lparr>ub_message = ''Uploading file '' @ u @ ''.'' @ fmt @ [CHR 0x0A] @ ''Product: '' @ n @ [CHR 0x0A] @
         ''Image URL: '' @ url,
       ub_committer = (ip_author P, ip_email P), ub_branch = ip_branch P, ub_content = base64 out\<rparr>
      [(''Authorization'', ''Bearer '' @ ip_token P)] h2 = (Inr resp, h3)"
    and "file_word u" and "file_word ext" and "file_word fmt" and "room_for (files s) P r u ext fmt"
    and "world s = (d, h)"
  shows "process_image P r n url s =
    (Inr (ur_download_url resp),
     s\<lparr>world := (d, h3),
       files := (files s)\<lparr>
         is_dir := (\<lambda>q. is_dir (files s) q \<or> prefix q (output_dir_key P r)),
         file_at := (file_at (files s))(download_key P r u ext := None, output_key P r u fmt := None)\<rparr>\<rparr>)"
proof -
  let ?k = "download_key P r u ext" and ?o = "output_key P r u fmt"
  define f where "f = files s"
  define s1 where "s1 = s\<lparr>world := (d, h2),
    files := f\<lparr>is_dir := (\<lambda>q. is_dir f q \<or> prefix q (temp_key P r)),
      file_at := (file_at f)(?k \<mapsto> hs_body data)\<rparr>\<rparr>"
  define s2 where "s2 = s1\<lparr>files := f\<lparr>is_dir := (\<lambda>q. is_dir f q \<or> prefix q (output_dir_key P r)),
      file_at := (file_at f)(?k \<mapsto> hs_body data, ?o \<mapsto> out)\<rparr>\<rparr>"
  define s3 where "s3 = s2\<lparr>files := f\<lparr>is_dir := (\<lambda>q. is_dir f q \<or> prefix q (output_dir_key P r)),
      file_at := (file_at f)(?k := None, ?o \<mapsto> out)\<rparr>\<rparr>"
  note words = assms(9-11) and room = assms(12) [unfolded room_for_def, folded f_def]
  have plain: "\<forall>s \<in> set ?k. plain_seg s" "\<forall>s \<in> set ?o. plain_seg s"
    using keys_plain words by blast+
  have free: "\<not> is_dir f ?k" "\<not> is_dir f ?o" "\<not> prefix ?k (output_dir_key P r)" "?k \<noteq> ?o"
    using room download_not_prefix [OF words(1,2)] keys_distinct [OF words(1,2)] by blast+
  have deep: "\<not> prefix ?o (output_dir_key P r)" by (simp add: output_key_def longer_not_prefix)
  have not_dir: "\<not> prefix ?k (temp_key P r)" "\<not> prefix ?o (temp_key P r)"
    using free(3) deep by (auto simp: output_dir_key_def)
  have dirs: "(\<lambda>q. is_dir f q \<or> prefix q (temp_key P r) \<or> prefix q (output_dir_key P r)) =
      (\<lambda>q. is_dir f q \<or> prefix q (output_dir_key P r))"
    by (auto simp: output_dir_key_def)
  have 1: "download_image P r url s = (Inr (key_path ?k), s1)"
    unfolding s1_def f_def using assms by (intro download_image_ok) auto
  have "\<forall>q \<in> set (prefixes (output_dir_key P r)). file_at (files s1) q = None"
    using room free(3) by (auto simp: s1_def)
  then have 2: "convert_image_quality P (key_path ?k) s1 = (Inr (key_path ?o), s2)"
    using convert_image_quality_ok [of "files s1" P r u ext "hs_body data" fmt out s1] assms(5-7) words free deep not_dir
    by (simp add: s1_def s2_def dirs)
  have 3: "delete_file (key_path ?k) s2 = (Inr (), s3)"
    using delete_file_ok [OF plain(1), of s2 "hs_body data"] free deep
    by (simp add: s2_def s3_def fun_upd_twist)
  have 4: "upload_file P r n url (key_path ?o) s3 = (Inr (ur_download_url resp), s3\<lparr>world := (d, h3)\<rparr>)"
    using upload_file_ok [of "files s3" P r u fmt out n url h2 resp h3 s3 d] assms(8) words free deep
    by (simp add: s1_def s2_def s3_def)
  have 5: "delete_file (key_path ?o) (s3\<lparr>world := (d, h3)\<rparr>) = (Inr (), s3\<lparr>world := (d, h3),
      files := (files s3)\<lparr>file_at := (file_at (files s3))(?o := None)\<rparr>\<rparr>)"
    using delete_file_ok [OF plain(2), of "s3\<lparr>world := (d, h3)\<rparr>" out] free deep by (simp add: s3_def)
  show ?thesis
    by (simp add: process_image_def andThen_def thenDo_def 1 2 3 4 5 returning_eq)
      (simp add: s1_def s2_def s3_def f_def)
qed

theorem process_image_uploads_witness:
  "\<exists>s'. process_image sample_processor ''r1'' ''tea'' ''a'' sample_run = (Inr ''cdn:up/r1/tea/u0.png'', s') \<and>
    file_at (files s') = Map.empty \<and> is_dir (files s') [''tmp'', ''image-processing'', ''r1'', ''processed'']"
proof -
  let ?data = "\<lparr>hs_content_type = Some ''image/png'', hs_body = [1, 2, 3], hs_failure = None\<rparr>"
  have steps: "net_get (ip_http sample_processor) ''a'' 0 = (Inr ?data, 0)" "hs_failure ?data = None"
    "net_uuid (ip_http sample_processor) 0 = (''u0'', 1)" "extension_for sample_processor ?data = ''png''"
    "sh_metadata (ip_sharp sample_processor) (Some (hs_body ?data)) = Inr (Some ''png'')"
    "sh_has_method (ip_sharp sample_processor) ''png''"
    "sh_encode (ip_sharp sample_processor) ''png'' (Some (hs_body ?data)) = Inr [1]"
    by code_simp+
  have put: "net_put (ip_http sample_processor)
      (ip_base_url sample_processor @ ''/'' @ ''r1'' @ ''/'' @ ''tea'' @ ''/'' @ ''u0'' @ ''.'' @ ''png'') b hs 1 =
      (Inr \<lparr>ur_download_url = ''cdn:up/r1/tea/u0.png''\<rparr>, 1)" for b hs
    by (simp add: sample_processor_def sample_net_def)
  have key: "output_dir_key sample_processor ''r1'' = [''tmp'', ''image-processing'', ''r1'', ''processed'']" by code_simp
  have words: "file_word ''u0''" "file_word ''png''" by code_simp+
  have room: "room_for (files sample_run) sample_processor ''r1'' ''u0'' ''png'' ''png''" by code_simp
  have world: "world sample_run = (sample_db, 0)" by (simp add: sample_run_def)
  have empty: "file_at (files sample_run) = Map.empty" by (simp add: sample_run_def)
  show ?thesis
    using process_image_uploads [OF steps put words(1,2,2) room world] key empty by simp
qed

end
