(* ===== verification/KafkaProducer.thy ===== *)
theory KafkaProducer
  imports Effects
begin

text \<open>
  \<open>packages/queue-service/src/kafka/kafka-producer-service.ts\<close>: connecting, disconnecting and
  publishing. The kafkajs producer and the schema registry are parameters.
\<close>

subsection \<open>The libraries\<close>

text \<open>What is sent as a message's value: a JSON text (\<open>undefined\<close> for an undefined value), or encoded bytes.\<close>

datatype 'b payload = Json_payload jv | Encoded_payload 'b

record 'b out_message =
  om_key :: jv
  om_value :: "'b payload"
  om_headers :: "(string \<times> string) list"

record ('w, 'b) registry_encoder =
  re_latest :: "string \<Rightarrow> ('w, int) call"
  re_encode :: "int \<Rightarrow> jv \<Rightarrow> ('w, 'b) call"

record ('w, 'b) kafka_producer =
  kp_connect :: "('w, unit) call"
  kp_disconnect :: "('w, unit) call"
  kp_send :: "string \<Rightarrow> 'b out_message \<Rightarrow> ('w, jv) call"
  kp_registry :: "('w, 'b) registry_encoder option"

text \<open>The message a caller hands to \<open>publish\<close>.\<close>

record queue_message =
  qm_key :: jv
  qm_value :: jv

definition message_jv :: "queue_message \<Rightarrow> jv" where
  "message_jv m = JObj [(''key'', qm_key m), (''value'', qm_value m)]"

subsection \<open>Operations\<close>

definition producer_connect :: "('w, 'b) kafka_producer \<Rightarrow> apm_conf \<Rightarrow> ('w, unit) act" where
  "producer_connect K A =
    tryCatch
      (thenDo (external (kp_connect K))
        (log_to AppLogger LLog ''[KafkaProducerService] Connected to Kafka Producer!!'' []))
      (\<lambda>e. let err = KafkaProducerServiceError ''Error connecting to Kafka Producer'' (Some e)
           in thenDo (report AppLogger A err) (raise err))"

definition producer_disconnect :: "('w, 'b) kafka_producer \<Rightarrow> apm_conf \<Rightarrow> ('w, unit) act" where
  "producer_disconnect K A =
    tryCatch
      (thenDo (external (kp_disconnect K))
        (log_to AppLogger LLog ''[KafkaProducerService] Kafka Producer Disconnected!!'' []))
      (\<lambda>e. let err = KafkaProducerServiceError ''Error disconnecting from Kafka Producer'' (Some e)
           in thenDo (report AppLogger A err) (raise err))"

text \<open>The trace header: the ids of the current transaction, when there is one.\<close>

definition trace_headers :: "apm_conf \<Rightarrow> (string \<times> string) list" where
  "trace_headers A =
    (case (apm_on A, apm_txn A) of
       (True, Some ids) \<Rightarrow> if truthy ids then [(''transaction'', json_text ids)] else []
     | _ \<Rightarrow> [])"

definition encode_value ::
  "('w, 'b) kafka_producer \<Rightarrow> string \<Rightarrow> jv \<Rightarrow> bool \<Rightarrow> ('w, 'b payload) act" where
  "encode_value K topicName v schemaEnabled =
    (case kp_registry K of
       Some r \<Rightarrow>
         if schemaEnabled then
           andThen (external (re_latest r topicName)) (\<lambda>i.
             andThen (external (re_encode r i v)) (\<lambda>b. returning (Encoded_payload b)))
         else returning (Json_payload (json_stringify v))
     | None \<Rightarrow> returning (Json_payload (json_stringify v)))"

definition publish ::
  "('w, 'b) kafka_producer \<Rightarrow> apm_conf \<Rightarrow> string \<Rightarrow> queue_message \<Rightarrow> bool \<Rightarrow> ('w, jv) act" where
  "publish K A topicName message schemaEnabled =
    tryCatch
      (thenDo (set_label A ''kafka_producer_topic'' (JStr topicName))
        (thenDo (log_to TxnLogger LLog (''[KafkaProducerService] Publishing message to '' @ topicName @ '': '' @
                  json_text (message_jv message)) [])
          (andThen (encode_value K topicName (qm_value message) schemaEnabled) (\<lambda>v.
            andThen (external (kp_send K topicName
                \<lparr>om_key = qm_key message, om_value = v, om_headers = trace_headers A\<rparr>)) (\<lambda>result.
              thenDo (log_to TxnLogger LLog (''[KafkaProducerService] Published message to '' @ topicName) [])
                (returning result))))))
      (\<lambda>e. let err = KafkaProducerServiceError ''Error publishing message to Kafka Producer'' (Some e)
           in thenDo (report TxnLogger A err) (raise err))"

subsection \<open>The operations meet the contract of a wrapped call\<close>

definition logged :: "sink \<Rightarrow> string \<Rightarrow> 'w rt \<Rightarrow> 'w rt" where
  "logged k t s = s\<lparr>log_lines := log_lines s @ [Log_line k LLog t []]\<rparr>"

definition labelled :: "apm_conf \<Rightarrow> string \<Rightarrow> jv \<Rightarrow> 'w rt \<Rightarrow> 'w rt" where
  "labelled A k v s =
    (if apm_on A \<and> apm_txn A \<noteq> None then s\<lparr>apm_events := apm_events s @ [Set_label k v]\<rparr> else s)"

lemma logged_sel [simp]: "world (logged k t s) = world s" "files (logged k t s) = files s"
  by (simp_all add: logged_def)

lemma labelled_sel [simp]: "world (labelled A k v s) = world s" "files (labelled A k v s) = files s"
  by (simp_all add: labelled_def)

lemma thenDo_logged: "thenDo (log_to k LLog t []) n s = n (logged k t s)"
  by (simp add: act_simps logged_def)

lemma log_to_logged: "log_to k LLog t [] s = (Inr (), logged k t s)"
  by (simp add: log_to_def logged_def)

lemma thenDo_labelled: "thenDo (set_label A k v) n s = n (labelled A k v s)"
  by (simp add: act_simps labelled_def)

text \<open>The library calls of \<open>publish\<close> as one call.\<close>

definition payload_call ::
  "('w, 'b) kafka_producer \<Rightarrow> string \<Rightarrow> jv \<Rightarrow> bool \<Rightarrow> ('w, 'b payload) call" where
  "payload_call K topicName v schemaEnabled w =
    (case kp_registry K of
       Some r \<Rightarrow>
         if schemaEnabled then
           (case re_latest r topicName w of
              (Inl e, w1) \<Rightarrow> (Inl e, w1)
            | (Inr i, w1) \<Rightarrow> (case re_encode r i v w1 of (x, w2) \<Rightarrow> (map_sum id Encoded_payload x, w2)))
         else (Inr (Json_payload (json_stringify v)), w)
     | None \<Rightarrow> (Inr (Json_payload (json_stringify v)), w))"

definition send_call ::
  "('w, 'b) kafka_producer \<Rightarrow> apm_conf \<Rightarrow> string \<times> queue_message \<times> bool \<Rightarrow> ('w, jv) call" where
  "send_call K A x w =
    (case x of (topicName, message, schemaEnabled) \<Rightarrow>
       (case payload_call K topicName (qm_value message) schemaEnabled w of
          (Inl e, w1) \<Rightarrow> (Inl e, w1)
        | (Inr v, w1) \<Rightarrow> kp_send K topicName
            \<lparr>om_key = qm_key message, om_value = v, om_headers = trace_headers A\<rparr> w1))"

lemma encode_value_call: "encode_value K t v se = external (payload_call K t v se)"
  by (rule ext) (auto simp: encode_value_def payload_call_def external_def andThen_def returning_eq
      split: option.splits prod.splits sum.splits)

lemma publish_call:
  "publish K A t m se =
    tryCatch
      (thenDo (set_label A ''kafka_producer_topic'' (JStr t))
        (thenDo (log_to TxnLogger LLog (''[KafkaProducerService] Publishing message to '' @ t @ '': '' @
                  json_text (message_jv m)) [])
          (andThen (external (send_call K A (t, m, se))) (\<lambda>result.
            thenDo (log_to TxnLogger LLog (''[KafkaProducerService] Published message to '' @ t) [])
                (returning result)))))
      (\<lambda>e. let err = KafkaProducerServiceError ''Error publishing message to Kafka Producer'' (Some e)
           in thenDo (report TxnLogger A err) (raise err))"
proof -
  have "andThen (external (payload_call K t (qm_value m) se)) (\<lambda>v.
      andThen (external (kp_send K t \<lparr>om_key = qm_key m, om_value = v, om_headers = trace_headers A\<rparr>)) f) =
    andThen (external (send_call K A (t, m, se))) f" for f :: "jv \<Rightarrow> ('a, jv) act"
    by (rule ext) (auto simp: send_call_def external_def andThen_def split: prod.splits sum.splits)
  then show ?thesis by (simp add: publish_def encode_value_call)
qed

definition publishing :: "apm_conf \<Rightarrow> string \<times> queue_message \<times> bool \<Rightarrow> 'w rt \<Rightarrow> 'w rt" where
  "publishing A x s =
    (case x of (t, m, se) \<Rightarrow>
       logged TxnLogger (''[KafkaProducerService] Publishing message to '' @ t @ '': '' @ json_text (message_jv m))
         (labelled A ''kafka_producer_topic'' (JStr t) s))"

interpretation prod_publish: wrapped_call
  "\<lambda>(t, m, se). publish K A t m se" "send_call K A" "\<lambda>_ r. r"
  "\<lambda>_ e. KafkaProducerServiceError ''Error publishing message to Kafka Producer'' (Some e)"
  TxnLogger A "publishing A"
  "\<lambda>(t, m, se) _ s. logged TxnLogger (''[KafkaProducerService] Published message to '' @ t) s"
  for K A
  by unfold_locales
    (auto simp: publish_call publishing_def tryCatch_def thenDo_labelled thenDo_logged andThen_def external_def
      returning_eq thenDo_report raise_eq Let_def)

interpretation prod_connect: wrapped_call
  "\<lambda>_ :: unit. producer_connect K A" "\<lambda>_. kp_connect K" "\<lambda>_ r. r"
  "\<lambda>_ e. KafkaProducerServiceError ''Error connecting to Kafka Producer'' (Some e)"
  AppLogger A "\<lambda>_ s. s" "\<lambda>_ _ s. logged AppLogger ''[KafkaProducerService] Connected to Kafka Producer!!'' s"
  for K A
  by unfold_locales
    (auto simp: producer_connect_def tryCatch_def thenDo_def andThen_def external_def log_to_logged report_eq
      raise_eq Let_def)

interpretation prod_disconnect: wrapped_call
  "\<lambda>_ :: unit. producer_disconnect K A" "\<lambda>_. kp_disconnect K" "\<lambda>_ r. r"
  "\<lambda>_ e. KafkaProducerServiceError ''Error disconnecting from Kafka Producer'' (Some e)"
  AppLogger A "\<lambda>_ s. s" "\<lambda>_ _ s. logged AppLogger ''[KafkaProducerService] Kafka Producer Disconnected!!'' s"
  for K A
  by unfold_locales
    (auto simp: producer_disconnect_def tryCatch_def thenDo_def andThen_def external_def log_to_logged report_eq
      raise_eq Let_def)

end
