(* ===== verification/RedisService.thy ===== *)
theory RedisService
  imports Effects
begin

text \<open>
  \<open>packages/caching-service\<close>: the Redis client's construction from its configuration, the wrapped
  \<open>get\<close>, \<open>set\<close> and \<open>keys\<close>, \<open>disconnect\<close>, and the provider switch. The ioredis client is a
  parameter, a record of its methods over the state of the server.
\<close>

subsection \<open>The client and its configuration\<close>

record 'w ioredis =
  rd_get :: "string \<Rightarrow> ('w, string option) call"
  rd_set :: "jv list \<Rightarrow> ('w, jv) call"
  rd_keys :: "string \<Rightarrow> ('w, string list) call"
  rd_disconnect :: "('w, unit) call"
  rd_setname :: "string \<Rightarrow> ('w, unit) call"

datatype redis_config =
    By_port nat "string option" "jv option"
  | By_path string "jv option"
  | Default_redis

text \<open>The arguments of \<open>new Redis(...)\<close>; an empty host counts as none.\<close>

fun redis_client_args :: "redis_config \<Rightarrow> jv list" where
  "redis_client_args (By_port port host options) =
    (let host_given = (case host of Some h \<Rightarrow> h \<noteq> [] | None \<Rightarrow> False)
     in if host_given \<and> options \<noteq> None then [JNum (int port), JStr (the host), the options]
        else if host_given then [JNum (int port), JStr (the host)]
        else if options \<noteq> None then [JNum (int port), the options]
        else [JNum (int port)])"
| "redis_client_args (By_path path options) =
    (if options \<noteq> None then [JStr path, the options] else [JStr path])"
| "redis_client_args Default_redis = []"

subsection \<open>Connection events\<close>

datatype redis_event = R_connecting | R_connect | R_close | R_error exn

text \<open>
  The handlers the constructor registers: \<open>copts\<close> are the client's options, \<open>app_name\<close> the process's
  \<open>APP_NAME\<close>. A failed \<open>SETNAME\<close> is logged and nothing else.
\<close>

fun redis_on_event ::
  "'w ioredis \<Rightarrow> jv \<Rightarrow> string \<Rightarrow> redis_event \<Rightarrow> ('w, unit) act" where
  "redis_on_event R copts app_name R_connecting = log_to AppLogger LLog ''Connecting to Redis...'' []"
| "redis_on_event R copts app_name R_connect =
    thenDo (log_to AppLogger LLog (''Connected to redis: '' @ json_text copts) [])
      (if truthy (jv_get copts ''connectionName'') then returning ()
       else tryCatch
              (thenDo (external (rd_setname R app_name))
                (log_to AppLogger LLog (''Redis Client name set to: '' @ app_name) []))
              (\<lambda>err. log_to AppLogger LError
                (''Failed to set client name for redis: '' @ exn_text err) []))"
| "redis_on_event R copts app_name R_close = log_to AppLogger LLog ''Redis connection closed'' []"
| "redis_on_event R copts app_name (R_error err) =
    log_to AppLogger LError (''REDIS CONNECTION ERROR: '' @ exn_string err) []"

subsection \<open>Operations\<close>

definition redis_disconnect :: "'w ioredis \<Rightarrow> apm_conf \<Rightarrow> ('w, unit) act" where
  "redis_disconnect R A =
    tryCatch (external (rd_disconnect R))
      (\<lambda>e. report AppLogger A (RedisServiceError ''Error disconnecting from redis'' (Some e)))"

definition redis_get :: "'w ioredis \<Rightarrow> apm_conf \<Rightarrow> string \<Rightarrow> ('w, string option) act" where
  "redis_get R A key =
    tryCatch
      (thenDo (log_to TxnLogger LLog (''Getting key('' @ key @ '') from redis'') [])
        (external (rd_get R key)))
      (\<lambda>e. let err = RedisServiceError (''Error getting key('' @ key @ '')'') (Some e)
           in thenDo (report TxnLogger A err) (raise err))"

text \<open>
  The overloads of \<open>set\<close>: a key and a value, then an expiry, then a condition, then \<open>GET\<close>, each of
  the three optional; \<open>set_args\<close> is the argument list of the chosen overload.
\<close>

datatype set_expiry = SET_EX int | SET_PX int | SET_EXAT int | SET_PXAT int | SET_KEEPTTL

datatype set_condition = SET_NX | SET_XX

record set_overload =
  so_expiry :: "set_expiry option"
  so_condition :: "set_condition option"
  so_get :: bool

fun expiry_args :: "set_expiry \<Rightarrow> jv list" where
  "expiry_args (SET_EX n) = [JStr ''EX'', JNum n]"
| "expiry_args (SET_PX n) = [JStr ''PX'', JNum n]"
| "expiry_args (SET_EXAT n) = [JStr ''EXAT'', JNum n]"
| "expiry_args (SET_PXAT n) = [JStr ''PXAT'', JNum n]"
| "expiry_args SET_KEEPTTL = [JStr ''KEEPTTL'']"

definition set_args :: "string \<Rightarrow> jv \<Rightarrow> set_overload \<Rightarrow> jv list" where
  "set_args key value so =
    [JStr key, value] @
    (case so_expiry so of None \<Rightarrow> [] | Some x \<Rightarrow> expiry_args x) @
    (case so_condition so of None \<Rightarrow> [] | Some SET_NX \<Rightarrow> [JStr ''NX''] | Some SET_XX \<Rightarrow> [JStr ''XX'']) @
    (if so_get so then [JStr ''GET''] else [])"

definition plain_set :: set_overload where
  "plain_set = \<lparr>so_expiry = None, so_condition = None, so_get = False\<rparr>"

text \<open>\<open>args[i]\<close> of the rest parameter, \<open>undefined\<close> past its end.\<close>

definition arg_text :: "jv list \<Rightarrow> nat \<Rightarrow> string" where
  "arg_text args i = jv_string (if i < length args then args ! i else JUndef)"

definition redis_set :: "'w ioredis \<Rightarrow> apm_conf \<Rightarrow> jv list \<Rightarrow> ('w, jv) act" where
  "redis_set R A args =
    tryCatch
      (thenDo (log_to TxnLogger LLog
                (''Setting key('' @ arg_text args 0 @ '') in redis: '' @ arg_text args 1) [])
        (external (rd_set R args)))
      (\<lambda>e. let err = RedisServiceError (''Error setting key('' @ arg_text args 0 @ '')'') (Some e)
           in thenDo (report TxnLogger A err) (raise err))"

definition redis_keys :: "'w ioredis \<Rightarrow> apm_conf \<Rightarrow> string \<Rightarrow> ('w, string list) act" where
  "redis_keys R A pattern =
    tryCatch
      (thenDo (log_to TxnLogger LLog (''Getting keys with pattern: '' @ pattern) [])
        (external (rd_keys R pattern)))
      (\<lambda>e. let err = RedisServiceError (''Error getting keys with pattern: '' @ pattern) (Some e)
           in thenDo (report TxnLogger A err) (raise err))"

subsection \<open>The provider switch\<close>

text \<open>
  \<open>new CachingService(type, config)\<close>: the only provider is Redis, whose client arguments are the
  result; another type is logged, reported and thrown.
\<close>

definition caching_service :: "apm_conf \<Rightarrow> string \<Rightarrow> redis_config \<Rightarrow> ('w, jv list) act" where
  "caching_service A type config =
    (if type = ''redis'' then returning (redis_client_args config)
     else let err = CachingServiceError (''Caching Provider Type Not Supported: '' @ type) None
          in thenDo (report AppLogger A err) (raise err))"

subsection \<open>The operations meet the contract of a wrapped call\<close>

interpretation rget: wrapped_call
  "redis_get R A" "rd_get R" "\<lambda>_ r. r"
  "\<lambda>key e. RedisServiceError (''Error getting key('' @ key @ '')'') (Some e)"
  TxnLogger A
  "\<lambda>key s. s\<lparr>log_lines := log_lines s @ [Log_line TxnLogger LLog (''Getting key('' @ key @ '') from redis'') []]\<rparr>"
  "\<lambda>_ _ s. s"
  for R A
  by unfold_locales
    (simp_all add: redis_get_def tryCatch_def act_simps external_def Let_def)

interpretation rset: wrapped_call
  "redis_set R A" "rd_set R" "\<lambda>_ r. r"
  "\<lambda>args e. RedisServiceError (''Error setting key('' @ arg_text args 0 @ '')'') (Some e)"
  TxnLogger A
  "\<lambda>args s. s\<lparr>log_lines := log_lines s @
     [Log_line TxnLogger LLog (''Setting key('' @ arg_text args 0 @ '') in redis: '' @ arg_text args 1) []]\<rparr>"
  "\<lambda>_ _ s. s"
  for R A
  by unfold_locales
    (simp_all add: redis_set_def tryCatch_def act_simps external_def Let_def)

interpretation rkeys: wrapped_call
  "redis_keys R A" "rd_keys R" "\<lambda>_ r. r"
  "\<lambda>pattern e. RedisServiceError (''Error getting keys with pattern: '' @ pattern) (Some e)"
  TxnLogger A
  "\<lambda>pattern s. s\<lparr>log_lines := log_lines s @
     [Log_line TxnLogger LLog (''Getting keys with pattern: '' @ pattern) []]\<rparr>"
  "\<lambda>_ _ s. s"
  for R A
  by unfold_locales
    (simp_all add: redis_keys_def tryCatch_def act_simps external_def Let_def)

lemma redis_disconnect_never_throws: "\<exists>s'. redis_disconnect R A s = (Inr (), s')"
  by (cases "rd_disconnect R (world s)"; cases "fst (rd_disconnect R (world s))")
    (auto simp: redis_disconnect_def tryCatch_def external_def act_simps)

end
