(* ===== verification/JsonParse.thy ===== *)
theory JsonParse
  imports JsError
begin

text \<open>
  \<open>JSON.parse\<close>: a recursive-descent reader of JSON text, and that it reads back what \<open>JSON.stringify\<close> writes. Strings are those of 8-bit
  units and numbers are integers, as everywhere in the library; what a unit above 255 and a numeral with a fraction or an
  exponent stand for are parameters, as is the text of a \<open>SyntaxError\<close>.
\<close>

subsection \<open>Tokens\<close>

record json_reader =
  jr_unit :: "nat \<Rightarrow> char"
  jr_number :: "string \<Rightarrow> jv"
  jr_error :: "string \<Rightarrow> exn"

definition json_ws :: "char \<Rightarrow> bool" where
  "json_ws c \<longleftrightarrow> (of_char c :: nat) \<in> {9, 10, 13, 32}"

definition skip_ws :: "string \<Rightarrow> string" where
  "skip_ws s = dropWhile json_ws s"

definition hex_value :: "char \<Rightarrow> nat option" where
  "hex_value c =
    (let n = (of_char c :: nat)
     in if 48 \<le> n \<and> n \<le> 57 then Some (n - 48)
        else if 97 \<le> n \<and> n \<le> 102 then Some (n - 87)
        else if 65 \<le> n \<and> n \<le> 70 then Some (n - 55) else None)"

fun hex4 :: "string \<Rightarrow> (nat \<times> string) option" where
  "hex4 (a # b # c # d # s) =
     (case (hex_value a, hex_value b, hex_value c, hex_value d) of
        (Some w, Some x, Some y, Some z) \<Rightarrow> Some (((w * 16 + x) * 16 + y) * 16 + z, s)
      | _ \<Rightarrow> None)"
| "hex4 _ = None"

definition simple_escape :: "char \<Rightarrow> char option" where
  "simple_escape c =
    (if c = char_of (34 :: nat) \<or> c = char_of (92 :: nat) \<or> c = CHR ''/'' then Some c
     else if c = CHR ''b'' then Some (char_of (8 :: nat))
     else if c = CHR ''f'' then Some (char_of (12 :: nat))
     else if c = CHR ''n'' then Some (char_of (10 :: nat))
     else if c = CHR ''r'' then Some (char_of (13 :: nat))
     else if c = CHR ''t'' then Some (char_of (9 :: nat)) else None)"

lemma hex4_shorter: "hex4 s = Some (n, r) \<Longrightarrow> length r < length s"
  by (induction s rule: hex4.induct) (auto split: option.splits)

text \<open>The characters of a string up to its closing quote.\<close>

function json_chars :: "json_reader \<Rightarrow> string \<Rightarrow> (string \<times> string) option" where
  "json_chars R [] = None"
| "json_chars R (c # s) =
     (if c = char_of (34 :: nat) then Some ([], s)
      else if c = char_of (92 :: nat) then
        (case s of
           [] \<Rightarrow> None
         | e # r \<Rightarrow>
             (case (if e = CHR ''u''
                    then map_option (\<lambda>(n, r'). (if n < 256 then char_of n else jr_unit R n, r')) (hex4 r)
                    else map_option (\<lambda>x. (x, r)) (simple_escape e)) of
                None \<Rightarrow> None
              | Some (x, r') \<Rightarrow> map_option (\<lambda>(t, z). (x # t, z)) (json_chars R r')))
      else if (of_char c :: nat) < 32 then None
      else map_option (\<lambda>(t, z). (c # t, z)) (json_chars R s))"
  by pat_completeness auto
termination
  by (relation "measure (\<lambda>(R, s). length s)") (auto dest: hex4_shorter split: if_splits)

lemma json_chars_shorter: "json_chars R s = Some (t, r) \<Longrightarrow> length r < length s"
proof (induction R s arbitrary: t r rule: json_chars.induct)
  case (2 R c s)
  then show ?case by (fastforce split: if_splits list.splits option.splits dest: hex4_shorter)
qed simp

text \<open>A numeral: an optional sign, digits without a leading zero, an optional fraction, an optional exponent.\<close>

definition json_fraction :: "string \<Rightarrow> (string \<times> string) option" where
  "json_fraction s =
    (case s of
       c # r \<Rightarrow> if c = CHR ''.'' then
                  (let ds = takeWhile is_digit r
                   in if ds = [] then None else Some (c # ds, dropWhile is_digit r))
                else Some ([], s)
     | [] \<Rightarrow> Some ([], []))"

definition json_exponent :: "string \<Rightarrow> (string \<times> string) option" where
  "json_exponent s =
    (case s of
       c # r \<Rightarrow> if c = CHR ''e'' \<or> c = CHR ''E'' then
                  (let sgn = takeWhile (\<lambda>x. x = CHR ''+'' \<or> x = CHR ''-'') (take 1 r);
                       r' = drop (length sgn) r; ds = takeWhile is_digit r'
                   in if ds = [] then None else Some (c # sgn @ ds, dropWhile is_digit r'))
                else Some ([], s)
     | [] \<Rightarrow> Some ([], []))"

definition json_number :: "json_reader \<Rightarrow> string \<Rightarrow> (jv \<times> string) option" where
  "json_number R s =
    (let neg = (s \<noteq> [] \<and> hd s = CHR ''-''); s1 = (if neg then tl s else s);
         ds = takeWhile is_digit s1; s2 = dropWhile is_digit s1
     in if ds = [] \<or> (hd ds = CHR ''0'' \<and> ds \<noteq> [CHR ''0'']) then None
        else case json_fraction s2 of
          None \<Rightarrow> None
        | Some (fr, s3) \<Rightarrow>
            (case json_exponent s3 of
               None \<Rightarrow> None
             | Some (ex, s4) \<Rightarrow>
                 Some (if fr = [] \<and> ex = [] then JNum (if neg then - int (read_digits ds) else int (read_digits ds))
                       else jr_number R ((if neg then ''-'' else []) @ ds @ fr @ ex), s4)))"

definition json_literal :: "string \<Rightarrow> (jv \<times> string) option" where
  "json_literal s =
    (if take 4 s = ''null'' then Some (JNull, drop 4 s)
     else if take 4 s = ''true'' then Some (JBool True, drop 4 s)
     else if take 5 s = ''false'' then Some (JBool False, drop 5 s) else None)"

subsection \<open>Values\<close>

lemma skip_ws_shorter: "skip_ws s = c # r \<Longrightarrow> length r < length s"
  using length_dropWhile_le [of json_ws s] by (simp add: skip_ws_def)

text \<open>
  Elements and members are read with what was read before. The comparisons of lengths only serve the termination proof;
  \<open>json_val_shorter\<close> below shows that they always hold. An object's members are own properties, also under the name
  \<open>__proto__\<close>; the last of several members of the same name counts.
\<close>

function json_val :: "json_reader \<Rightarrow> string \<Rightarrow> (jv \<times> string) option"
  and json_elems :: "json_reader \<Rightarrow> jv list \<Rightarrow> string \<Rightarrow> (jv \<times> string) option"
  and json_members :: "json_reader \<Rightarrow> jv js_object \<Rightarrow> string \<Rightarrow> (jv \<times> string) option" where
  "json_val R s =
    (case skip_ws s of
       [] \<Rightarrow> None
     | c # r \<Rightarrow>
         if c = char_of (34 :: nat) then map_option (\<lambda>(t, z). (JStr t, z)) (json_chars R r)
         else if c = CHR ''['' then
           (case skip_ws r of
              [] \<Rightarrow> None
            | d # z \<Rightarrow> if d = CHR '']'' then Some (JArr [], z) else json_elems R [] r)
         else if c = CHR ''{'' then
           (case skip_ws r of
              [] \<Rightarrow> None
            | d # z \<Rightarrow> if d = CHR ''}'' then Some (JObj [], z) else json_members R [] r)
         else if c = CHR ''-'' \<or> is_digit c then json_number R (c # r)
         else json_literal (c # r))"
| "json_elems R acc s =
    (case json_val R s of
       None \<Rightarrow> None
     | Some (v, r) \<Rightarrow>
         (case skip_ws r of
            [] \<Rightarrow> None
          | c # z \<Rightarrow>
              if c = CHR '']'' then Some (JArr (acc @ [v]), z)
              else if c = CHR '','' \<and> length z < length s then json_elems R (acc @ [v]) z else None))"
| "json_members R acc s =
    (case skip_ws s of
       [] \<Rightarrow> None
     | q # s1 \<Rightarrow>
         if q \<noteq> char_of (34 :: nat) then None
         else (case json_chars R s1 of
                 None \<Rightarrow> None
               | Some (k, s2) \<Rightarrow>
                   (case skip_ws s2 of
                      [] \<Rightarrow> None
                    | c # s3 \<Rightarrow>
                        if c \<noteq> CHR '':'' then None
                        else (case json_val R s3 of
                                None \<Rightarrow> None
                              | Some (v, r) \<Rightarrow>
                                  (case skip_ws r of
                                     [] \<Rightarrow> None
                                   | d # z \<Rightarrow>
                                       if d = CHR ''}'' then Some (JObj (js_put k v acc), z)
                                       else if d = CHR '','' \<and> length z < length s
                                       then json_members R (js_put k v acc) z else None)))))"
  by pat_completeness auto
termination
  by (relation "measure (\<lambda>x. case x of Inl (R, s) \<Rightarrow> 2 * length s | Inr (Inl (R, acc, s)) \<Rightarrow> 2 * length s + 1
      | Inr (Inr (R, acc, s)) \<Rightarrow> 2 * length s + 1)")
    (auto dest!: skip_ws_shorter json_chars_shorter)

declare json_val.simps [simp del] json_elems.simps [simp del] json_members.simps [simp del]

definition json_parse :: "json_reader \<Rightarrow> string \<Rightarrow> exn + jv" where
  "json_parse R s =
    (case json_val R s of
       Some (v, r) \<Rightarrow> if skip_ws r = [] then Inr v else Inl (jr_error R s)
     | None \<Rightarrow> Inl (jr_error R s))"

subsection \<open>What a value is read back as\<close>

text \<open>\<open>undefined\<close> is null in an array and left out of an object; \<open>json_ok\<close>: the objects have their properties in the language's order.\<close>

function json_norm :: "jv \<Rightarrow> jv" where
  "json_norm JUndef = JNull"
| "json_norm JNull = JNull"
| "json_norm (JBool b) = JBool b"
| "json_norm (JNum n) = JNum n"
| "json_norm (JStr s) = JStr s"
| "json_norm (JArr vs) = JArr (map json_norm vs)"
| "json_norm (JObj ps) = JObj (map (\<lambda>p. (fst p, json_norm (snd p))) (filter (\<lambda>p. snd p \<noteq> JUndef) ps))"
  by pat_completeness auto
termination
  by (relation "measure size") (auto dest: size_elem size_entry simp del: jv.size)

function json_ok :: "jv \<Rightarrow> bool" where
  "json_ok (JArr vs) = (\<forall>v \<in> set vs. json_ok v)"
| "json_ok (JObj ps) = (js_wf (filter (\<lambda>p. snd p \<noteq> JUndef) ps) \<and> (\<forall>p \<in> set ps. json_ok (snd p)))"
| "json_ok JUndef = True"
| "json_ok JNull = True"
| "json_ok (JBool b) = True"
| "json_ok (JNum n) = True"
| "json_ok (JStr s) = True"
  by pat_completeness auto
termination
  by (relation "measure size") (auto dest: size_elem size_entry simp del: jv.size)

subsection \<open>Progress\<close>

lemma json_fraction_length: "json_fraction s = Some (t, r) \<Longrightarrow> length r \<le> length s"
  using length_dropWhile_le [of is_digit] by (fastforce simp: json_fraction_def Let_def split: list.splits if_splits intro: le_SucI)

lemma json_exponent_length: "json_exponent s = Some (t, r) \<Longrightarrow> length r \<le> length s"
proof -
  have "length (dropWhile is_digit (drop k z)) \<le> length z" for k z
    using length_dropWhile_le [of is_digit "drop k z"] by simp
  then show "json_exponent s = Some (t, r) \<Longrightarrow> length r \<le> length s"
    by (fastforce simp: json_exponent_def Let_def split: list.splits if_splits intro: le_SucI)
qed

lemma json_number_shorter: "json_number R s = Some (v, r) \<Longrightarrow> length r < length s"
proof -
  assume a: "json_number R s = Some (v, r)"
  let ?s1 = "if s \<noteq> [] \<and> hd s = CHR ''-'' then tl s else s"
  from a have "takeWhile is_digit ?s1 \<noteq> []"
    and "length r \<le> length (dropWhile is_digit ?s1)"
    by (auto simp: json_number_def Let_def split: if_splits option.splits
        dest!: json_fraction_length json_exponent_length)
  moreover have "length (takeWhile is_digit ?s1) + length (dropWhile is_digit ?s1) = length ?s1"
    by (metis length_append takeWhile_dropWhile_id)
  moreover have "length ?s1 \<le> length s" by simp
  moreover have "0 < length (takeWhile is_digit ?s1)" using calculation(1) by blast
  ultimately show ?thesis by linarith
qed

lemma json_literal_shorter: "json_literal s = Some (v, r) \<Longrightarrow> length r < length s"
  by (cases s) (auto simp: json_literal_def split: if_splits)

lemma json_val_shorter:
  "json_val R s = Some (v, r) \<Longrightarrow> length r < length s"
  "json_elems R acc s = Some (v, r) \<Longrightarrow> length r < length s"
  "json_members R acc' s = Some (v, r) \<Longrightarrow> length r < length s"
proof (induction R s and R acc s and R acc' s arbitrary: v r and v r and v r
    rule: json_val_json_elems_json_members.induct)
  case (1 R s)
  note u = 1(3) [unfolded json_val.simps [of R s]]
  then obtain c z where s: "skip_ws s = c # z" by (auto split: list.splits)
  note small = skip_ws_shorter [OF s]
  show ?case
  proof (cases "c \<noteq> char_of (34 :: nat) \<and> (c = CHR ''['' \<or> c = CHR ''{'')")
    case True
    then obtain d y where z: "skip_ws z = d # y"
      using u s by (auto split: list.splits if_splits)
    consider "length r < length z" | "r = y"
      using u s z True 1(1,2) [OF s] by (fastforce split: if_splits)
    then show ?thesis using small skip_ws_shorter [OF z] by cases simp_all
  next
    case False
    then show ?thesis
      using u s small
      by (auto split: if_splits dest!: json_chars_shorter json_number_shorter json_literal_shorter)
  qed
next
  case (2 R acc s)
  note u = 2(3) [unfolded json_elems.simps [of R acc s]]
  then obtain x z c y where v: "json_val R s = Some (x, z)" and z: "skip_ws z = c # y"
    by (auto split: list.splits option.splits)
  have "length z < length s" using 2(1) [OF v] .
  moreover have "length y < length z" by (rule skip_ws_shorter [OF z])
  moreover have "r = y \<or> length r < length y"
    using 2(2) [OF v refl z] u v z by (auto split: if_splits)
  ultimately show ?case by auto
next
  case (3 R acc s)
  note u = 3(3) [unfolded json_members.simps [of R acc s]]
  then obtain q s1 k s2 c s3 where s: "skip_ws s = q # s1" and k: "json_chars R s1 = Some (k, s2)"
    and s2: "skip_ws s2 = c # s3" and q: "q = char_of (34 :: nat)" "c = CHR '':''"
    by (auto split: list.splits option.splits if_splits)
  with u obtain x z d y where v: "json_val R s3 = Some (x, z)" and z: "skip_ws z = d # y"
    by (auto split: list.splits option.splits if_splits)
  have "length z < length s3" using 3(1) s k s2 q v by blast
  moreover have "length y < length z" "length s3 < length s2" "length s2 < length s1" "length s1 < length s"
    using skip_ws_shorter z s2 s json_chars_shorter k by blast+
  moreover have "r = y \<or> length r < length y"
    using 3(2) u s k s2 q v z by (auto split: if_splits)
  ultimately show ?case by auto
qed

subsection \<open>Reading what was written\<close>

lemma char_codes: "c = d \<longleftrightarrow> (of_char c :: nat) = of_char d"
  by simp

lemma quote_char: "char_of (34 :: nat) = CHR 0x22"
  by (simp add: char_codes)

lemma hex_value_digit: "n < 16 \<Longrightarrow> hex_value (hex_digit n) = Some n"
  by (simp add: hex_value_def hex_digit_def Let_def)

lemma hex_value_zero: "hex_value CHR ''0'' = Some 0"
  by code_simp

lemma json_chars_char:
  "json_chars R (json_char c @ s) = map_option (\<lambda>(t, z). (c # t, z)) (json_chars R s)"
proof (cases "(of_char c :: nat) < 32")
  case True
  define n where "n = (of_char c :: nat)"
  have c: "c = char_of n" by (simp add: n_def)
  show ?thesis
  proof (cases "n \<in> {8, 9, 10, 12, 13}")
    case True
    then show ?thesis by (auto simp: json_char_def Let_def c simple_escape_def char_codes)
  next
    case False
    have "n < 32" using True n_def by simp
    with False show ?thesis
      by (simp add: json_char_def Let_def c hex_value_digit hex_value_zero char_codes option.map_comp comp_def)
  qed
next
  case False
  then show ?thesis
    by (cases "(of_char c :: nat) \<in> {34, 92}")
      (auto simp: json_char_def Let_def simple_escape_def char_codes)
qed

lemma json_chars_quote:
  "json_chars R (concat (map json_char t) @ char_of (34 :: nat) # z) = Some (t, z)"
  by (induction t) (simp_all add: json_chars_char)

lemma decimal_hd_zero: "hd (decimal n) = CHR ''0'' \<Longrightarrow> decimal n = [CHR ''0'']"
proof (induction n rule: decimal.induct)
  case (1 n)
  show ?case
  proof (cases "n < 10")
    case True
    then show ?thesis using 1(2) by (simp add: decimal.simps [of n] digit_def)
  next
    case False
    then have d: "decimal n = decimal (n div 10) @ [digit (n mod 10)]" by (simp add: decimal.simps [of n])
    then have "decimal (n div 10) = [CHR ''0'']" using 1 False by simp
    moreover have "decimal 0 = ''0''" by code_simp
    ultimately have "n div 10 = 0" using decimal_inj [of "n div 10" 0] by simp
    with False show ?thesis by simp
  qed
qed

definition value_end :: "string \<Rightarrow> bool" where
  "value_end z \<longleftrightarrow> z = [] \<or> hd z \<in> {CHR '','', CHR '']'', CHR ''}''}"

lemma json_number_decimal:
  assumes "value_end z"
  shows "json_number R (decimal_int n @ z) = Some (JNum n, z)"
proof -
  have z: "takeWhile is_digit z = []" "dropWhile is_digit z = z" "json_fraction z = Some ([], z)"
    "json_exponent z = Some ([], z)"
    using assms by (cases z; auto simp: value_end_def is_digit_def json_fraction_def json_exponent_def)+
  have ds: "takeWhile is_digit (decimal m @ z) = decimal m" "dropWhile is_digit (decimal m @ z) = z" for m
    using decimal_digits z by (simp_all add: takeWhile_append2 dropWhile_append2)
  have sign: "hd (decimal m @ z) \<noteq> CHR ''-''" for m
  proof -
    have "is_digit (hd (decimal m))" using decimal_digits [of _ m] by (simp add: hd_in_set)
    then show ?thesis by (auto simp: is_digit_def)
  qed
  show ?thesis
    using ds z sign decimal_hd_zero read_digits_decimal
    by (auto simp: json_number_def decimal_int_def Let_def)
qed

text \<open>How a rendered value begins.\<close>

lemma json_value_start:
  obtains c t where "json_value v = c # t" "\<not> json_ws c" "c \<noteq> CHR '']''" "c \<noteq> CHR ''}''"
proof -
  have "\<exists>c t. json_value v = c # t \<and> \<not> json_ws c \<and> c \<noteq> CHR '']'' \<and> c \<noteq> CHR ''}''"
  proof (cases v)
    case (JNum n)
    have "\<exists>c t. decimal m = c # t \<and> \<not> json_ws c \<and> c \<noteq> CHR '']'' \<and> c \<noteq> CHR ''}''" for m
    proof -
      obtain c t where d: "decimal m = c # t" by (cases "decimal m") simp_all
      then have "is_digit c" using decimal_digits [of c m] by simp
      with d show ?thesis by (auto simp: is_digit_def json_ws_def)
    qed
    then show ?thesis using JNum by (auto simp: decimal_int_def json_ws_def)
  qed (auto simp: json_quote_def json_ws_def quote_char)
  then show thesis using that by blast
qed

lemma skip_ws_start: "\<not> json_ws c \<Longrightarrow> skip_ws (c # t) = c # t"
  by (simp add: skip_ws_def)

lemma skip_ws_value: "skip_ws (json_value v @ z) = json_value v @ z"
  by (rule json_value_start [of v]) (simp add: skip_ws_start)


lemma json_val_start:
  "\<not> json_ws c \<Longrightarrow> json_val R (c # r) =
    (if c = char_of (34 :: nat) then map_option (\<lambda>(t, z). (JStr t, z)) (json_chars R r)
     else if c = CHR ''['' then
       (case skip_ws r of
          [] \<Rightarrow> None
        | d # z \<Rightarrow> if d = CHR '']'' then Some (JArr [], z) else json_elems R [] r)
     else if c = CHR ''{'' then
       (case skip_ws r of
          [] \<Rightarrow> None
        | d # z \<Rightarrow> if d = CHR ''}'' then Some (JObj [], z) else json_members R [] r)
     else if c = CHR ''-'' \<or> is_digit c then json_number R (c # r)
     else json_literal (c # r))"
  by (simp add: json_val.simps [of R "c # r"] skip_ws_start)

definition reads :: "json_reader \<Rightarrow> jv \<Rightarrow> bool" where
  "reads R v \<longleftrightarrow> (\<forall>z. value_end z \<longrightarrow> json_val R (json_value v @ z) = Some (json_norm v, z))"

lemma value_end_sep: "value_end (CHR '','' # z)" "value_end (CHR '']'' # z)" "value_end (CHR ''}'' # z)" "value_end []"
  by (simp_all add: value_end_def)

lemma skip_ws_sep:
  "skip_ws (CHR '','' # z) = CHR '','' # z" "skip_ws (CHR '']'' # z) = CHR '']'' # z"
  "skip_ws (CHR ''}'' # z) = CHR ''}'' # z" "skip_ws (CHR '':'' # z) = CHR '':'' # z"
  "skip_ws (char_of (34 :: nat) # z) = char_of (34 :: nat) # z"
  by (simp_all add: skip_ws_def json_ws_def)

lemma json_elems_read:
  "vs \<noteq> [] \<Longrightarrow> \<forall>v \<in> set vs. reads R v \<Longrightarrow>
    json_elems R acc (join '','' (map json_value vs) @ CHR '']'' # z) = Some (JArr (acc @ map json_norm vs), z)"
proof (induction vs arbitrary: acc)
  case (Cons v vs)
  show ?case
  proof (cases vs)
    case Nil
    then show ?thesis
      using Cons.prems value_end_sep(2) [of z] by (simp add: json_elems.simps reads_def skip_ws_sep)
  next
    case (Cons w ws)
    let ?t = "join '','' (map json_value vs) @ CHR '']'' # z"
    have t: "join '','' (map json_value (v # vs)) @ CHR '']'' # z = json_value v @ CHR '','' # ?t"
      using Cons by simp
    have "json_val R (json_value v @ CHR '','' # ?t) = Some (json_norm v, CHR '','' # ?t)"
      using Cons.prems value_end_sep(1) by (simp add: reads_def)
    moreover have "json_elems R (acc @ [json_norm v]) ?t = Some (JArr ((acc @ [json_norm v]) @ map json_norm vs), z)"
      using Cons.IH [of "acc @ [json_norm v]"] Cons.prems Cons by simp
    ultimately show ?thesis unfolding t by (subst json_elems.simps) (simp add: skip_ws_sep)
  qed
qed simp

definition entry_text :: "string \<times> jv \<Rightarrow> string" where
  "entry_text p = json_quote (fst p) @ '':'' @ json_value (snd p)"

definition entry_norm :: "string \<times> jv \<Rightarrow> string \<times> jv" where
  "entry_norm p = (fst p, json_norm (snd p))"

lemma json_members_step:
  assumes "reads R v" and "value_end (d # z)"
  shows "json_members R acc (entry_text (k, v) @ d # z) =
    (if d = CHR ''}'' then Some (JObj (js_put k (json_norm v) acc), z)
     else if d = CHR '','' then json_members R (js_put k (json_norm v) acc) z else None)"
proof -
  have e: "entry_text (k, v) @ d # z =
      char_of (34 :: nat) # concat (map json_char k) @ char_of (34 :: nat) # CHR '':'' # json_value v @ d # z"
    by (simp add: entry_text_def json_quote_def)
  have "skip_ws (d # z) = d # z" using assms(2) skip_ws_sep by (auto simp: value_end_def)
  then show ?thesis
    using assms unfolding e by (subst json_members.simps) (simp add: skip_ws_sep json_chars_quote reads_def)
qed

lemma json_members_read:
  "ps \<noteq> [] \<Longrightarrow> \<forall>p \<in> set ps. reads R (snd p) \<Longrightarrow> js_wf (acc @ map entry_norm ps) \<Longrightarrow>
    json_members R acc (join '','' (map entry_text ps) @ CHR ''}'' # z) = Some (JObj (acc @ map entry_norm ps), z)"
proof (induction ps arbitrary: acc)
  case (Cons p ps)
  obtain k v where p: "p = (k, v)" by (cases p)
  have "js_wf ((acc @ [entry_norm p]) @ map entry_norm ps)" using Cons.prems(3) by simp
  then have "js_wf (acc @ [entry_norm p])" by (rule js_wf_prefix)
  then have put: "js_put k (json_norm v) acc = acc @ [entry_norm p]" by (simp add: js_wf_snocD p entry_norm_def)
  have v: "reads R v" using Cons.prems(2) p by simp
  show ?case
  proof (cases ps)
    case Nil
    then show ?thesis using json_members_step [OF v value_end_sep(3)] put by (simp add: p)
  next
    case (Cons q qs)
    let ?t = "join '','' (map entry_text ps) @ CHR ''}'' # z"
    have "join '','' (map entry_text (p # ps)) @ CHR ''}'' # z = entry_text (k, v) @ CHR '','' # ?t"
      using Cons p by simp
    then show ?thesis
      using json_members_step [OF v value_end_sep(1)] Cons.IH [of "acc @ [entry_norm p]"] Cons.prems Cons put by simp
  qed
qed simp

lemma json_value_reads: "json_ok v \<Longrightarrow> reads R v"
proof (induction v rule: json_value.induct)
  case (4 n)
  obtain c t where d: "json_value (JNum n) = c # t" "\<not> json_ws c" by (rule json_value_start [of "JNum n"])
  have "c = CHR ''-'' \<or> is_digit c"
    using d(1) decimal_digits [of c "nat n"] by (auto simp: decimal_int_def split: if_splits)
  then have "c \<noteq> char_of (34 :: nat)" "c \<noteq> CHR ''[''" "c \<noteq> CHR ''{''" by (auto simp: is_digit_def quote_char)
  then show ?case
    using d \<open>c = CHR ''-'' \<or> is_digit c\<close> json_number_decimal [of _ R n] by (simp add: reads_def json_val_start)
next
  case (5 s)
  then show ?case
    by (simp add: reads_def json_quote_def json_val_start json_ws_def json_chars_quote)
next
  case (6 vs)
  show ?case
  proof (cases vs)
    case Nil
    then show ?thesis by (simp add: reads_def json_val_start json_ws_def skip_ws_sep quote_char)
  next
    case (Cons w ws)
    obtain c t where w: "json_value w = c # t" "\<not> json_ws c" "c \<noteq> CHR '']''" by (rule json_value_start [of w])
    have "json_elems R [] (join '','' (map json_value vs) @ CHR '']'' # z) = Some (JArr (map json_norm vs), z)" for z
      using json_elems_read [of vs R "[]" z] 6 Cons by simp
    moreover obtain y where "join '','' (map json_value vs) = c # y" using w(1) Cons by (cases ws) simp_all
    ultimately show ?thesis
      using w by (simp add: reads_def json_val_start json_ws_def skip_ws_start quote_char)
  qed
next
  case (7 ps)
  let ?ps = "filter (\<lambda>p. snd p \<noteq> JUndef) ps"
  have written: "json_value (JObj ps) = ''{'' @ join '','' (map entry_text ?ps) @ ''}''" by (simp add: entry_text_def [abs_def])
  have norm: "json_norm (JObj ps) = JObj (map entry_norm ?ps)" by (simp add: entry_norm_def [abs_def])
  show ?case
  proof (cases "?ps = []")
    case True
    then show ?thesis
      unfolding reads_def written norm by (simp add: json_val_start json_ws_def skip_ws_sep quote_char)
  next
    case False
    have "js_wf (map entry_norm ?ps)"
      using 7(2) js_wf_keys [of "map entry_norm ?ps" ?ps] by (simp add: entry_norm_def comp_def)
    then have m: "json_members R [] (join '','' (map entry_text ?ps) @ CHR ''}'' # z) = Some (JObj (map entry_norm ?ps), z)" for z
    proof -
      have "\<forall>p \<in> set ?ps. reads R (snd p)" using 7 by auto
      from json_members_read [OF False this, of "[]" z] \<open>js_wf (map entry_norm ?ps)\<close> show ?thesis by simp
    qed
    obtain p qs where "?ps = p # qs" using False by (cases ?ps) simp_all
    then obtain y where "join '','' (map entry_text ?ps) = char_of (34 :: nat) # y"
      by (cases qs) (simp_all add: entry_text_def json_quote_def)
    then show ?thesis
      using m unfolding reads_def written norm by (simp add: json_val_start json_ws_def skip_ws_start quote_char)
  qed
qed (simp_all add: reads_def json_val_start json_ws_def json_literal_def is_digit_def quote_char)

text \<open>\<open>JSON.parse(JSON.stringify(v))\<close>: the value again, with \<open>undefined\<close> read as null in an array and left out of an object.\<close>

lemma json_parse_value: "json_ok v \<Longrightarrow> json_parse R (json_value v) = Inr (json_norm v)"
  using json_value_reads [of v R] value_end_sep(4) by (force simp: json_parse_def reads_def skip_ws_def)

text \<open>A value without \<open>undefined\<close> comes back as it is.\<close>

function no_undef :: "jv \<Rightarrow> bool" where
  "no_undef (JArr vs) = (\<forall>v \<in> set vs. no_undef v)"
| "no_undef (JObj ps) = (\<forall>p \<in> set ps. no_undef (snd p))"
| "no_undef JUndef = False"
| "no_undef JNull = True"
| "no_undef (JBool b) = True"
| "no_undef (JNum n) = True"
| "no_undef (JStr s) = True"
  by pat_completeness auto
termination
  by (relation "measure size") (auto dest: size_elem size_entry simp del: jv.size)

lemma json_norm_id: "no_undef v \<Longrightarrow> json_norm v = v"
proof (induction v rule: json_value.induct)
  case (6 vs)
  then show ?case by (simp add: map_idI)
next
  case (7 ps)
  have "filter (\<lambda>p. snd p \<noteq> JUndef) ps = ps" using 7(2) by (auto simp: filter_id_conv)
  with 7 show ?case by (simp add: map_idI)
qed simp_all

end
