(* ===== verification/KafkaConsumer.thy ===== *)
theory KafkaConsumer
  imports KafkaProducer RedisService JsonParse
begin

text \<open>
  \<open>packages/queue-service/src/kafka/kafka-consumer-service.ts\<close>: what happens to one message (decoding,
  heartbeat, the offset check against Redis, the processor, the offset's publication, the dead
  letter queue), and how a consumer is created, connected, subscribed, run and disconnected. kafkajs, the
  schema registry and the conversion of a buffer to a string are parameters; a
  message's processor is any action.
\<close>

subsection \<open>Messages\<close>

text \<open>A header as kafkajs has it: undefined, a buffer or a string, or an array of them.\<close>

datatype 'b header = No_header | Header 'b | Header_array "'b list"

type_synonym 'b raw_headers = "(string \<times> 'b header) list"

record 'b kafka_message =
  km_key :: "'b option"
  km_value :: "'b option"
  km_headers :: "'b raw_headers option"
  km_offset :: string

text \<open>A decoded message, with what \<open>value?.toString()\<close> gives for its value.\<close>

record decoded_msg =
  dm_key :: string
  dm_value :: jv
  dm_value_text :: "exn + jv"
  dm_headers :: "(string \<times> jv) list"

record subscription =
  sb_topics :: "string list"
  sb_fromBeginning :: "bool option"
  sb_dlqRequired :: bool
  sb_schemaEnabled :: bool

record ('w, 'c) kafka_client =
  kl_consumer :: "jv \<Rightarrow> ('w, 'c) call"
  kl_connect :: "'c \<Rightarrow> ('w, unit) call"
  kl_subscribe :: "'c \<Rightarrow> string list \<times> bool option \<Rightarrow> ('w, unit) call"
  kl_run :: "'c \<Rightarrow> ('w, unit) call"
  kl_disconnect :: "'c \<Rightarrow> ('w, unit) call"

record ('w, 'b, 'c) kafka_consumer_service =
  kc_client :: "('w, 'c) kafka_client"
  kc_producer :: "('w, 'b) kafka_producer"
  kc_decoder :: "('b \<Rightarrow> ('w, jv \<times> (exn + jv)) call) option"
  kc_cache :: "('w ioredis \<times> apm_conf) option"
  kc_apm :: apm_conf
  kc_text :: "'b \<Rightarrow> string"
  kc_json :: json_reader
  kc_error_json :: "exn \<Rightarrow> jv"

text \<open>\<open>value?.toString()\<close> of a parsed JSON value; an own property of that name is not a function.\<close>

definition value_text :: "jv \<Rightarrow> exn + jv" where
  "value_text v =
    (if nullish v then Inr JUndef
     else case v of
            JObj ps \<Rightarrow> if js_own ps ''toString'' \<noteq> None
                       then Inl (new_TypeError ''message.value?.toString is not a function'')
                       else Inr (JStr ''[object Object]'')
          | _ \<Rightarrow> Inr (JStr (jv_string v)))"

definition run_error :: "string \<Rightarrow> string \<Rightarrow> exn \<Rightarrow> exn" where
  "run_error topic m e = KafkaConsumerRunError topic m (Some e)"

definition wrap_run :: "apm_conf \<Rightarrow> string \<Rightarrow> string \<Rightarrow> exn \<Rightarrow> ('w, 'a) act" where
  "wrap_run A topic m e =
    (let err = run_error topic m e in thenDo (report TxnLogger A err) (raise err))"

definition swallow_run :: "apm_conf \<Rightarrow> string \<Rightarrow> string \<Rightarrow> exn \<Rightarrow> ('w, unit) act" where
  "swallow_run A topic m e = report TxnLogger A (run_error topic m e)"

definition run_log :: "string \<Rightarrow> string \<Rightarrow> ('w, unit) act" where
  "run_log topic t = log_to TxnLogger LLog (''[KafkaConsumerService] [ConsumerRun - '' @ topic @ ''] '' @ t) []"

subsection \<open>The steps for one message\<close>

text \<open>\<open>value?.toString()\<close> of a header; an array joins the texts of its elements.\<close>

fun header_text :: "('b \<Rightarrow> string) \<Rightarrow> 'b header \<Rightarrow> jv" where
  "header_text txt No_header = JUndef"
| "header_text txt (Header b) = JStr (txt b)"
| "header_text txt (Header_array bs) = JStr (join '','' (map txt bs))"

definition parse_message_headers :: "('b \<Rightarrow> string) \<Rightarrow> 'b raw_headers option \<Rightarrow> (string \<times> jv) list" where
  "parse_message_headers txt hs =
    map (\<lambda>(k, v). (k, header_text txt v))
      (filter (\<lambda>(k, v). k \<noteq> ''__proto__'') (case hs of None \<Rightarrow> [] | Some l \<Rightarrow> l))"

definition send_heartbeat ::
  "('w, 'b, 'c) kafka_consumer_service \<Rightarrow> string \<Rightarrow> ('w, unit) call \<Rightarrow> ('w, unit) act" where
  "send_heartbeat C topic heartbeat =
    tryCatch
      (thenDo (run_log topic ''Sending Heartbeat...'') (external heartbeat))
      (swallow_run (kc_apm C) topic
        (''Error in sending heartbeat while consuming message from topic - '' @ topic))"

definition offset_key :: "string \<Rightarrow> string \<Rightarrow> nat \<Rightarrow> string" where
  "offset_key topic groupId part = topic @ '':'' @ groupId @ '':'' @ decimal part"

definition cache_get ::
  "('w, 'b, 'c) kafka_consumer_service \<Rightarrow> string \<Rightarrow> ('w, string option) act" where
  "cache_get C key =
    (case kc_cache C of None \<Rightarrow> returning None | Some (R, A) \<Rightarrow> redis_get R A key)"

text \<open>\<open>a <= b\<close> on the results of \<open>parseInt\<close>, \<open>None\<close> being \<open>NaN\<close>.\<close>

definition num_le :: "int option \<Rightarrow> int option \<Rightarrow> bool" where
  "num_le a b = (case (a, b) of (Some x, Some y) \<Rightarrow> x \<le> y | _ \<Rightarrow> False)"

definition check_offset ::
  "('w, 'b, 'c) kafka_consumer_service \<Rightarrow> string \<Rightarrow> string \<Rightarrow> nat \<Rightarrow> int option \<Rightarrow> ('w, unit) act" where
  "check_offset C topic groupId part messageOffset =
    tryCatch
      (andThen (cache_get C (offset_key topic groupId part)) (\<lambda>topicOffset.
        case topicOffset of
          None \<Rightarrow> returning ()
        | Some t \<Rightarrow>
            if t = [] then returning ()
            else if num_le messageOffset (parse_int t)
            then raise (new_Error (''Message offset is less than the last consumed offset for topic('' @ topic @ '')''))
            else returning ()))
      (wrap_run (kc_apm C) topic (''Error checking offset for message from Kafka topic - '' @ topic))"

definition publish_offset ::
  "('w, 'b, 'c) kafka_consumer_service \<Rightarrow> string \<Rightarrow> string \<Rightarrow> nat \<Rightarrow> string \<Rightarrow> ('w, unit) act" where
  "publish_offset C topic groupId part offset =
    tryCatch
      (case kc_cache C of
         None \<Rightarrow> returning ()
       | Some (R, A) \<Rightarrow>
           thenDo (redis_set R A (set_args (offset_key topic groupId part) (JStr offset) plain_set))
             (returning ()))
      (swallow_run (kc_apm C) topic (''Error publishing offset for message from Kafka topic - '' @ topic))"

definition decode_msg ::
  "('w, 'b, 'c) kafka_consumer_service \<Rightarrow> string \<Rightarrow> 'b kafka_message \<Rightarrow> bool \<Rightarrow> ('w, decoded_msg) act" where
  "decode_msg C topic message schemaEnabled =
    tryCatch
      (thenDo (run_log topic ''Decoding Message...'')
        (andThen
          (case km_value message of
             None \<Rightarrow> returning (JObj [], value_text (JObj []))
           | Some b \<Rightarrow>
               (case kc_decoder C of
                  Some dec \<Rightarrow>
                    if schemaEnabled then external (dec b)
                    else pure_result (map_sum id (\<lambda>v. (v, value_text v)) (json_parse (kc_json C) (kc_text C b)))
                | None \<Rightarrow> pure_result (map_sum id (\<lambda>v. (v, value_text v)) (json_parse (kc_json C) (kc_text C b)))))
          (\<lambda>(v, t). returning
            \<lparr>dm_key = (case km_key message of None \<Rightarrow> [] | Some k \<Rightarrow> kc_text C k),
             dm_value = v, dm_value_text = t,
             dm_headers = parse_message_headers (kc_text C) (km_headers message)\<rparr>)))
      (wrap_run (kc_apm C) topic (''Error decoding message from Kafka topic - '' @ topic))"

definition run_processor ::
  "('w, 'b, 'c) kafka_consumer_service \<Rightarrow> string \<Rightarrow> (decoded_msg \<Rightarrow> ('w, unit) act) \<Rightarrow> decoded_msg \<Rightarrow>
   ('w, unit) act" where
  "run_processor C topic processor msg =
    tryCatch
      (thenDo (run_log topic ''Running Message Processor...'') (processor msg))
      (wrap_run (kc_apm C) topic ''Error running message processor'')"

subsection \<open>The dead letter queue\<close>

definition package_error :: "err_class \<Rightarrow> bool" where
  "package_error c \<longleftrightarrow> c \<notin> {C_Error, C_TypeError, C_LibraryError, C_HttpException}"

text \<open>
  What \<open>JSON.stringify\<close> sees of a thrown value: \<open>name\<close> and \<open>data\<close> of the packages' error classes, whose
  constructors assign them, and \<open>lib\<close> of the error objects of other code.
\<close>

fun exn_jv :: "(exn \<Rightarrow> jv) \<Rightarrow> exn \<Rightarrow> jv" where
  "exn_jv lib (Exn c n m d fs) =
    (if package_error c
     then JObj [(''name'', JStr n), (''data'', case d of None \<Rightarrow> JUndef | Some e \<Rightarrow> exn_jv lib e)]
     else lib (Exn c n m d fs))"
| "exn_jv lib (Thrown v) = v"

definition error_jv :: "(exn \<Rightarrow> jv) \<Rightarrow> exn \<Rightarrow> jv" where
  "error_jv lib e =
    JObj [(''name'', exn_get e ''name''),
          (''data'', case e of Exn c n m (Some d) fs \<Rightarrow> exn_jv lib d | _ \<Rightarrow> JUndef),
          (''message'', exn_get e ''message'')]"

definition dlq_topic :: "string \<Rightarrow> string" where
  "dlq_topic topic = topic @ ''.DLQ''"

definition dlq_message :: "(exn \<Rightarrow> jv) \<Rightarrow> jv \<Rightarrow> jv \<Rightarrow> (string \<times> jv) list \<Rightarrow> exn \<Rightarrow> queue_message" where
  "dlq_message lib key body headers err =
    \<lparr>qm_key = key,
     qm_value = JObj [(''body'', body), (''error'', error_jv lib err), (''headers'', JObj headers),
                      (''error_source'', JStr ''CONSUMER_ERROR'')]\<rparr>"

text \<open>\<open>decodedMsg || message\<close>: the decoded message when decoding got that far, else the raw one.\<close>

definition dlq_key :: "('w, 'b, 'c) kafka_consumer_service \<Rightarrow> decoded_msg option \<Rightarrow> 'b kafka_message \<Rightarrow> jv" where
  "dlq_key C dm message =
    (case dm of Some m \<Rightarrow> JStr (dm_key m)
     | None \<Rightarrow> (case km_key message of None \<Rightarrow> JUndef | Some k \<Rightarrow> JStr (kc_text C k)))"

definition dlq_body :: "('w, 'b, 'c) kafka_consumer_service \<Rightarrow> decoded_msg option \<Rightarrow> 'b kafka_message \<Rightarrow> exn + jv" where
  "dlq_body C dm message =
    (case dm of Some m \<Rightarrow> dm_value_text m
     | None \<Rightarrow> Inr (case km_value message of None \<Rightarrow> JUndef | Some b \<Rightarrow> JStr (kc_text C b)))"

definition publish_to_dlq ::
  "('w, 'b, 'c) kafka_consumer_service \<Rightarrow> string \<Rightarrow> decoded_msg option \<Rightarrow> 'b kafka_message \<Rightarrow> exn \<Rightarrow>
   ('w, unit) act" where
  "publish_to_dlq C topic dm message err =
    tryCatch
      (thenDo (run_log topic ''Publishing to DLQ...'')
        (andThen (pure_result (dlq_body C dm message)) (\<lambda>body.
          thenDo (publish (kc_producer C) (kc_apm C) (dlq_topic topic)
                   (dlq_message (kc_error_json C) (dlq_key C dm message) body
                     (parse_message_headers (kc_text C) (km_headers message)) err) False)
            (returning ()))))
      (swallow_run (kc_apm C) topic (''Error publishing to DLQ for message from Kafka topic - '' @ topic))"

subsection \<open>One message\<close>

text \<open>
  The error the handler of \<open>eachMessage\<close> works with: one that is not a run error yet is wrapped and reported. As in
  \<open>with_data\<close>, the text of a thrown value is total.
\<close>

definition unknown_text :: "exn \<Rightarrow> string" where
  "unknown_text e =
    (case e of
       Thrown v \<Rightarrow> if nullish v \<or> jv_string v = [] then ''Unknown Error'' else jv_string v
     | _ \<Rightarrow> exn_string e)"

definition as_run_error :: "apm_conf \<Rightarrow> string \<Rightarrow> exn \<Rightarrow> ('w, exn) act" where
  "as_run_error A topic e =
    (if instance_of e C_KafkaConsumerRunError then returning e
     else let err = run_error topic (if instance_of e C_Error then exn_text e else unknown_text e) e
          in thenDo (report TxnLogger A err) (returning err))"

definition on_failure ::
  "('w, 'b, 'c) kafka_consumer_service \<Rightarrow> subscription \<Rightarrow> string \<Rightarrow> decoded_msg option \<Rightarrow> 'b kafka_message \<Rightarrow>
   exn \<Rightarrow> ('w, unit) act" where
  "on_failure C sub topic dm message e =
    andThen (as_run_error (kc_apm C) topic e) (\<lambda>err.
      if sb_dlqRequired sub then publish_to_dlq C topic dm message err else returning ())"

definition message_log :: "string \<Rightarrow> decoded_msg \<Rightarrow> 'b kafka_message \<Rightarrow> nat \<Rightarrow> ('w, unit) act" where
  "message_log topic dm message part =
    run_log topic (''----- EACHMESSAGES ----   '' @ json_text (JObj
      [(''topic'', JStr topic), (''key'', JStr (dm_key dm)),
       (''value'', if truthy (dm_value dm) then dm_value dm else JStr []),
       (''headers'', JObj (dm_headers dm)), (''offset'', JStr (km_offset message)),
       (''partition'', JNum (int part))]))"

definition handle_decoded ::
  "('w, 'b, 'c) kafka_consumer_service \<Rightarrow> string \<Rightarrow> string \<Rightarrow> nat \<Rightarrow> (decoded_msg \<Rightarrow> ('w, unit) act) \<Rightarrow>
   ('w, unit) call \<Rightarrow> 'b kafka_message \<Rightarrow> decoded_msg \<Rightarrow> ('w, unit) act" where
  "handle_decoded C groupId topic part processor heartbeat message dm =
    thenDo (message_log topic dm message part)
     (thenDo (send_heartbeat C topic heartbeat)
       (andThen (attempt (check_offset C topic groupId part (parse_int (km_offset message)))) (\<lambda>checked.
         case checked of
           Inl _ \<Rightarrow> returning ()
         | Inr _ \<Rightarrow>
             thenDo (set_label (kc_apm C) ''kafka_consumer_key'' (JStr (dm_key dm)))
              (thenDo (run_processor C topic processor dm)
                (publish_offset C topic groupId part (km_offset message))))))"

definition each_message ::
  "('w, 'b, 'c) kafka_consumer_service \<Rightarrow> string \<Rightarrow> subscription \<Rightarrow> (decoded_msg \<Rightarrow> ('w, unit) act) \<Rightarrow>
   string \<Rightarrow> nat \<Rightarrow> ('w, unit) call \<Rightarrow> 'b kafka_message \<Rightarrow> ('w, unit) act" where
  "each_message C groupId sub processor topic part heartbeat message =
    thenDo (set_label (kc_apm C) ''kafka_consumer_topic'' (JStr topic))
     (andThen (attempt (decode_msg C topic message (sb_schemaEnabled sub))) (\<lambda>decoded.
       case decoded of
         Inl e \<Rightarrow> on_failure C sub topic None message e
       | Inr dm \<Rightarrow>
           tryCatch (handle_decoded C groupId topic part processor heartbeat message dm)
             (on_failure C sub topic (Some dm) message)))"

subsection \<open>Consumers\<close>

definition consumer_connect :: "('w, 'b, 'c) kafka_consumer_service \<Rightarrow> 'c \<Rightarrow> ('w, unit) act" where
  "consumer_connect C consumer =
    tryCatch (external (kl_connect (kc_client C) consumer))
      (\<lambda>e. let err = KafkaConsumerServiceError ''Error connecting to Kafka Consumer'' (Some e)
           in thenDo (report TxnLogger (kc_apm C) err) (raise err))"

definition subscribe_topics ::
  "('w, 'b, 'c) kafka_consumer_service \<Rightarrow> 'c \<Rightarrow> subscription \<Rightarrow> ('w, unit) act" where
  "subscribe_topics C consumer sub =
    tryCatch (external (kl_subscribe (kc_client C) consumer (sb_topics sub, sb_fromBeginning sub)))
      (\<lambda>e. let err = KafkaConsumerServiceError
                  (''Error subscribing to topics - '' @ join '','' (sb_topics sub)) (Some e)
           in thenDo (report TxnLogger (kc_apm C) err) (raise err))"

definition run_consumer ::
  "('w, 'b, 'c) kafka_consumer_service \<Rightarrow> 'c \<Rightarrow> subscription \<Rightarrow> ('w, unit) act" where
  "run_consumer C consumer sub =
    tryCatch (external (kl_run (kc_client C) consumer))
      (\<lambda>e. let err = KafkaConsumerRunError (join '', '' (sb_topics sub))
                  (''Error running Kafka Consumer for topics - '' @ join '','' (sb_topics sub)) (Some e)
           in thenDo (report TxnLogger (kc_apm C) err) (raise err))"

text \<open>\<open>{ sessionTimeout: 300000, heartbeatInterval: 3000, ...consumerConfig }\<close>\<close>

definition consumer_options :: "(string \<times> jv) list \<Rightarrow> jv" where
  "consumer_options cfg =
    JObj (fold (\<lambda>(k, v) o'. js_put k v o') cfg
      [(''sessionTimeout'', JNum 300000), (''heartbeatInterval'', JNum 3000)])"

text \<open>\<open>consume\<close> and \<open>subscribe\<close>: the list of the service's consumers is threaded through.\<close>

definition subscribe ::
  "('w, 'b, 'c) kafka_consumer_service \<Rightarrow> 'c list \<Rightarrow> (string \<times> jv) list \<Rightarrow> subscription \<Rightarrow> ('w, 'c list) act" where
  "subscribe C consumers cfg sub =
    andThen (external (kl_consumer (kc_client C) (consumer_options cfg))) (\<lambda>consumer.
      thenDo (consumer_connect C consumer)
       (thenDo (subscribe_topics C consumer sub)
         (thenDo (run_consumer C consumer sub)
           (thenDo (log_to TxnLogger LLog
                     (''[KafkaConsumerService] Subscribed To Topics: '' @ join '', '' (sb_topics sub)) [])
             (returning (consumers @ [consumer]))))))"

definition consumers_disconnect :: "('w, 'b, 'c) kafka_consumer_service \<Rightarrow> 'c list \<Rightarrow> ('w, unit) act" where
  "consumers_disconnect C consumers =
    tryCatch
      (thenDo (external (all_calls (kl_disconnect (kc_client C)) consumers))
        (thenDo (log_to AppLogger LLog ''[KafkaConsumer] Kafka Consumers Disconnected!!'' [])
          (case kc_cache C of None \<Rightarrow> returning () | Some (R, A) \<Rightarrow> redis_disconnect R A)))
      (\<lambda>e. let err = KafkaConsumerServiceError ''Error disconnecting from Kafka Consumers'' (Some e)
           in thenDo (report AppLogger (kc_apm C) err) (raise err))"

end
