(* ===== verification/Consumption.thy ===== *)
theory Consumption
  imports KafkaConsumer
begin

text \<open>
  What a consumer guarantees about a message: its handler always returns, a message whose offset is
  not beyond the stored one is not processed, success stores the offset, failure sends one
  message to the dead letter queue, and stored offsets only grow.
\<close>

subsection \<open>Actions that never throw\<close>

definition never_throws :: "('w, 'a) act \<Rightarrow> bool" where
  "never_throws m \<longleftrightarrow> (\<forall>s. \<exists>a s'. m s = (Inr a, s'))"

lemma never_throws_returning: "never_throws (returning a)"
  by (simp add: never_throws_def returning_eq)

lemma never_throws_log: "never_throws (log_to k l t vs)"
  by (simp add: never_throws_def log_to_def)

lemma never_throws_label: "never_throws (set_label A k v)"
  by (simp add: never_throws_def set_label_def)

lemma never_throws_report: "never_throws (report k A e)"
  by (simp add: never_throws_def report_eq)

lemma never_throws_attempt: "never_throws (attempt m)"
  by (simp add: never_throws_def attempt_def split: prod.split)

lemma never_throws_andThen: "never_throws m \<Longrightarrow> (\<And>a. never_throws (f a)) \<Longrightarrow> never_throws (andThen m f)"
  unfolding never_throws_def andThen_def by (metis (no_types, lifting) case_prod_conv sum.case(2))

lemma never_throws_thenDo: "never_throws m \<Longrightarrow> never_throws n \<Longrightarrow> never_throws (thenDo m n)"
  by (simp add: thenDo_def never_throws_andThen)

lemma never_throws_tryCatch:
  assumes "\<And>e. never_throws (h e)" shows "never_throws (tryCatch m h)"
proof -
  have "\<exists>a s'. tryCatch m h s = (Inr a, s')" for s
    using assms by (cases "m s"; cases "fst (m s)") (auto simp: tryCatch_def never_throws_def)
  then show ?thesis by (simp add: never_throws_def)
qed

lemma never_throws_swallow: "never_throws (swallow_run A t m e)"
  by (simp add: swallow_run_def never_throws_report)

lemmas never_throws_intros = never_throws_returning never_throws_log never_throws_label never_throws_report
  never_throws_attempt never_throws_andThen never_throws_thenDo never_throws_tryCatch never_throws_swallow

lemma never_throws_on_failure: "never_throws (on_failure C sub topic dm message e)"
  unfolding on_failure_def as_run_error_def publish_to_dlq_def Let_def
  by (auto intro!: never_throws_intros)

lemma each_message_never_throws_step:
  "\<exists>s'. each_message C groupId sub processor topic part heartbeat message s = (Inr (), s')"
proof -
  have "never_throws (each_message C groupId sub processor topic part heartbeat message)"
    unfolding each_message_def
    by (intro never_throws_intros) (auto split: sum.split intro!: never_throws_on_failure never_throws_tryCatch)
  then show ?thesis by (simp add: never_throws_def)
qed

text \<open>
  C20: The handler of a message never throws, whatever decoding, the heartbeat, Redis, the processor
  and the dead letter queue do: every failure ends in it, so that kafkajs counts each message as consumed.
\<close>

theorem each_message_never_throws:
  "\<exists>s'. each_message C groupId sub processor topic part heartbeat message s = (Inr (), s')"
  by (rule each_message_never_throws_step)

subsection \<open>The steps that only report\<close>

lemma attempt_eq: "m s = (r, s') \<Longrightarrow> attempt m s = (Inr r, s')"
  by (simp add: attempt_def)

lemma andThen_attempt: "m s = (r, s') \<Longrightarrow> andThen (attempt m) f s = f r s'"
  by (simp add: andThen_def attempt_def)

lemma keeps_swallow: "keeps world (swallow_run A t m e)"
  by (simp add: swallow_run_def keeps_report)

lemma keeps_wrap: "keeps world (wrap_run A t m e)"
  by (simp add: wrap_run_def Let_def keeps_thenDo keeps_report keeps_raise)

lemma send_heartbeat_world:
  "\<exists>s'. send_heartbeat C topic hb s = (Inr (), s') \<and> world s' = snd (hb (world s)) \<and> files s' = files s"
  by (cases "hb (world s)"; cases "fst (hb (world s))")
    (auto simp: send_heartbeat_def tryCatch_def run_log_def act_simps external_def swallow_run_def)

lemma publish_offset_world:
  "\<exists>s'. publish_offset C topic g part off s = (Inr (), s') \<and>
    world s' = (case kc_cache C of None \<Rightarrow> world s
      | Some (R, A) \<Rightarrow> snd (rd_set R [JStr (offset_key topic g part), JStr off] (world s))) \<and>
    files s' = files s"
proof (cases "kc_cache C")
  case None
  then show ?thesis by (simp add: publish_offset_def tryCatch_def returning_eq)
next
  case (Some RA)
  obtain R A where RA: "RA = (R, A)" by (cases RA)
  let ?args = "[JStr (offset_key topic g part), JStr off]"
  have w: "world (snd (redis_set R A ?args s)) = snd (rd_set R ?args (world s))"
    by (rule rset.world_after)
  have f: "files (snd (redis_set R A ?args s)) = files s" by (rule rset.files_after)
  show ?thesis
    using w f Some RA
    by (cases "redis_set R A ?args s"; cases "fst (redis_set R A ?args s)")
      (auto simp: publish_offset_def set_args_def plain_set_def tryCatch_def thenDo_def andThen_def returning_eq
        swallow_run_def report_eq)
qed

lemma check_offset_world:
  "world (snd (check_offset C topic g part n s)) =
    (case kc_cache C of None \<Rightarrow> world s | Some (R, A) \<Rightarrow> snd (rd_get R (offset_key topic g part) (world s)))"
proof (cases "kc_cache C")
  case None
  then show ?thesis by (simp add: check_offset_def cache_get_def tryCatch_def andThen_def returning_eq)
next
  case (Some RA)
  obtain R A where RA: "RA = (R, A)" by (cases RA)
  have w: "world (snd (redis_get R A (offset_key topic g part) s)) = snd (rd_get R (offset_key topic g part) (world s))"
    by (rule rget.world_after)
  show ?thesis
    using w Some RA
    by (cases "redis_get R A (offset_key topic g part) s"; cases "fst (redis_get R A (offset_key topic g part) s)")
      (auto simp: check_offset_def cache_get_def tryCatch_def andThen_def returning_eq raise_eq wrap_run_def
        thenDo_report Let_def split: option.split)
qed

lemma check_offset_outcome:
  "(\<exists>u. fst (check_offset C topic g part n s) = Inr u) \<longleftrightarrow>
    (case kc_cache C of None \<Rightarrow> True
     | Some (R, A) \<Rightarrow>
         (case fst (rd_get R (offset_key topic g part) (world s)) of
            Inl e \<Rightarrow> False
          | Inr None \<Rightarrow> True
          | Inr (Some t) \<Rightarrow> t = [] \<or> \<not> num_le n (parse_int t)))"
proof (cases "kc_cache C")
  case None
  then show ?thesis by (simp add: check_offset_def cache_get_def tryCatch_def andThen_def returning_eq)
next
  case (Some RA)
  obtain R A where RA: "RA = (R, A)" by (cases RA)
  let ?k = "offset_key topic g part"
  have o: "fst (redis_get R A ?k s) =
      map_sum (\<lambda>e. RedisServiceError (''Error getting key('' @ ?k @ '')'') (Some e)) (\<lambda>r. r) (fst (rd_get R ?k (world s)))"
    by (rule rget.outcome)
  show ?thesis
    using o Some RA
    by (cases "redis_get R A ?k s"; cases "fst (rd_get R ?k (world s))")
      (auto simp: check_offset_def cache_get_def tryCatch_def andThen_def returning_eq raise_eq wrap_run_def
        thenDo_report Let_def split: option.split)
qed

text \<open>Whether a message with this offset is new for the stored one; a cache that cannot answer says no.\<close>

definition offset_new ::
  "('w, 'b, 'c) kafka_consumer_service \<Rightarrow> string \<Rightarrow> string \<Rightarrow> nat \<Rightarrow> int option \<Rightarrow> 'w \<Rightarrow> bool" where
  "offset_new C topic g part n w =
    (case kc_cache C of None \<Rightarrow> True
     | Some (R, A) \<Rightarrow>
         (case fst (rd_get R (offset_key topic g part) w) of
            Inl e \<Rightarrow> False
          | Inr None \<Rightarrow> True
          | Inr (Some t) \<Rightarrow> t = [] \<or> \<not> num_le n (parse_int t)))"

definition after_check ::
  "('w, 'b, 'c) kafka_consumer_service \<Rightarrow> string \<Rightarrow> string \<Rightarrow> nat \<Rightarrow> 'w \<Rightarrow> 'w" where
  "after_check C topic g part w =
    (case kc_cache C of None \<Rightarrow> w | Some (R, A) \<Rightarrow> snd (rd_get R (offset_key topic g part) w))"

lemma keeps_files_check_offset: "keeps files (check_offset C topic g part n)"
proof -
  have "keeps files (redis_get R A k)" for R A k by (simp add: keeps_def rget.files_after)
  then have "keeps files (cache_get C k)" for k
    by (auto simp: cache_get_def intro!: keeps_intros split: option.split)
  then show ?thesis
    by (auto simp: check_offset_def wrap_run_def Let_def intro!: keeps_intros split: option.split)
qed

lemma check_offset_cases:
  obtains (new) s' where "offset_new C topic g part n (world s)" "check_offset C topic g part n s = (Inr (), s')"
      "world s' = after_check C topic g part (world s)" "files s' = files s"
    | (old) e s' where "\<not> offset_new C topic g part n (world s)" "check_offset C topic g part n s = (Inl e, s')"
      "world s' = after_check C topic g part (world s)" "files s' = files s"
proof -
  obtain r s' where c: "check_offset C topic g part n s = (r, s')" by (cases "check_offset C topic g part n s")
  have w: "world s' = after_check C topic g part (world s)"
    using check_offset_world [of C topic g part n s] c by (simp add: after_check_def)
  have o: "(\<exists>u. r = Inr u) \<longleftrightarrow> offset_new C topic g part n (world s)"
    using check_offset_outcome [of C topic g part n s] c by (simp add: offset_new_def)
  have f: "files s' = files s" using keepsD [OF keeps_files_check_offset c] .
  show ?thesis using that c w o f by (cases r) auto
qed

definition after_heartbeat :: "('w, unit) call \<Rightarrow> 'w \<Rightarrow> 'w" where
  "after_heartbeat hb w = snd (hb w)"

lemma handle_decoded_start:
  "\<exists>s1. world s1 = after_heartbeat hb (world s) \<and> files s1 = files s \<and>
    handle_decoded C g topic part processor hb message dm s =
      andThen (attempt (check_offset C topic g part (parse_int (km_offset message)))) (\<lambda>checked.
         case checked of
           Inl _ \<Rightarrow> returning ()
         | Inr _ \<Rightarrow>
             thenDo (set_label (kc_apm C) ''kafka_consumer_key'' (JStr (dm_key dm)))
              (thenDo (run_processor C topic processor dm)
                (publish_offset C topic g part (km_offset message)))) s1"
proof -
  obtain s0 where 0: "message_log topic dm message part s = (Inr (), s0)" "world s0 = world s"
    "files s0 = files s"
    by (simp add: message_log_def run_log_def log_to_def)
  obtain s1 where 1: "send_heartbeat C topic hb s0 = (Inr (), s1)" "world s1 = after_heartbeat hb (world s)"
    "files s1 = files s"
    using send_heartbeat_world [of C topic hb s0] 0(2,3) by (auto simp: after_heartbeat_def)
  have "thenDo (message_log topic dm message part) (thenDo (send_heartbeat C topic hb) m) s = m s1" for m :: "('a, unit) act"
    using 0(1) 1(1) by (simp add: thenDo_def andThen_def)
  then show ?thesis using 1(2,3) unfolding handle_decoded_def by blast
qed

lemma handle_decoded_old:
  assumes "\<not> offset_new C topic g part (parse_int (km_offset message)) (after_heartbeat hb (world s))"
  shows "\<exists>s'. handle_decoded C g topic part processor hb message dm s = (Inr (), s') \<and>
    world s' = after_check C topic g part (after_heartbeat hb (world s))"
proof -
  obtain s1 where s1: "world s1 = after_heartbeat hb (world s)"
    and h: "handle_decoded C g topic part processor hb message dm s =
      andThen (attempt (check_offset C topic g part (parse_int (km_offset message)))) (\<lambda>checked.
         case checked of
           Inl _ \<Rightarrow> returning ()
         | Inr _ \<Rightarrow>
             thenDo (set_label (kc_apm C) ''kafka_consumer_key'' (JStr (dm_key dm)))
              (thenDo (run_processor C topic processor dm)
                (publish_offset C topic g part (km_offset message)))) s1"
    using handle_decoded_start by blast
  show ?thesis
    using assms h s1
    by (cases rule: check_offset_cases [of C topic g part "parse_int (km_offset message)" s1])
      (simp_all add: andThen_attempt returning_eq)
qed

lemma handle_decoded_new:
  assumes "offset_new C topic g part (parse_int (km_offset message)) (after_heartbeat hb (world s))"
  shows "\<exists>s1. world s1 = after_check C topic g part (after_heartbeat hb (world s)) \<and> files s1 = files s \<and>
    handle_decoded C g topic part processor hb message dm s =
      thenDo (run_processor C topic processor dm) (publish_offset C topic g part (km_offset message)) s1"
proof -
  obtain s1 where s1: "world s1 = after_heartbeat hb (world s)" "files s1 = files s"
    and h: "handle_decoded C g topic part processor hb message dm s =
      andThen (attempt (check_offset C topic g part (parse_int (km_offset message)))) (\<lambda>checked.
         case checked of
           Inl _ \<Rightarrow> returning ()
         | Inr _ \<Rightarrow>
             thenDo (set_label (kc_apm C) ''kafka_consumer_key'' (JStr (dm_key dm)))
              (thenDo (run_processor C topic processor dm)
                (publish_offset C topic g part (km_offset message)))) s1"
    using handle_decoded_start by blast
  show ?thesis
  proof (cases rule: check_offset_cases [of C topic g part "parse_int (km_offset message)" s1])
    case (new s2)
    then show ?thesis
      using h s1
      by (intro exI [of _ "labelled (kc_apm C) ''kafka_consumer_key'' (JStr (dm_key dm)) s2"])
        (simp add: andThen_attempt thenDo_labelled)
  next
    case old
    with assms s1 show ?thesis by simp
  qed
qed

text \<open>\<open>decoded_to C topic message se w = Some (dm, w')\<close>: decoding gives \<open>dm\<close> and leaves the world \<open>w'\<close>.\<close>

definition decoded_to ::
  "('w, 'b, 'c) kafka_consumer_service \<Rightarrow> 'b kafka_message \<Rightarrow> bool \<Rightarrow> ('w, decoded_msg) call" where
  "decoded_to C message se w =
    (let pack = (\<lambda>(v, t). \<lparr>dm_key = (case km_key message of None \<Rightarrow> [] | Some k \<Rightarrow> kc_text C k),
                    dm_value = v, dm_value_text = t,
                    dm_headers = parse_message_headers (kc_text C) (km_headers message)\<rparr>);
         json = (\<lambda>b. map_sum id (\<lambda>v. (v, value_text v)) (json_parse (kc_json C) (kc_text C b)))
     in case km_value message of
          None \<Rightarrow> (Inr (pack (JObj [], value_text (JObj []))), w)
        | Some b \<Rightarrow>
            (case kc_decoder C of
               Some dec \<Rightarrow>
                 if se then (case dec b w of (r, w') \<Rightarrow> (map_sum id pack r, w'))
                 else (map_sum id pack (json b), w)
             | None \<Rightarrow> (map_sum id pack (json b), w)))"

definition decode_error :: "string \<Rightarrow> exn \<Rightarrow> exn" where
  "decode_error topic e = run_error topic (''Error decoding message from Kafka topic - '' @ topic) e"

lemma andThen_external_pure:
  "andThen (external c) (\<lambda>a. returning (f a)) = external (\<lambda>w. case c w of (r, w') \<Rightarrow> (map_sum id f r, w'))"
  by (rule ext) (auto simp: andThen_def external_def returning_eq split: prod.splits sum.splits)

lemma andThen_pure_pure:
  "andThen (pure_result r) (\<lambda>a. returning (f a)) = external (\<lambda>w. (map_sum id f r, w))"
  by (rule ext) (auto simp: andThen_def external_def returning_eq pure_result_def split: sum.splits)

lemma andThen_returning_pure: "andThen (returning a) (\<lambda>a. returning (f a)) = external (\<lambda>w. (Inr (f a), w))"
  by (rule ext) (simp add: andThen_def external_def returning_eq)

lemmas decode_calls = andThen_external_pure andThen_pure_pure andThen_returning_pure

lemma decode_msg_call:
  "decode_msg C topic message se =
    tryCatch (thenDo (run_log topic ''Decoding Message...'') (external (decoded_to C message se)))
      (wrap_run (kc_apm C) topic (''Error decoding message from Kafka topic - '' @ topic))"
proof -
  let ?pack = "\<lambda>(v, t). \<lparr>dm_key = (case km_key message of None \<Rightarrow> [] | Some k \<Rightarrow> kc_text C k),
      dm_value = v, dm_value_text = t, dm_headers = parse_message_headers (kc_text C) (km_headers message)\<rparr>"
  have pack: "(\<lambda>(v, t). returning (?pack (v, t))) = (\<lambda>x. returning (?pack x))" by (simp add: fun_eq_iff)
  have "andThen
      (case km_value message of
         None \<Rightarrow> returning (JObj [], value_text (JObj []))
       | Some b \<Rightarrow>
           (case kc_decoder C of
              Some dec \<Rightarrow>
                if se then external (dec b)
                else pure_result (map_sum id (\<lambda>v. (v, value_text v)) (json_parse (kc_json C) (kc_text C b)))
            | None \<Rightarrow> pure_result (map_sum id (\<lambda>v. (v, value_text v)) (json_parse (kc_json C) (kc_text C b)))))
      (\<lambda>x. returning (?pack x)) = external (decoded_to C message se)"
    unfolding decoded_to_def Let_def
    by (cases "km_value message"; cases "kc_decoder C"; cases se) (simp_all add: decode_calls)
  then show ?thesis unfolding decode_msg_def pack [simplified] by (simp add: case_prod_unfold)
qed

interpretation decoding: wrapped_call
  "\<lambda>(topic, message, se). decode_msg C topic message se"
  "\<lambda>(topic, message, se). decoded_to C message se" "\<lambda>_ r. r"
  "\<lambda>(topic, message, se). decode_error topic"
  TxnLogger "kc_apm C"
  "\<lambda>(topic, message, se). logged TxnLogger
     (''[KafkaConsumerService] [ConsumerRun - '' @ topic @ ''] '' @ ''Decoding Message...'')"
  "\<lambda>_ _ s. s"
  for C
  by unfold_locales
    (auto simp: decode_msg_call tryCatch_def run_log_def thenDo_logged external_def wrap_run_def decode_error_def
      thenDo_report raise_eq Let_def)

subsection \<open>What becomes of a message\<close>

lemma each_message_decoded:
  assumes "decoded_to C message (sb_schemaEnabled sub) (world s) = (Inr dm, w1)"
  shows "\<exists>s1. world s1 = w1 \<and> files s1 = files s \<and>
    each_message C g sub processor topic part hb message s =
      tryCatch (handle_decoded C g topic part processor hb message dm) (on_failure C sub topic (Some dm) message) s1"
proof -
  let ?s0 = "labelled (kc_apm C) ''kafka_consumer_topic'' (JStr topic) s"
  have d: "decoded_to C message (sb_schemaEnabled sub) (world ?s0) = (Inr dm, w1)" using assms by simp
  obtain r s1 where m: "decode_msg C topic message (sb_schemaEnabled sub) ?s0 = (r, s1)"
    by (cases "decode_msg C topic message (sb_schemaEnabled sub) ?s0")
  have "r = Inr dm" "world s1 = w1" "files s1 = files s"
    using decoding.outcome [of C "(topic, message, sb_schemaEnabled sub)" ?s0]
      decoding.world_after [of C "(topic, message, sb_schemaEnabled sub)" ?s0]
      decoding.files_after [of C "(topic, message, sb_schemaEnabled sub)" ?s0] m d by simp_all
  then show ?thesis using m by (auto simp: each_message_def thenDo_labelled andThen_attempt)
qed

text \<open>
  At most once per offset: when Redis holds an offset for the topic, group and partition that is
  not below the message's, the message is dropped -- the processor is not run, nothing is stored and nothing
  is sent; the world is what decoding, the heartbeat and the read of the offset left.
\<close>

theorem consumed_offset_is_skipped:
  assumes "decoded_to C message (sb_schemaEnabled sub) (world s) = (Inr dm, w1)"
    and "kc_cache C = Some (R, A)"
    and "rd_get R (offset_key topic g part) (after_heartbeat hb w1) = (Inr (Some (decimal m)), w2)"
    and "km_offset message = decimal n" and "n \<le> m"
  shows "\<exists>s'. each_message C g sub processor topic part hb message s = (Inr (), s') \<and> world s' = w2"
proof -
  obtain s1 where s1: "world s1 = w1" "each_message C g sub processor topic part hb message s =
      tryCatch (handle_decoded C g topic part processor hb message dm) (on_failure C sub topic (Some dm) message) s1"
    using each_message_decoded [OF assms(1)] by blast
  have "\<not> offset_new C topic g part (parse_int (km_offset message)) (after_heartbeat hb (world s1))"
    using assms s1(1) by (simp add: offset_new_def num_le_def parse_int_decimal)
  from handle_decoded_old [OF this, of processor dm] obtain s' where
    "handle_decoded C g topic part processor hb message dm s1 = (Inr (), s')"
    "world s' = after_check C topic g part (after_heartbeat hb (world s1))"
    by blast
  then show ?thesis using s1 assms(2,3) by (simp add: tryCatch_def after_check_def)
qed

text \<open>
  C27: When Redis cannot be read, the message is dropped in the same way: it is not processed, and although
  the subscription asks for a dead letter queue, it is not sent there either; being counted as consumed, it is lost.
\<close>

theorem unreadable_offset_loses_message:
  assumes "decoded_to C message (sb_schemaEnabled sub) (world s) = (Inr dm, w1)"
    and "kc_cache C = Some (R, A)"
    and "rd_get R (offset_key topic g part) (after_heartbeat hb w1) = (Inl e, w2)"
  shows "\<exists>s'. each_message C g sub processor topic part hb message s = (Inr (), s') \<and> world s' = w2"
proof -
  obtain s1 where s1: "world s1 = w1" "each_message C g sub processor topic part hb message s =
      tryCatch (handle_decoded C g topic part processor hb message dm) (on_failure C sub topic (Some dm) message) s1"
    using each_message_decoded [OF assms(1)] by blast
  have "\<not> offset_new C topic g part (parse_int (km_offset message)) (after_heartbeat hb (world s1))"
    using assms s1(1) by (simp add: offset_new_def)
  from handle_decoded_old [OF this, of processor dm] obtain s' where
    "handle_decoded C g topic part processor hb message dm s1 = (Inr (), s')"
    "world s' = after_check C topic g part (after_heartbeat hb (world s1))"
    by blast
  then show ?thesis using s1 assms(2,3) by (simp add: tryCatch_def after_check_def)
qed

text \<open>What a processor does to the world, whatever the logs hold: it returns, or it throws \<open>e\<close>.\<close>

definition runs_to ::
  "(decoded_msg \<Rightarrow> ('w, unit) act) \<Rightarrow> decoded_msg \<Rightarrow> 'w \<Rightarrow> exn + unit \<Rightarrow> 'w \<Rightarrow> bool" where
  "runs_to processor dm w r w' \<longleftrightarrow> (\<forall>s. world s = w \<longrightarrow> (\<exists>s'. processor dm s = (r, s') \<and> world s' = w'))"

lemma run_processor_runs:
  assumes "runs_to processor dm (world s) r w'"
  shows "\<exists>s'. run_processor C topic processor dm s =
      (map_sum (run_error topic ''Error running message processor'') id r, s') \<and> world s' = w'"
proof -
  let ?s = "logged TxnLogger (''[KafkaConsumerService] [ConsumerRun - '' @ topic @ ''] '' @ ''Running Message Processor...'') s"
  obtain s' where "processor dm ?s = (r, s')" "world s' = w'"
    using assms by (auto simp: runs_to_def dest: spec [of _ ?s])
  then show ?thesis
    by (cases r)
      (auto simp: run_processor_def tryCatch_def run_log_def thenDo_logged wrap_run_def Let_def thenDo_report raise_eq)
qed

text \<open>
  A message with a new offset whose processor returns is followed by one write to Redis: its offset under
  the key of topic, group and partition; nothing is sent to the dead letter queue.
\<close>

theorem processed_message_stores_offset:
  assumes "decoded_to C message (sb_schemaEnabled sub) (world s) = (Inr dm, w1)"
    and "kc_cache C = Some (R, A)"
    and "offset_new C topic g part (parse_int (km_offset message)) (after_heartbeat hb w1)"
    and "runs_to processor dm (after_check C topic g part (after_heartbeat hb w1)) (Inr ()) w2"
  shows "\<exists>s'. each_message C g sub processor topic part hb message s = (Inr (), s') \<and>
    world s' = snd (rd_set R [JStr (offset_key topic g part), JStr (km_offset message)] w2)"
proof -
  obtain s1 where s1: "world s1 = w1" "each_message C g sub processor topic part hb message s =
      tryCatch (handle_decoded C g topic part processor hb message dm) (on_failure C sub topic (Some dm) message) s1"
    using each_message_decoded [OF assms(1)] by blast
  obtain s2 where s2: "world s2 = after_check C topic g part (after_heartbeat hb w1)"
    "handle_decoded C g topic part processor hb message dm s1 =
      thenDo (run_processor C topic processor dm) (publish_offset C topic g part (km_offset message)) s2"
    using handle_decoded_new [of C topic g part message hb s1 processor dm] assms(3) s1(1) by auto
  obtain s3 where "run_processor C topic processor dm s2 = (Inr (), s3)" "world s3 = w2"
    using run_processor_runs [of processor dm s2 "Inr ()" w2] assms(4) s2(1) by auto
  then show ?thesis
    using publish_offset_world [of C topic g part "km_offset message" s3] s1(2) s2(2) assms(2)
    by (auto simp: tryCatch_def thenDo_def andThen_def)
qed

lemma publish_world:
  "world (snd (publish K A t m se s)) = snd (send_call K A (t, m, se) (world s))"
  using prod_publish.world_after [of K A "(t, m, se)" s] by simp

lemma publish_to_dlq_world:
  assumes "dlq_body C dm message = Inr body"
  shows "\<exists>s'. publish_to_dlq C topic dm message err s = (Inr (), s') \<and>
    world s' = snd (kp_send (kc_producer C) (dlq_topic topic)
      \<lparr>om_key = dlq_key C dm message,
       om_value = Json_payload (json_stringify (qm_value (dlq_message (kc_error_json C) (dlq_key C dm message) body
         (parse_message_headers (kc_text C) (km_headers message)) err))),
       om_headers = trace_headers (kc_apm C)\<rparr> (world s)) \<and> files s' = files s"
proof -
  let ?m = "dlq_message (kc_error_json C) (dlq_key C dm message) body
    (parse_message_headers (kc_text C) (km_headers message)) err"
  let ?s = "logged TxnLogger (''[KafkaConsumerService] [ConsumerRun - '' @ topic @ ''] '' @ ''Publishing to DLQ...'') s"
  have "world (snd (publish (kc_producer C) (kc_apm C) (dlq_topic topic) ?m False ?s)) =
      snd (send_call (kc_producer C) (kc_apm C) (dlq_topic topic, ?m, False) (world s))"
    by (simp add: publish_world)
  also have "\<dots> = snd (kp_send (kc_producer C) (dlq_topic topic)
      \<lparr>om_key = dlq_key C dm message, om_value = Json_payload (json_stringify (qm_value ?m)),
       om_headers = trace_headers (kc_apm C)\<rparr> (world s))"
    by (auto simp: send_call_def payload_call_def dlq_message_def split: option.split)
  finally have w: "world (snd (publish (kc_producer C) (kc_apm C) (dlq_topic topic) ?m False ?s)) =
      snd (kp_send (kc_producer C) (dlq_topic topic)
      \<lparr>om_key = dlq_key C dm message, om_value = Json_payload (json_stringify (qm_value ?m)),
       om_headers = trace_headers (kc_apm C)\<rparr> (world s))" .
  have f: "files (snd (publish (kc_producer C) (kc_apm C) (dlq_topic topic) ?m False ?s)) = files s"
    using prod_publish.files_after [of "kc_producer C" "kc_apm C" "(dlq_topic topic, ?m, False)" ?s] by simp
  show ?thesis
    using assms w f
    by (cases "publish (kc_producer C) (kc_apm C) (dlq_topic topic) ?m False ?s";
        cases "fst (publish (kc_producer C) (kc_apm C) (dlq_topic topic) ?m False ?s)")
      (auto simp: publish_to_dlq_def tryCatch_def run_log_def log_to_logged andThen_def pure_result_def thenDo_def
        returning_eq swallow_run_def report_eq)
qed

lemma on_failure_run_error:
  "sb_dlqRequired sub \<Longrightarrow> instance_of e C_KafkaConsumerRunError \<Longrightarrow>
    on_failure C sub topic dm message e s = publish_to_dlq C topic dm message e s"
  by (simp add: on_failure_def as_run_error_def andThen_def returning_eq)

lemma instance_of_wrapped: "instance_of (run_error topic m e) C_KafkaConsumerRunError"
  by (simp add: run_error_def instance_of_run_error)

text \<open>The one message the dead letter queue gets, as the producer sends it.\<close>

definition dlq_out ::
  "('w, 'b, 'c) kafka_consumer_service \<Rightarrow> decoded_msg option \<Rightarrow> 'b kafka_message \<Rightarrow> jv \<Rightarrow> exn \<Rightarrow> 'b out_message" where
  "dlq_out C dm message body err =
    \<lparr>om_key = dlq_key C dm message,
     om_value = Json_payload (JStr (json_value (JObj
       [(''body'', body), (''error'', error_jv (kc_error_json C) err),
        (''headers'', JObj (parse_message_headers (kc_text C) (km_headers message))),
        (''error_source'', JStr ''CONSUMER_ERROR'')]))),
     om_headers = trace_headers (kc_apm C)\<rparr>"

lemma publish_to_dlq_out:
  "dlq_body C dm message = Inr body \<Longrightarrow>
    \<exists>s'. publish_to_dlq C topic dm message err s = (Inr (), s') \<and>
      world s' = snd (kp_send (kc_producer C) (dlq_topic topic) (dlq_out C dm message body err) (world s)) \<and>
      files s' = files s"
  using publish_to_dlq_world [of C dm message body topic err s]
  by (simp add: dlq_out_def dlq_message_def json_stringify_def del: json_value.simps)

text \<open>
  When the processor throws, the offset is not stored and the dead letter queue of the topic gets one
  message: the key of the message, its body as text, its headers, the wrapped error and the source mark.
\<close>

theorem failed_message_goes_to_dlq:
  assumes "decoded_to C message (sb_schemaEnabled sub) (world s) = (Inr dm, w1)"
    and "offset_new C topic g part (parse_int (km_offset message)) (after_heartbeat hb w1)"
    and "runs_to processor dm (after_check C topic g part (after_heartbeat hb w1)) (Inl e) w2"
    and "sb_dlqRequired sub" and "dm_value_text dm = Inr body"
  shows "\<exists>s'. each_message C g sub processor topic part hb message s = (Inr (), s') \<and>
    world s' = snd (kp_send (kc_producer C) (topic @ ''.DLQ'')
      (dlq_out C (Some dm) message body (run_error topic ''Error running message processor'' e)) w2)"
proof -
  obtain s1 where s1: "world s1 = w1" "each_message C g sub processor topic part hb message s =
      tryCatch (handle_decoded C g topic part processor hb message dm) (on_failure C sub topic (Some dm) message) s1"
    using each_message_decoded [OF assms(1)] by blast
  obtain s2 where s2: "world s2 = after_check C topic g part (after_heartbeat hb w1)"
    "handle_decoded C g topic part processor hb message dm s1 =
      thenDo (run_processor C topic processor dm) (publish_offset C topic g part (km_offset message)) s2"
    using handle_decoded_new [of C topic g part message hb s1 processor dm] assms(2) s1(1) by auto
  let ?err = "run_error topic ''Error running message processor'' e"
  obtain s3 where s3: "run_processor C topic processor dm s2 = (Inl ?err, s3)" "world s3 = w2"
    using run_processor_runs [of processor dm s2 "Inl e" w2] assms(3) s2(1) by auto
  have "each_message C g sub processor topic part hb message s = publish_to_dlq C topic (Some dm) message ?err s3"
    using s1(2) s2(2) s3(1) on_failure_run_error [OF assms(4) instance_of_wrapped]
    by (simp add: tryCatch_def thenDo_def andThen_def)
  then show ?thesis
    using publish_to_dlq_out [of C "Some dm" message body topic ?err s3] assms(5) s3(2)
    by (auto simp: dlq_body_def dlq_topic_def)
qed

text \<open>
  A message that cannot be decoded goes to the dead letter queue as it arrived; neither the heartbeat,
  nor Redis, nor the processor is reached.
\<close>

theorem undecodable_message_goes_to_dlq:
  assumes "decoded_to C message (sb_schemaEnabled sub) (world s) = (Inl e, w1)"
    and "sb_dlqRequired sub" and "km_value message = Some b"
  shows "\<exists>s'. each_message C g sub processor topic part hb message s = (Inr (), s') \<and>
    world s' = snd (kp_send (kc_producer C) (topic @ ''.DLQ'')
      (dlq_out C None message (JStr (kc_text C b)) (decode_error topic e)) w1)"
proof -
  let ?s0 = "labelled (kc_apm C) ''kafka_consumer_topic'' (JStr topic) s"
  obtain r s1 where m: "decode_msg C topic message (sb_schemaEnabled sub) ?s0 = (r, s1)"
    by (cases "decode_msg C topic message (sb_schemaEnabled sub) ?s0")
  have r: "r = Inl (decode_error topic e)" "world s1 = w1"
    using decoding.outcome [of C "(topic, message, sb_schemaEnabled sub)" ?s0]
      decoding.world_after [of C "(topic, message, sb_schemaEnabled sub)" ?s0] m assms(1) by simp_all
  have "each_message C g sub processor topic part hb message s =
      publish_to_dlq C topic None message (decode_error topic e) s1"
    using m r(1) on_failure_run_error [OF assms(2) instance_of_wrapped]
    by (simp add: each_message_def thenDo_labelled andThen_attempt decode_error_def)
  then show ?thesis
    using publish_to_dlq_out [of C None message "JStr (kc_text C b)" topic "decode_error topic e" s1] assms(3) r(2)
    by (auto simp: dlq_body_def dlq_topic_def)
qed

text \<open>
  A message with a new offset, whatever its processor looks at: the processor runs in a state with the world that
  reading the offset left and the files as they were, and its outcome decides between the offset and the dead letter
  queue.
\<close>

lemma each_message_new:
  assumes "decoded_to C message (sb_schemaEnabled sub) (world s) = (Inr dm, w1)"
    and "offset_new C topic g part (parse_int (km_offset message)) (after_heartbeat hb w1)"
    and "sb_dlqRequired sub" and "dm_value_text dm = Inr body"
  obtains t r t' s' where "world t = after_check C topic g part (after_heartbeat hb w1)" and "files t = files s"
    and "processor dm t = (r, t')" and "each_message C g sub processor topic part hb message s = (Inr (), s')"
    and "files s' = files t'"
    and "world s' = (case r of
       Inr _ \<Rightarrow> (case kc_cache C of None \<Rightarrow> world t'
         | Some (R, A) \<Rightarrow> snd (rd_set R [JStr (offset_key topic g part), JStr (km_offset message)] (world t')))
     | Inl e \<Rightarrow> snd (kp_send (kc_producer C) (topic @ ''.DLQ'')
         (dlq_out C (Some dm) message body (run_error topic ''Error running message processor'' e)) (world t')))"
proof -
  obtain s1 where s1: "world s1 = w1" "files s1 = files s" "each_message C g sub processor topic part hb message s =
      tryCatch (handle_decoded C g topic part processor hb message dm) (on_failure C sub topic (Some dm) message) s1"
    using each_message_decoded [OF assms(1)] by blast
  obtain s2 where s2: "world s2 = after_check C topic g part (after_heartbeat hb w1)" "files s2 = files s"
    "handle_decoded C g topic part processor hb message dm s1 =
      thenDo (run_processor C topic processor dm) (publish_offset C topic g part (km_offset message)) s2"
    using handle_decoded_new [of C topic g part message hb s1 processor dm] assms(2) s1(1,2) by auto
  obtain t where t: "world t = world s2" "files t = files s2" and run: "run_processor C topic processor dm s2 =
      tryCatch (processor dm) (wrap_run (kc_apm C) topic ''Error running message processor'') t"
    by (rule that [of "logged TxnLogger (''[KafkaConsumerService] [ConsumerRun - '' @ topic @ ''] '' @
      ''Running Message Processor...'') s2"]) (simp_all add: run_processor_def tryCatch_def run_log_def thenDo_logged)
  obtain r t' where p: "processor dm t = (r, t')" by (cases "processor dm t")
  note start = that [OF _ _ p, unfolded t s2(1,2), OF refl refl]
  show thesis
  proof (cases r)
    case (Inr u)
    obtain s' where s': "publish_offset C topic g part (km_offset message) t' = (Inr (), s')" "files s' = files t'"
      "world s' = (case kc_cache C of None \<Rightarrow> world t'
         | Some (R, A) \<Rightarrow> snd (rd_set R [JStr (offset_key topic g part), JStr (km_offset message)] (world t')))"
      using publish_offset_world by blast
    have "each_message C g sub processor topic part hb message s = (Inr (), s')"
      using Inr p run s1(3) s2(3) s'(1) by (simp add: tryCatch_def thenDo_def andThen_def)
    from start [OF this s'(2)] s'(3) Inr show thesis by simp
  next
    case (Inl e)
    let ?err = "run_error topic ''Error running message processor'' e"
    let ?t' = "reported TxnLogger (kc_apm C) ?err t'"
    have "dlq_body C (Some dm) message = Inr body" using assms(4) by (simp add: dlq_body_def)
    from publish_to_dlq_out [OF this] obtain s' where s':
      "publish_to_dlq C topic (Some dm) message ?err ?t' = (Inr (), s')" "files s' = files t'"
      "world s' = snd (kp_send (kc_producer C) (topic @ ''.DLQ'') (dlq_out C (Some dm) message body ?err) (world t'))"
      unfolding dlq_topic_def by fastforce
    have "run_processor C topic processor dm s2 = (Inl ?err, ?t')"
      using p Inl run by (simp add: tryCatch_def wrap_run_def Let_def thenDo_report raise_eq)
    then have "each_message C g sub processor topic part hb message s = on_failure C sub topic (Some dm) message ?err ?t'"
      using s1(3) s2(3) by (simp add: tryCatch_def thenDo_def andThen_def)
    also have "\<dots> = publish_to_dlq C topic (Some dm) message ?err ?t'"
      by (rule on_failure_run_error [OF assms(3) instance_of_wrapped])
    also have "\<dots> = (Inr (), s')" by (rule s'(1))
    finally have "each_message C g sub processor topic part hb message s = (Inr (), s')" .
    from start [OF this s'(2)] s'(3) Inl show thesis by simp
  qed
qed

subsection \<open>Stored offsets only grow\<close>

text \<open>
  What is relied on of Redis, \<open>cached\<close> being its contents: reading returns the value and changes nothing, and a write
  has happened or, when it rejects, may have happened.
\<close>

definition redis_laws :: "'w ioredis \<Rightarrow> ('w \<Rightarrow> string \<Rightarrow> string option) \<Rightarrow> bool" where
  "redis_laws R cached \<longleftrightarrow>
    (\<forall>k w r w'. rd_get R k w = (r, w') \<longrightarrow> cached w' = cached w \<and> (\<forall>v. r = Inr v \<longrightarrow> v = cached w k)) \<and>
    (\<forall>k v w r w'. rd_set R [JStr k, JStr v] w = (r, w') \<longrightarrow>
       cached w' = cached w \<or> cached w' = (cached w)(k \<mapsto> v))"

text \<open>The other parties of a message do not write the consumer's offsets.\<close>

definition leave_cache ::
  "('w, 'b, 'c) kafka_consumer_service \<Rightarrow> (decoded_msg \<Rightarrow> ('w, unit) act) \<Rightarrow> ('w \<Rightarrow> string \<Rightarrow> string option) \<Rightarrow> bool" where
  "leave_cache C processor cached \<longleftrightarrow>
    (\<forall>dm. keeps (\<lambda>s. cached (world s)) (processor dm)) \<and>
    (\<forall>dec b w. kc_decoder C = Some dec \<longrightarrow> cached (snd (dec b w)) = cached w) \<and>
    (\<forall>t m w. cached (snd (kp_send (kc_producer C) t m w)) = cached w)"

lemma keeps_world_of: "keeps world m \<Longrightarrow> keeps (\<lambda>s. f (world s)) m"
  by (simp add: keeps_def)

lemma keeps_on_failure:
  assumes "leave_cache C processor cached" shows "keeps (\<lambda>s. cached (world s)) (on_failure C sub topic dm message e)"
proof -
  have "keeps (\<lambda>s. cached (world s)) (publish (kc_producer C) (kc_apm C) t m False)" for t m
    using assms by (auto simp: keeps_def publish_world send_call_def payload_call_def leave_cache_def split: option.split)
  then have "keeps (\<lambda>s. cached (world s)) (publish_to_dlq C topic dm message err)" for err
    unfolding publish_to_dlq_def run_log_def
    by (intro keeps_tryCatch keeps_thenDo keeps_andThen keeps_pure keeps_returning keeps_world_of [OF keeps_log(1)]
        keeps_world_of [OF keeps_swallow])
  then show ?thesis
    unfolding on_failure_def as_run_error_def Let_def
    by (auto intro!: keeps_andThen keeps_thenDo keeps_returning keeps_world_of [OF keeps_report(1)])
qed

lemma keeps_run_processor:
  "leave_cache C processor cached \<Longrightarrow> keeps (\<lambda>s. cached (world s)) (run_processor C topic processor dm)"
  unfolding run_processor_def run_log_def leave_cache_def
  by (intro keeps_tryCatch keeps_thenDo keeps_world_of [OF keeps_log(1)] keeps_world_of [OF keeps_wrap]) blast

text \<open>One message leaves the offsets alone or has stored its own, having found it new.\<close>

definition offset_step ::
  "('w, 'b, 'c) kafka_consumer_service \<Rightarrow> string \<Rightarrow> string \<Rightarrow> nat \<Rightarrow> ('w \<Rightarrow> string \<Rightarrow> string option) \<Rightarrow> string \<Rightarrow>
   'w \<Rightarrow> 'w \<Rightarrow> bool" where
  "offset_step C topic g part cached off w w' \<longleftrightarrow>
    cached w' = cached w \<or>
    ((\<exists>v. cached v = cached w \<and> offset_new C topic g part (parse_int off) v) \<and>
     cached w' = (cached w)(offset_key topic g part \<mapsto> off))"

lemma handle_decoded_offset_step:
  assumes "leave_cache C processor cached" and "kc_cache C = Some (R, A)" and "redis_laws R cached"
    and "\<And>w. cached (snd (hb w)) = cached w"
    and "handle_decoded C g topic part processor hb message dm s = (r, s')"
  shows "offset_step C topic g part cached (km_offset message) (world s) (world s')"
proof -
  let ?key = "offset_key topic g part" and ?off = "km_offset message"
  have hb: "cached (after_heartbeat hb w) = cached w" for w using assms(4) by (simp add: after_heartbeat_def)
  have get: "cached (after_check C topic g part w) = cached w" for w
    using assms(2,3) by (cases "rd_get R ?key w") (auto simp: after_check_def redis_laws_def)
  show ?thesis
  proof (cases "offset_new C topic g part (parse_int ?off) (after_heartbeat hb (world s))")
    case False
    then show ?thesis
      using handle_decoded_old [OF False, of processor dm] assms(5) hb get by (auto simp: offset_step_def)
  next
    case True
    obtain s1 where s1: "world s1 = after_check C topic g part (after_heartbeat hb (world s))"
      "handle_decoded C g topic part processor hb message dm s =
        thenDo (run_processor C topic processor dm) (publish_offset C topic g part ?off) s1"
      using handle_decoded_new [OF True] by blast
    obtain x s2 where run: "run_processor C topic processor dm s1 = (x, s2)"
      by (cases "run_processor C topic processor dm s1")
    have kept: "cached (world s2) = cached (world s)"
      using keepsD [OF keeps_run_processor [OF assms(1)] run] s1(1) hb get by simp
    show ?thesis
    proof (cases x)
      case (Inl e)
      then show ?thesis using assms(5) s1(2) run kept by (simp add: thenDo_def andThen_def offset_step_def)
    next
      case (Inr u)
      obtain s3 where s3: "publish_offset C topic g part ?off s2 = (Inr (), s3)"
        "world s3 = snd (rd_set R [JStr ?key, JStr ?off] (world s2))"
        using publish_offset_world [of C topic g part ?off s2] assms(2) by auto
      have "cached (world s3) = cached (world s2) \<or> cached (world s3) = (cached (world s2))(?key \<mapsto> ?off)"
        using assms(3) s3(2) unfolding redis_laws_def
        by (cases "rd_set R [JStr ?key, JStr ?off] (world s2)") auto
      moreover have "s' = s3" using assms(5) s1(2) run Inr s3(1) by (simp add: thenDo_def andThen_def)
      ultimately show ?thesis using kept True hb unfolding offset_step_def by metis
    qed
  qed
qed

lemma each_message_offset_step:
  assumes "leave_cache C processor cached" and "kc_cache C = Some (R, A)" and "redis_laws R cached"
    and "\<And>w. cached (snd (hb w)) = cached w"
    and "each_message C g sub processor topic part hb message s = (r, s')"
  shows "offset_step C topic g part cached (km_offset message) (world s) (world s')"
proof -
  let ?s0 = "labelled (kc_apm C) ''kafka_consumer_topic'' (JStr topic) s"
  obtain x s1 where m: "decode_msg C topic message (sb_schemaEnabled sub) ?s0 = (x, s1)"
    by (cases "decode_msg C topic message (sb_schemaEnabled sub) ?s0")
  have "cached (snd (decoded_to C message (sb_schemaEnabled sub) w)) = cached w" for w
    using assms(1) by (auto simp: decoded_to_def leave_cache_def Let_def split: option.split prod.split)
      (metis snd_conv)+
  then have decoded: "cached (world s1) = cached (world s)"
    using decoding.world_after [of C "(topic, message, sb_schemaEnabled sub)" ?s0] m by simp
  note fails = keepsD [OF keeps_on_failure [OF assms(1)]]
  show ?thesis
  proof (cases x)
    case (Inl e)
    then have "on_failure C sub topic None message e s1 = (r, s')"
      using assms(5) m by (simp add: each_message_def thenDo_labelled andThen_attempt)
    from fails [OF this] decoded show ?thesis by (simp add: offset_step_def)
  next
    case (Inr dm)
    obtain y s2 where h: "handle_decoded C g topic part processor hb message dm s1 = (y, s2)"
      by (cases "handle_decoded C g topic part processor hb message dm s1")
    have after: "cached (world s') = cached (world s2)"
      using assms(5) m Inr h fails
      by (cases y) (auto simp: each_message_def thenDo_labelled andThen_attempt tryCatch_def)
    show ?thesis
      using handle_decoded_offset_step [OF assms(1-4) h] decoded after by (simp add: offset_step_def)
  qed
qed

lemma offset_step_grows:
  assumes "kc_cache C = Some (R, A)" and "redis_laws R cached"
    and "offset_step C topic g part cached (decimal n) w w'"
    and "cached w (offset_key topic g part) = Some (decimal m)"
  shows "\<exists>m' \<ge> m. cached w' (offset_key topic g part) = Some (decimal m')"
proof (cases "cached w' = cached w")
  case True
  then show ?thesis using assms(4) by auto
next
  case False
  then obtain v where v: "cached v = cached w" "offset_new C topic g part (parse_int (decimal n)) v"
    and w': "cached w' = (cached w)(offset_key topic g part \<mapsto> decimal n)"
    using assms(3) by (auto simp: offset_step_def)
  obtain r v' where g: "rd_get R (offset_key topic g part) v = (r, v')" by (cases "rd_get R (offset_key topic g part) v")
  then have "r = Inr x \<Longrightarrow> x = Some (decimal m)" for x
    using assms(2,4) v(1) unfolding redis_laws_def by metis
  then have "m \<le> n"
    using v(2) g assms(1) by (cases r) (auto simp: offset_new_def num_le_def parse_int_decimal decimal_not_Nil)
  then show ?thesis using w' by auto
qed

text \<open>
  C15: Over any sequence of messages of a partition -- repeated, out of order, failing or not -- the stored offset never
  decreases, and a message whose offset is not beyond one that was ever stored is refused by the offset check.
\<close>

theorem stored_offset_never_decreases:
  assumes "leave_cache C processor cached" and "kc_cache C = Some (R, A)" and "redis_laws R cached"
    and "\<And>w. cached (snd (hb w)) = cached w"
    and "\<forall>message \<in> set messages. \<exists>n. km_offset message = decimal n"
    and "for_each (each_message C g sub processor topic part hb) messages s = (r, s')"
    and "cached (world s) (offset_key topic g part) = Some (decimal m)" and "k \<le> m"
  shows "(\<exists>m' \<ge> m. cached (world s') (offset_key topic g part) = Some (decimal m')) \<and>
    (\<exists>e s''. check_offset C topic g part (parse_int (decimal k)) s' = (Inl e, s''))"
proof -
  have grown: "\<exists>m' \<ge> m. cached (world s') (offset_key topic g part) = Some (decimal m')"
    using assms(5-7)
  proof (induction messages arbitrary: s m)
    case Nil
    then show ?case by (auto simp: returning_eq)
  next
    case (Cons message messages)
    obtain s1 where 1: "each_message C g sub processor topic part hb message s = (Inr (), s1)"
      using each_message_never_throws_step by blast
    obtain n where n: "km_offset message = decimal n" using Cons.prems(1) by auto
    have "offset_step C topic g part cached (decimal n) (world s) (world s1)"
      using each_message_offset_step [OF assms(1-4) 1] n by simp
    then obtain m1 where m1: "m1 \<ge> m" "cached (world s1) (offset_key topic g part) = Some (decimal m1)"
      using offset_step_grows [OF assms(2,3)] Cons.prems(3) by blast
    have "for_each (each_message C g sub processor topic part hb) messages s1 = (r, s')"
      using Cons.prems(2) 1 by (simp add: thenDo_def andThen_def)
    from Cons.IH [OF _ this m1(2)] Cons.prems(1) obtain m' where
      "m1 \<le> m'" "cached (world s') (offset_key topic g part) = Some (decimal m')"
      by auto
    then show ?case using m1(1) le_trans by blast
  qed
  then obtain m' where m': "m' \<ge> m" "cached (world s') (offset_key topic g part) = Some (decimal m')" by blast
  obtain x w where g: "rd_get R (offset_key topic g part) (world s') = (x, w)"
    by (cases "rd_get R (offset_key topic g part) (world s')")
  then have "x = Inr y \<Longrightarrow> y = Some (decimal m')" for y using assms(3) m'(2) unfolding redis_laws_def by metis
  then have "\<not> offset_new C topic g part (parse_int (decimal k)) (world s')"
    using g assms(2,8) m'(1)
    by (cases x) (auto simp: offset_new_def num_le_def parse_int_decimal decimal_not_Nil)
  then show ?thesis
    using grown by (cases rule: check_offset_cases [of C topic g part "parse_int (decimal k)" s']) auto
qed

subsection \<open>The statements in a concrete world\<close>

text \<open>The contents of Redis, the messages sent, the keys processed.\<close>

type_synonym sample_world = "(string \<Rightarrow> string option) \<times> (string \<times> string out_message) list \<times> string list"

definition sample_redis :: "bool \<Rightarrow> sample_world ioredis" where
  "sample_redis up =
    \<lparr>rd_get = (\<lambda>k (c, w). (if up then Inr (c k) else Inl (new_Error ''ECONNREFUSED''), (c, w))),
     rd_set = (\<lambda>args (c, w). case args of
        [JStr k, JStr v] \<Rightarrow> (Inr (JStr ''OK''), (c(k \<mapsto> v), w)) | _ \<Rightarrow> (Inl (new_Error ''ERR''), (c, w))),
     rd_keys = (\<lambda>p w. (Inr [], w)), rd_disconnect = (\<lambda>w. (Inr (), w)), rd_setname = (\<lambda>n w. (Inr (), w))\<rparr>"

definition quiet_apm :: apm_conf where
  "quiet_apm = \<lparr>apm_on = False, apm_txn = None\<rparr>"

definition sample_producer :: "(sample_world, string) kafka_producer" where
  "sample_producer =
    \<lparr>kp_connect = (\<lambda>w. (Inr (), w)), kp_disconnect = (\<lambda>w. (Inr (), w)),
     kp_send = (\<lambda>t m (c, sent, p). (Inr JUndef, (c, sent @ [(t, m)], p))), kp_registry = None\<rparr>"

text \<open>Buffers are their text; what is not JSON is an unexpected token.\<close>

definition sample_json :: json_reader where
  "sample_json = \<lparr>jr_unit = (\<lambda>n. CHR ''?''), jr_number = (\<lambda>t. JStr t), jr_error = (\<lambda>t. new_Error ''Unexpected token'')\<rparr>"

definition sample_service :: "bool \<Rightarrow> (sample_world, string, nat) kafka_consumer_service" where
  "sample_service up =
    \<lparr>kc_client = \<lparr>kl_consumer = (\<lambda>o' w. (Inr 0, w)), kl_connect = (\<lambda>c w. (Inr (), w)),
       kl_subscribe = (\<lambda>c t w. (Inr (), w)), kl_run = (\<lambda>c w. (Inr (), w)), kl_disconnect = (\<lambda>c w. (Inr (), w))\<rparr>,
     kc_producer = sample_producer, kc_decoder = None, kc_cache = Some (sample_redis up, quiet_apm),
     kc_apm = quiet_apm, kc_text = (\<lambda>t. t),
     kc_json = sample_json,
     kc_error_json = (\<lambda>e. JObj [])\<rparr>"

definition sample_subscription :: subscription where
  "sample_subscription =
    \<lparr>sb_topics = [''t''], sb_fromBeginning = None, sb_dlqRequired = True, sb_schemaEnabled = False\<rparr>"

definition sample_handler :: "decoded_msg \<Rightarrow> (sample_world, unit) act" where
  "sample_handler dm = external (\<lambda>(c, sent, p).
    (if dm_key dm = ''fail'' then Inl (new_Error ''boom'') else Inr (), (c, sent, p @ [dm_key dm])))"

definition sample_message :: "string \<Rightarrow> string \<Rightarrow> nat \<Rightarrow> string kafka_message" where
  "sample_message k v n = \<lparr>km_key = Some k, km_value = Some (json_value (JStr v)), km_headers = None, km_offset = decimal n\<rparr>"

definition sample_decoded :: "string \<Rightarrow> string \<Rightarrow> decoded_msg" where
  "sample_decoded k v = \<lparr>dm_key = k, dm_value = JStr v, dm_value_text = Inr (JStr v), dm_headers = []\<rparr>"

definition sample_consumer_run :: "sample_world \<Rightarrow> sample_world rt" where
  "sample_consumer_run w =
    \<lparr>world = w, files = \<lparr>is_dir = (\<lambda>q. q = []), file_at = Map.empty\<rparr>, log_lines = [], apm_events = []\<rparr>"

definition stored_seven :: sample_world where
  "stored_seven = (Map.empty(''t:g:0'' \<mapsto> ''7''), [], [])"

definition no_heartbeat :: "(sample_world, unit) call" where
  "no_heartbeat w = (Inr (), w)"

lemma sample_decodes:
  "decoded_to (sample_service up) (sample_message k v n) (sb_schemaEnabled sample_subscription)
    (world (sample_consumer_run w)) = (Inr (sample_decoded k v), w)"
  by (simp add: decoded_to_def sample_service_def sample_message_def sample_subscription_def sample_decoded_def
      sample_consumer_run_def value_text_def nullish_def parse_message_headers_def Let_def json_parse_value
      del: json_value.simps)

lemma sample_cache: "kc_cache (sample_service up) = Some (sample_redis up, quiet_apm)"
  by (simp add: sample_service_def)

lemma sample_offset: "km_offset (sample_message k v n) = decimal n"
  by (simp add: sample_message_def)

lemma runs_to_sample_handler:
  "runs_to sample_handler (sample_decoded k v) (c, sent, p)
    (if k = ''fail'' then Inl (new_Error ''boom'') else Inr ()) (c, sent, p @ [k])"
  by (auto simp: runs_to_def sample_handler_def external_def sample_decoded_def)

lemma sample_key: "offset_key ''t'' ''g'' 0 = ''t:g:0''"
  by code_simp

lemma sample_seven: "decimal 7 = ''7''"
  by code_simp

theorem consumed_offset_is_skipped_witness:
  "\<exists>s'. each_message (sample_service True) ''g'' sample_subscription sample_handler ''t'' 0 no_heartbeat
      (sample_message ''a'' ''v'' 5) (sample_consumer_run stored_seven) = (Inr (), s') \<and> world s' = stored_seven"
proof -
  have get: "rd_get (sample_redis True) (offset_key ''t'' ''g'' 0) (after_heartbeat no_heartbeat stored_seven) =
      (Inr (Some (decimal 7)), stored_seven)"
    using sample_key sample_seven
    by (simp add: sample_redis_def stored_seven_def after_heartbeat_def no_heartbeat_def)
  show ?thesis
    using consumed_offset_is_skipped [OF sample_decodes sample_cache get sample_offset [of _ _ 5]] by simp
qed

theorem unreadable_offset_loses_message_witness:
  "\<exists>s'. each_message (sample_service False) ''g'' sample_subscription sample_handler ''t'' 0 no_heartbeat
      (sample_message ''a'' ''v'' 9) (sample_consumer_run stored_seven) = (Inr (), s') \<and> world s' = stored_seven"
proof -
  have get: "rd_get (sample_redis False) (offset_key ''t'' ''g'' 0) (after_heartbeat no_heartbeat stored_seven) =
      (Inl (new_Error ''ECONNREFUSED''), stored_seven)"
    by (simp add: sample_redis_def stored_seven_def after_heartbeat_def no_heartbeat_def)
  show ?thesis using unreadable_offset_loses_message [OF sample_decodes sample_cache get] by simp
qed

lemma sample_new:
  "offset_new (sample_service True) ''t'' ''g'' 0 (parse_int (km_offset (sample_message k v 9)))
    (after_heartbeat no_heartbeat stored_seven)"
  by code_simp

lemma sample_checked:
  "after_check (sample_service True) ''t'' ''g'' 0 (after_heartbeat no_heartbeat stored_seven) = stored_seven"
  by (simp add: after_check_def sample_service_def sample_redis_def after_heartbeat_def no_heartbeat_def stored_seven_def)

lemma sample_runs:
  "runs_to sample_handler (sample_decoded k v)
    (after_check (sample_service True) ''t'' ''g'' 0 (after_heartbeat no_heartbeat stored_seven))
    (if k = ''fail'' then Inl (new_Error ''boom'') else Inr ()) (Map.empty(''t:g:0'' \<mapsto> ''7''), [], [k])"
  unfolding sample_checked using runs_to_sample_handler [of k v "Map.empty(''t:g:0'' \<mapsto> ''7'')" "[]" "[]"]
  by (simp add: stored_seven_def)

theorem processed_message_stores_offset_witness:
  "\<exists>s'. each_message (sample_service True) ''g'' sample_subscription sample_handler ''t'' 0 no_heartbeat
      (sample_message ''a'' ''v'' 9) (sample_consumer_run stored_seven) = (Inr (), s') \<and>
    fst (world s') ''t:g:0'' = Some (decimal 9) \<and> snd (snd (world s')) = [''a'']"
proof -
  have run: "runs_to sample_handler (sample_decoded ''a'' ''v'')
      (after_check (sample_service True) ''t'' ''g'' 0 (after_heartbeat no_heartbeat stored_seven))
      (Inr ()) (Map.empty(''t:g:0'' \<mapsto> ''7''), [], [''a''])"
    using sample_runs [of "''a''" "''v''"] by simp
  obtain s' where "each_message (sample_service True) ''g'' sample_subscription sample_handler ''t'' 0 no_heartbeat
      (sample_message ''a'' ''v'' 9) (sample_consumer_run stored_seven) = (Inr (), s')"
    and "world s' = snd (rd_set (sample_redis True)
      [JStr (offset_key ''t'' ''g'' 0), JStr (km_offset (sample_message ''a'' ''v'' 9))]
      (Map.empty(''t:g:0'' \<mapsto> ''7''), [], [''a'']))"
    using processed_message_stores_offset [OF sample_decodes sample_cache sample_new run] by blast
  then show ?thesis by (simp add: sample_key sample_offset sample_redis_def)
qed

theorem failed_message_goes_to_dlq_witness:
  "\<exists>s' m. each_message (sample_service True) ''g'' sample_subscription sample_handler ''t'' 0 no_heartbeat
      (sample_message ''fail'' ''v'' 9) (sample_consumer_run stored_seven) = (Inr (), s') \<and>
    fst (world s') ''t:g:0'' = Some ''7'' \<and> fst (snd (world s')) = [(''t.DLQ'', m)] \<and> om_key m = JStr ''fail''"
proof -
  have run: "runs_to sample_handler (sample_decoded ''fail'' ''v'')
      (after_check (sample_service True) ''t'' ''g'' 0 (after_heartbeat no_heartbeat stored_seven))
      (Inl (new_Error ''boom'')) (Map.empty(''t:g:0'' \<mapsto> ''7''), [], [''fail''])"
    using sample_runs [of "''fail''" "''v''"] by simp
  have more: "sb_dlqRequired sample_subscription" "dm_value_text (sample_decoded ''fail'' ''v'') = Inr (JStr ''v'')"
    by (simp_all add: sample_subscription_def sample_decoded_def)
  let ?m = "dlq_out (sample_service True) (Some (sample_decoded ''fail'' ''v'')) (sample_message ''fail'' ''v'' 9)
    (JStr ''v'') (run_error ''t'' ''Error running message processor'' (new_Error ''boom''))"
  obtain s' where s': "each_message (sample_service True) ''g'' sample_subscription sample_handler ''t'' 0 no_heartbeat
      (sample_message ''fail'' ''v'' 9) (sample_consumer_run stored_seven) = (Inr (), s')"
    and w: "world s' = snd (kp_send (kc_producer (sample_service True)) (''t'' @ ''.DLQ'') ?m
      (Map.empty(''t:g:0'' \<mapsto> ''7''), [], [''fail'']))"
    using failed_message_goes_to_dlq [OF sample_decodes sample_new run more] by blast
  have "world s' = (Map.empty(''t:g:0'' \<mapsto> ''7''), [(''t.DLQ'', ?m)], [''fail''])"
    unfolding w by (simp add: sample_service_def sample_producer_def)
  moreover have "om_key ?m = JStr ''fail''" by (simp add: dlq_out_def dlq_key_def sample_decoded_def)
  ultimately show ?thesis using s' by (intro exI [of _ s'] exI [of _ ?m]) simp
qed

definition bad_message :: "string kafka_message" where
  "bad_message = (sample_message ''a'' ''v'' 9)\<lparr>km_value := Some ''bad''\<rparr>"

lemma bad_json: "json_parse sample_json ''bad'' = Inl (new_Error ''Unexpected token'')"
  by code_simp

theorem undecodable_message_goes_to_dlq_witness:
  "\<exists>s' m. each_message (sample_service True) ''g'' sample_subscription sample_handler ''t'' 0 no_heartbeat
      bad_message (sample_consumer_run stored_seven) = (Inr (), s') \<and>
    fst (snd (world s')) = [(''t.DLQ'', m)] \<and> snd (snd (world s')) = []"
proof -
  have d: "decoded_to (sample_service True) bad_message (sb_schemaEnabled sample_subscription)
      (world (sample_consumer_run stored_seven)) = (Inl (new_Error ''Unexpected token''), stored_seven)"
    by (simp add: decoded_to_def sample_service_def bad_message_def sample_subscription_def
        sample_consumer_run_def bad_json Let_def)
  have "sb_dlqRequired sample_subscription" "km_value bad_message = Some ''bad''"
    by (simp_all add: sample_subscription_def bad_message_def)
  then obtain s' where s': "each_message (sample_service True) ''g'' sample_subscription sample_handler ''t'' 0 no_heartbeat
      bad_message (sample_consumer_run stored_seven) = (Inr (), s')"
    and w: "world s' = snd (kp_send (kc_producer (sample_service True)) (''t'' @ ''.DLQ'')
      (dlq_out (sample_service True) None bad_message
        (JStr (kc_text (sample_service True) ''bad'')) (decode_error ''t'' (new_Error ''Unexpected token'')))
      stored_seven)"
    using undecodable_message_goes_to_dlq [OF d] by blast
  show ?thesis
    using s' unfolding w [symmetric]
    by (intro exI [of _ s'] exI conjI) (assumption | simp add: w sample_service_def sample_producer_def stored_seven_def)+
qed

lemma sample_redis_laws: "redis_laws (sample_redis True) fst"
  by (auto simp: redis_laws_def sample_redis_def split: prod.splits)

lemma sample_leave_cache: "leave_cache (sample_service True) sample_handler fst"
  by (auto simp: leave_cache_def keeps_def sample_handler_def external_def sample_service_def sample_producer_def
      split: prod.splits)

theorem stored_offset_never_decreases_witness:
  "\<exists>s' m'. for_each (each_message (sample_service True) ''g'' sample_subscription sample_handler ''t'' 0 no_heartbeat)
      [sample_message ''a'' ''v'' 9, sample_message ''b'' ''v'' 8] (sample_consumer_run stored_seven) = (Inr (), s') \<and>
    7 \<le> m' \<and> fst (world s') ''t:g:0'' = Some (decimal m')"
proof -
  let ?ms = "[sample_message ''a'' ''v'' 9, sample_message ''b'' ''v'' 8]"
  let ?run = "for_each (each_message (sample_service True) ''g'' sample_subscription sample_handler ''t'' 0 no_heartbeat)
    ?ms (sample_consumer_run stored_seven)"
  have offsets: "\<forall>message \<in> set ?ms. \<exists>n. km_offset message = decimal n" by (auto simp: sample_offset)
  have quiet: "fst (snd (no_heartbeat w)) = fst w" for w by (simp add: no_heartbeat_def)
  have "fst ?run = Inr ()" by code_simp
  then have run: "?run = (Inr (), snd ?run)" by (metis prod.collapse)
  note key = sample_key
  have stored: "fst (world (sample_consumer_run stored_seven)) (offset_key ''t'' ''g'' 0) = Some (decimal 7)"
    by (simp add: sample_consumer_run_def stored_seven_def key sample_seven)
  have "\<exists>m' \<ge> 7. fst (world (snd ?run)) ''t:g:0'' = Some (decimal m')"
    using stored_offset_never_decreases [OF sample_leave_cache sample_cache sample_redis_laws quiet offsets run
      stored order_refl] key by simp
  then show ?thesis using run by blast
qed

end
