(* ===== verification/KafkaService.thy ===== *)
theory KafkaService
  imports Consumption
begin

text \<open>
  \<open>packages/queue-service/src/kafka/kafka-service.ts\<close> and \<open>queue-service.ts\<close>: the administration
  client, the order of connecting and disconnecting, topics, schema registration, and the switch over
  the queue types. The kafkajs admin client and the schema registry are parameters.
\<close>

subsection \<open>The service\<close>

record 'w kafka_admin =
  ad_connect :: "('w, unit) call"
  ad_disconnect :: "('w, unit) call"
  ad_listTopics :: "('w, string list) call"
  ad_createTopics :: "string \<times> int option \<Rightarrow> ('w, bool) call"
  ad_deleteTopics :: "string list \<times> int option \<Rightarrow> ('w, unit) call"

text \<open>The registry as the service uses it: registering a schema, and the reader of \<open>.avsc\<close> files.\<close>

record 'w schema_registry =
  sr_register :: "jv \<Rightarrow> (string \<times> jv) list \<Rightarrow> ('w, int) call"
  sr_readAVSC :: "string \<Rightarrow> ('w, jv) call"

record ('w, 'b, 'c) kafka_service =
  ks_admin :: "'w kafka_admin"
  ks_registry :: "'w schema_registry option"
  ks_consumer :: "('w, 'b, 'c) kafka_consumer_service"
  ks_apm :: apm_conf

definition ks_producer :: "('w, 'b, 'c) kafka_service \<Rightarrow> ('w, 'b) kafka_producer" where
  "ks_producer K = kc_producer (ks_consumer K)"

definition wrap_service :: "sink \<Rightarrow> apm_conf \<Rightarrow> string \<Rightarrow> exn \<Rightarrow> ('w, 'a) act" where
  "wrap_service k A m e = (let err = KafkaServiceError m (Some e) in thenDo (report k A err) (raise err))"

definition admin_connect :: "('w, 'b, 'c) kafka_service \<Rightarrow> ('w, unit) act" where
  "admin_connect K =
    tryCatch
      (thenDo (external (ad_connect (ks_admin K))) (log_to AppLogger LLog ''Connected to Kafka Admin!!'' []))
      (wrap_service AppLogger (ks_apm K) ''Error connecting to Kafka Admin'')"

definition service_connect :: "('w, 'b, 'c) kafka_service \<Rightarrow> ('w, unit) act" where
  "service_connect K = thenDo (admin_connect K) (producer_connect (ks_producer K) (ks_apm K))"

definition admin_disconnect :: "('w, 'b, 'c) kafka_service \<Rightarrow> ('w, unit) act" where
  "admin_disconnect K =
    tryCatch
      (thenDo (external (ad_disconnect (ks_admin K))) (log_to AppLogger LLog ''Kafka Admin Disconnected!!'' []))
      (wrap_service AppLogger (ks_apm K) ''Error disconnecting from Kafka Admin'')"

definition service_disconnect :: "('w, 'b, 'c) kafka_service \<Rightarrow> 'c list \<Rightarrow> ('w, unit) act" where
  "service_disconnect K consumers =
    thenDo (admin_disconnect K)
      (thenDo (producer_disconnect (ks_producer K) (ks_apm K))
        (consumers_disconnect (ks_consumer K) consumers))"

definition list_topics :: "('w, 'b, 'c) kafka_service \<Rightarrow> ('w, string list) act" where
  "list_topics K =
    tryCatch (external (ad_listTopics (ks_admin K)))
      (wrap_service TxnLogger (ks_apm K) ''Error listing topics'')"

text \<open>A topic's configuration: its name and number of partitions.\<close>

definition create_topic :: "('w, 'b, 'c) kafka_service \<Rightarrow> string \<times> int option \<Rightarrow> ('w, bool) act" where
  "create_topic K cfg =
    tryCatch
      (andThen (external (ad_createTopics (ks_admin K) cfg)) (\<lambda>created.
        thenDo
          (if created then log_to TxnLogger LLog (''Topic initialized successfully: '' @ fst cfg) []
           else log_to TxnLogger LLog (''Topic already exists: '' @ fst cfg) [])
          (returning created)))
      (wrap_service TxnLogger (ks_apm K) (''Error creating topic - '' @ fst cfg))"

definition delete_topics :: "('w, 'b, 'c) kafka_service \<Rightarrow> string list \<times> int option \<Rightarrow> ('w, unit) act" where
  "delete_topics K options =
    tryCatch (external (ad_deleteTopics (ks_admin K) options))
      (wrap_service TxnLogger (ks_apm K) (''Error deleting topics - '' @ join '','' (fst options)))"

subsection \<open>Schemas\<close>

definition ends_with :: "string \<Rightarrow> string \<Rightarrow> bool" where
  "ends_with s t \<longleftrightarrow> (length t \<le> length s \<and> drop (length s - length t) s = t)"

definition read_avsc_schema ::
  "('w, 'b, 'c) kafka_service \<Rightarrow> 'w schema_registry \<Rightarrow> string \<Rightarrow> ('w, jv) act" where
  "read_avsc_schema K R filePath =
    (if \<not> ends_with filePath ''.avsc'' then
       (let err = KafkaServiceError ''Invalid schema file type. Only .avsc files are allowed'' None
        in thenDo (report TxnLogger (ks_apm K) err) (raise err))
     else tryCatch (external (sr_readAVSC R filePath))
            (wrap_service TxnLogger (ks_apm K) ''Error reading schema file''))"

datatype schema_arg = Schema_path string | Schema_value jv

text \<open>\<open>{ subject: topic, compatibility: COMPATIBILITY.FULL, ...userOpts }\<close>\<close>

definition register_options :: "string \<Rightarrow> (string \<times> jv) list \<Rightarrow> (string \<times> jv) list" where
  "register_options topic userOpts =
    fold (\<lambda>(k, v) o'. js_put k v o') userOpts
      [(''subject'', JStr topic), (''compatibility'', JStr ''FULL'')]"

definition register_schema ::
  "('w, 'b, 'c) kafka_service \<Rightarrow> schema_arg \<Rightarrow> string \<Rightarrow> (string \<times> jv) list \<Rightarrow> ('w, int) act" where
  "register_schema K arg topic userOpts =
    (case ks_registry K of
       None \<Rightarrow> raise (new_Error ''Schema Registry is not configured'')
     | Some R \<Rightarrow>
         andThen (case arg of Schema_path p \<Rightarrow> read_avsc_schema K R p | Schema_value v \<Rightarrow> returning v) (\<lambda>schema.
           tryCatch
             (andThen (external (sr_register R schema (register_options topic userOpts))) (\<lambda>i.
               thenDo (log_to TxnLogger LLog
                        (''Schema registered successfully - '' @ topic @ '' with id: '' @ decimal_int i) [])
                 (returning i)))
             (wrap_service TxnLogger (ks_apm K) (''Error registering schema - '' @ topic))))"

subsection \<open>The provider switch\<close>

text \<open>\<open>new QueueService(type, config)\<close>: which service is built; an unknown type is logged, reported and thrown.\<close>

datatype queue_kind = Kafka_queue | Service_bus_queue

definition queue_service :: "apm_conf \<Rightarrow> string \<Rightarrow> ('w, queue_kind) act" where
  "queue_service A type =
    (if type = ''kafka'' then returning Kafka_queue
     else if type = ''asb'' then returning Service_bus_queue
     else let err = QueueServiceError (''Queue type not supported: '' @ type) None
          in thenDo (report AppLogger A err) (raise err))"

subsection \<open>The operations meet the contract of a wrapped call\<close>

lemmas wrap_simps = tryCatch_def thenDo_def andThen_def external_def log_to_logged report_eq raise_eq
  wrap_service_def returning_eq Let_def

interpretation ad_conn: wrapped_call
  "\<lambda>_ :: unit. admin_connect K" "\<lambda>_. ad_connect (ks_admin K)" "\<lambda>_ r. r"
  "\<lambda>_ e. KafkaServiceError ''Error connecting to Kafka Admin'' (Some e)"
  AppLogger "ks_apm K" "\<lambda>_ s. s" "\<lambda>_ _. logged AppLogger ''Connected to Kafka Admin!!''"
  for K
  by unfold_locales (auto simp: admin_connect_def wrap_simps)

interpretation ad_disc: wrapped_call
  "\<lambda>_ :: unit. admin_disconnect K" "\<lambda>_. ad_disconnect (ks_admin K)" "\<lambda>_ r. r"
  "\<lambda>_ e. KafkaServiceError ''Error disconnecting from Kafka Admin'' (Some e)"
  AppLogger "ks_apm K" "\<lambda>_ s. s" "\<lambda>_ _. logged AppLogger ''Kafka Admin Disconnected!!''"
  for K
  by unfold_locales (auto simp: admin_disconnect_def wrap_simps)

interpretation ad_list: wrapped_call
  "\<lambda>_ :: unit. list_topics K" "\<lambda>_. ad_listTopics (ks_admin K)" "\<lambda>_ r. r"
  "\<lambda>_ e. KafkaServiceError ''Error listing topics'' (Some e)"
  TxnLogger "ks_apm K" "\<lambda>_ s. s" "\<lambda>_ _ s. s"
  for K
  by unfold_locales (auto simp: list_topics_def wrap_simps)

interpretation ad_create: wrapped_call
  "create_topic K" "ad_createTopics (ks_admin K)" "\<lambda>_ r. r"
  "\<lambda>cfg e. KafkaServiceError (''Error creating topic - '' @ fst cfg) (Some e)"
  TxnLogger "ks_apm K" "\<lambda>_ s. s"
  "\<lambda>cfg created. logged TxnLogger
     ((if created then ''Topic initialized successfully: '' else ''Topic already exists: '') @ fst cfg)"
  for K
  by unfold_locales (auto simp: create_topic_def wrap_simps)

interpretation ad_delete: wrapped_call
  "delete_topics K" "ad_deleteTopics (ks_admin K)" "\<lambda>_ r. r"
  "\<lambda>options e. KafkaServiceError (''Error deleting topics - '' @ join '','' (fst options)) (Some e)"
  TxnLogger "ks_apm K" "\<lambda>_ s. s" "\<lambda>_ _ s. s"
  for K
  by unfold_locales (auto simp: delete_topics_def wrap_simps)

interpretation con_conn: wrapped_call
  "consumer_connect C" "kl_connect (kc_client C)" "\<lambda>_ r. r"
  "\<lambda>_ e. KafkaConsumerServiceError ''Error connecting to Kafka Consumer'' (Some e)"
  TxnLogger "kc_apm C" "\<lambda>_ s. s" "\<lambda>_ _ s. s"
  for C
  by unfold_locales (auto simp: consumer_connect_def wrap_simps)

interpretation con_sub: wrapped_call
  "\<lambda>(c, sub). subscribe_topics C c sub"
  "\<lambda>(c, sub). kl_subscribe (kc_client C) c (sb_topics sub, sb_fromBeginning sub)" "\<lambda>_ r. r"
  "\<lambda>(c, sub) e. KafkaConsumerServiceError (''Error subscribing to topics - '' @ join '','' (sb_topics sub)) (Some e)"
  TxnLogger "kc_apm C" "\<lambda>_ s. s" "\<lambda>_ _ s. s"
  for C
  by unfold_locales (auto simp: subscribe_topics_def wrap_simps)

interpretation con_run: wrapped_call
  "\<lambda>(c, sub). run_consumer C c sub" "\<lambda>(c, sub). kl_run (kc_client C) c" "\<lambda>_ r. r"
  "\<lambda>(c, sub) e. KafkaConsumerRunError (join '', '' (sb_topics sub))
     (''Error running Kafka Consumer for topics - '' @ join '','' (sb_topics sub)) (Some e)"
  TxnLogger "kc_apm C" "\<lambda>_ s. s" "\<lambda>_ _ s. s"
  for C
  by unfold_locales (auto simp: run_consumer_def wrap_simps)

subsection \<open>Registering a consumer\<close>

text \<open>
  A subscription returns only when the consumer was created, connected, subscribed to the topics and started,
  in this order and each without error; then, and only then, the service remembers it, after those it had.
\<close>

theorem subscribe_registers_running_consumer:
  assumes "subscribe C consumers cfg sub s = (Inr consumers', s')"
  shows "\<exists>c w1 w2 w3. kl_consumer (kc_client C) (consumer_options cfg) (world s) = (Inr c, w1) \<and>
    kl_connect (kc_client C) c w1 = (Inr (), w2) \<and>
    kl_subscribe (kc_client C) c (sb_topics sub, sb_fromBeginning sub) w2 = (Inr (), w3) \<and>
    kl_run (kc_client C) c w3 = (Inr (), world s') \<and>
    consumers' = consumers @ [c]"
proof -
  from assms obtain c w1 s1 s2 s3 where
      1: "kl_consumer (kc_client C) (consumer_options cfg) (world s) = (Inr c, w1)"
    and 2: "consumer_connect C c (s\<lparr>world := w1\<rparr>) = (Inr (), s1)"
    and 3: "subscribe_topics C c sub s1 = (Inr (), s2)"
    and 4: "run_consumer C c sub s2 = (Inr (), s3)"
    and 5: "consumers' = consumers @ [c]" "world s' = world s3"
    by (auto simp: subscribe_def andThen_result thenDo_result external_result log_result returning_eq)
  have "kl_connect (kc_client C) c w1 = (Inr (), world s1)"
    using con_conn.outcome [of C c "s\<lparr>world := w1\<rparr>"] con_conn.world_after [of C c "s\<lparr>world := w1\<rparr>"] 2
    by (cases "kl_connect (kc_client C) c w1"; cases "fst (kl_connect (kc_client C) c w1)") auto
  moreover have "kl_subscribe (kc_client C) c (sb_topics sub, sb_fromBeginning sub) (world s1) = (Inr (), world s2)"
    using con_sub.outcome [of C "(c, sub)" s1] con_sub.world_after [of C "(c, sub)" s1] 3
    by (cases "kl_subscribe (kc_client C) c (sb_topics sub, sb_fromBeginning sub) (world s1)";
        cases "fst (kl_subscribe (kc_client C) c (sb_topics sub, sb_fromBeginning sub) (world s1))") auto
  moreover have "kl_run (kc_client C) c (world s2) = (Inr (), world s3)"
    using con_run.outcome [of C "(c, sub)" s2] con_run.world_after [of C "(c, sub)" s2] 4
    by (cases "kl_run (kc_client C) c (world s2)"; cases "fst (kl_run (kc_client C) c (world s2))") auto
  ultimately show ?thesis using 1 5 by auto
qed

text \<open>
  A path that does not end in \<open>.avsc\<close> is refused before the file or the registry is touched; without a
  configured registry nothing is attempted at all.
\<close>

theorem register_schema_refuses:
  assumes "ks_registry K = None \<or> \<not> ends_with p ''.avsc''"
  shows "\<exists>e s'. register_schema K (Schema_path p) topic opts s = (Inl e, s') \<and> world s' = world s \<and> files s' = files s"
  using assms
  by (cases "ks_registry K")
    (auto simp: register_schema_def raise_eq andThen_def read_avsc_schema_def Let_def thenDo_report)

subsection \<open>The statements in a concrete world\<close>

theorem subscribe_registers_running_consumer_witness:
  "\<exists>s'. subscribe (sample_service True) [5] [] sample_subscription (sample_consumer_run stored_seven) = (Inr [5, 0], s') \<and>
    (\<exists>c w1. kl_consumer (kc_client (sample_service True)) (consumer_options []) stored_seven = (Inr c, w1) \<and>
      [5, 0] = [5] @ [c])"
proof -
  let ?run = "subscribe (sample_service True) [5] [] sample_subscription (sample_consumer_run stored_seven)"
  have "fst ?run = Inr [5, 0]" by code_simp
  then have run: "?run = (Inr [5, 0], snd ?run)" by (metis prod.collapse)
  have world: "world (sample_consumer_run stored_seven) = stored_seven" by (simp add: sample_consumer_run_def)
  from subscribe_registers_running_consumer [OF run] run show ?thesis unfolding world by blast
qed

definition sample_kafka :: "(sample_world, string, nat) kafka_service" where
  "sample_kafka =
    \<lparr>ks_admin = \<lparr>ad_connect = (\<lambda>w. (Inr (), w)), ad_disconnect = (\<lambda>w. (Inr (), w)), ad_listTopics = (\<lambda>w. (Inr [], w)),
       ad_createTopics = (\<lambda>c w. (Inr True, w)), ad_deleteTopics = (\<lambda>c w. (Inr (), w))\<rparr>,
     ks_registry = Some \<lparr>sr_register = (\<lambda>v o' w. (Inr 1, w)), sr_readAVSC = (\<lambda>p w. (Inr JNull, w))\<rparr>,
     ks_consumer = sample_service True, ks_apm = quiet_apm\<rparr>"

theorem register_schema_refuses_witness:
  "\<exists>e s'. register_schema sample_kafka (Schema_path ''schema.json'') ''topic'' [] (sample_consumer_run stored_seven) =
    (Inl e, s') \<and> world s' = stored_seven"
proof -
  have "ks_registry sample_kafka = None \<or> \<not> ends_with ''schema.json'' ''.avsc''" by code_simp
  from register_schema_refuses [OF this, of "''topic''" "[]" "sample_consumer_run stored_seven"] show ?thesis
    by (auto simp: sample_consumer_run_def)
qed

end
