(* ===== verification/CsvColumns.thy ===== *)
theory CsvColumns
  imports CsvEntity
begin

text \<open>
  The column parser: a reference scanner that reads the row from left to right with the consumed
  part at hand, its equivalence with the index loop, and what the parser does on unquoted rows, on
  rows written with quoted fields and on the rows of the output file.
\<close>

subsection \<open>The reference scanner\<close>

text \<open>\<open>seen\<close> is the consumed part of the row, last character first.\<close>

definition edge :: "string \<Rightarrow> bool" where
  "edge s = (case dropWhile (\<lambda>c. c = SPACE) s of [] \<Rightarrow> True | c # _ \<Rightarrow> c = COMMA)"

fun scan_cols ::
  "string \<Rightarrow> string \<Rightarrow> string list \<Rightarrow> string \<Rightarrow> bool \<Rightarrow> string list \<times> string \<times> bool" where
  "scan_cols seen [] cols cur q = (cols, cur, q)"
| "scan_cols seen (c # rest) cols cur q =
     (if c = QUOTE then
        if rest \<noteq> [] \<and> hd rest = QUOTE then scan_cols (QUOTE # c # seen) (tl rest) cols (cur @ [QUOTE]) q
        else if edge seen \<or> edge rest then scan_cols (c # seen) rest cols cur (\<not> q)
        else scan_cols (c # seen) rest cols (cur @ [c]) q
      else if c = COMMA \<and> \<not> q then scan_cols (c # seen) rest (cols @ [trim cur]) [] q
      else scan_cols (c # seen) rest cols (cur @ [c]) q)"

lemma edge_Nil [simp]: "edge []"
  by (simp add: edge_def)

lemma edge_Cons: "edge (c # s) \<longleftrightarrow> c = COMMA \<or> (c = SPACE \<and> edge s)"
  by (auto simp: edge_def)

lemma skip_back_edge:
  "i \<le> length row \<Longrightarrow>
    (skip_back row i = 0 \<or> row ! (skip_back row i - 1) = COMMA) \<longleftrightarrow> edge (rev (take i row))"
  by (induction row i rule: skip_back.induct)
    (auto simp: take_Suc_conv_app_nth edge_Cons)

lemma skip_fwd_edge:
  "k \<le> length row \<Longrightarrow>
    (skip_fwd row k = length row \<or> row ! skip_fwd row k = COMMA) \<longleftrightarrow> edge (drop k row)"
proof (induction row k rule: skip_fwd.induct)
  case (1 row k)
  show ?case
  proof (cases "k < length row")
    case False
    then show ?thesis using 1(2) by (subst (1 2) skip_fwd.simps) simp
  next
    case True
    then have d: "drop k row = row ! k # drop (Suc k) row" by (simp add: Cons_nth_drop_Suc)
    show ?thesis
    proof (cases "row ! k = SPACE")
      case sp: True
      with 1 True d show ?thesis by (subst (1 2) skip_fwd.simps) (simp add: edge_Cons)
    next
      case False
      with True d show ?thesis by (subst (1 2) skip_fwd.simps) (simp add: edge_Cons)
    qed
  qed
qed

lemma delimiting_quote_edge:
  "i < length row \<Longrightarrow> delimiting_quote row i \<longleftrightarrow> edge (rev (take i row)) \<or> edge (drop (Suc i) row)"
  using skip_back_edge [of i row] skip_fwd_edge [of "Suc i" row]
  by (auto simp: delimiting_quote_def Let_def)

text \<open>One step of the scanner, read by index.\<close>

lemma scan_cols_at:
  assumes True: "i < length row"
  shows "scan_cols (rev (take i row)) (drop i row) cols cur q =
    (if row ! i = QUOTE then
       if i + 1 < length row \<and> row ! (i + 1) = QUOTE
       then scan_cols (rev (take (i + 2) row)) (drop (i + 2) row) cols (cur @ [QUOTE]) q
       else if delimiting_quote row i
            then scan_cols (rev (take (i + 1) row)) (drop (i + 1) row) cols cur (\<not> q)
            else scan_cols (rev (take (i + 1) row)) (drop (i + 1) row) cols (cur @ [row ! i]) q
     else if row ! i = COMMA \<and> \<not> q
     then scan_cols (rev (take (i + 1) row)) (drop (i + 1) row) (cols @ [trim cur]) [] q
     else scan_cols (rev (take (i + 1) row)) (drop (i + 1) row) cols (cur @ [row ! i]) q)"
proof -
  have d: "drop i row = row ! i # drop (Suc i) row" using True by (simp add: Cons_nth_drop_Suc)
  have r: "rev (take (Suc i) row) = row ! i # rev (take i row)"
    using True by (simp add: take_Suc_conv_app_nth)
  have n: "drop (Suc i) row \<noteq> [] \<and> hd (drop (Suc i) row) = QUOTE \<longleftrightarrow>
      i + 1 < length row \<and> row ! (i + 1) = QUOTE"
    by (cases "Suc i < length row") (auto simp: hd_drop_conv_nth)
  have d2: "tl (drop (Suc i) row) = drop (i + 2) row" by (simp add: tl_drop drop_Suc)
  have r2: "rev (take (i + 2) row) = QUOTE # row ! i # rev (take i row)"
    if "i + 1 < length row \<and> row ! (i + 1) = QUOTE"
    using that True by (simp add: take_Suc_conv_app_nth)
  show ?thesis
    by (cases "i + 1 < length row \<and> row ! (i + 1) = QUOTE")
      (simp_all only: d scan_cols.simps n d2 delimiting_quote_edge [OF True] r r2
        Suc_eq_plus1 [symmetric] if_True if_False simp_thms)
qed

text \<open>The index loop and the scanner agree from every position of the row.\<close>

lemma parse_cols_loop_scan:
  "i \<le> length row \<Longrightarrow>
    parse_cols_loop row i cols cur q = scan_cols (rev (take i row)) (drop i row) cols cur q"
proof (induction row i cols cur q rule: parse_cols_loop.induct)
  case (1 row i cols cur q)
  show ?case
  proof (cases "i < length row")
    case False
    then show ?thesis using 1 by (subst parse_cols_loop.simps) simp
  next
    case True
    note ih = 1(1-5) [OF True refl]
    have len: "i + 1 \<le> length row" using True by simp
    show ?thesis
      using True ih len
      by (subst parse_cols_loop.simps, unfold scan_cols_at [OF True] Let_def)
        (cases "row ! i = QUOTE"; cases "i + 1 < length row \<and> row ! (i + 1) = QUOTE";
          cases "delimiting_quote row i"; cases "row ! i = COMMA \<and> \<not> q"; auto)
  qed
qed

lemma parse_cols_scan:
  "parse_cols row =
    (case scan_cols [] row [] [] False of
       (cols, cur, q) \<Rightarrow>
         if q then Inl (csv_error CSV_PARSE_ERROR (''. Unclosed quote in row: '' @ row))
         else Inr (cols @ [trim cur]))"
  by (simp add: parse_cols_def parse_cols_loop_scan)

subsection \<open>The shape of the result\<close>

lemma scan_cols_trimmed:
  "scan_cols seen s cols cur q = (cols', cur', q') \<Longrightarrow> \<forall>c \<in> set cols. trim c = c \<Longrightarrow>
    \<forall>c \<in> set cols'. trim c = c"
  by (induction seen s cols cur q rule: scan_cols.induct) (auto split: if_splits)

lemma parse_cols_Inr:
  "parse_cols row = Inr cols \<Longrightarrow> cols \<noteq> [] \<and> (\<forall>c \<in> set cols. trim c = c)"
  using scan_cols_trimmed [of "[]" row "[]" "[]" False]
  by (auto simp: parse_cols_scan split: prod.splits if_splits)

subsection \<open>Rows without quotes\<close>

lemma scan_unquoted:
  "QUOTE \<notin> set s \<Longrightarrow> split_on COMMA s = w # ws \<Longrightarrow>
    scan_cols seen s cols cur False =
      (cols @ map trim (butlast ((cur @ w) # ws)), last ((cur @ w) # ws), False)"
proof (induction s arbitrary: seen cols cur w ws)
  case Nil
  then show ?case by simp
next
  case (Cons c s)
  obtain v vs where v: "split_on COMMA s = v # vs" by (metis split_on_not_Nil list.exhaust)
  show ?case
    using Cons.prems Cons.IH [OF _ v] by (cases "c = COMMA") (auto simp: v)
qed

lemma parse_cols_unquoted:
  "QUOTE \<notin> set row \<Longrightarrow> parse_cols row = Inr (map trim (split_on COMMA row))"
proof -
  assume "QUOTE \<notin> set row"
  obtain w ws where w: "split_on COMMA row = w # ws" by (metis split_on_not_Nil list.exhaust)
  have "map trim (butlast (w # ws)) @ [trim (last (w # ws))] = map trim (w # ws)"
    by (metis append_butlast_last_id list.distinct(1) list.simps(9) map_append list.map(1))
  then show ?thesis
    using scan_unquoted [OF \<open>QUOTE \<notin> set row\<close> w, of "[]" "[]" "[]"] w by (simp add: parse_cols_scan)
qed

subsection \<open>Quoted fields\<close>

text \<open>
  A field of a row: written as it is, or between quotes with its own quotes doubled.
\<close>

datatype csv_field = Bare (field_value: string) | Quoted (field_value: string)

definition escape :: "string \<Rightarrow> string" where
  "escape s = concat (map (\<lambda>c. if c = QUOTE then [QUOTE, QUOTE] else [c]) s)"

fun render_field :: "csv_field \<Rightarrow> string" where
  "render_field (Bare s) = s"
| "render_field (Quoted s) = [QUOTE] @ escape s @ [QUOTE]"

text \<open>
  The fields the parser reads back: a bare one holds no comma and no quote, a quoted one is not
  empty and does not begin with a quote; neither has blanks at its ends.
\<close>

fun field_ok :: "csv_field \<Rightarrow> bool" where
  "field_ok (Bare s) = (COMMA \<notin> set s \<and> QUOTE \<notin> set s \<and> trim s = s)"
| "field_ok (Quoted s) = (s \<noteq> [] \<and> hd s \<noteq> QUOTE \<and> trim s = s)"

definition render_row :: "csv_field list \<Rightarrow> string" where
  "render_row fs = join '','' (map render_field fs)"

lemma scan_plain:
  "COMMA \<notin> set s \<Longrightarrow> QUOTE \<notin> set s \<Longrightarrow>
    scan_cols seen (s @ t) cols cur q = scan_cols (rev s @ seen) t cols (cur @ s) q"
  by (induction s arbitrary: seen cur) auto

lemma scan_escaped:
  "\<exists>seen'. scan_cols seen (escape s @ QUOTE # t) cols cur True =
      scan_cols seen' (QUOTE # t) cols (cur @ s) True"
proof (induction s arbitrary: seen cur)
  case Nil
  then show ?case by (auto simp: escape_def)
next
  case (Cons c s)
  show ?case
  proof (cases "c = QUOTE")
    case True
    then show ?thesis using Cons [of "QUOTE # QUOTE # seen" "cur @ [QUOTE]"] by (simp add: escape_def)
  next
    case False
    then show ?thesis using Cons [of "c # seen" "cur @ [c]"] by (simp add: escape_def)
  qed
qed

lemma escape_hd: "s \<noteq> [] \<Longrightarrow> hd s \<noteq> QUOTE \<Longrightarrow> escape s \<noteq> [] \<and> hd (escape s) \<noteq> QUOTE"
  by (cases s) (auto simp: escape_def)

text \<open>One field at the start of a row or after a comma, before the end of the row or a comma.\<close>

lemma scan_field:
  assumes "field_ok f" and "edge seen" and "t = [] \<or> hd t = COMMA"
  shows "\<exists>seen'. scan_cols seen (render_field f @ t) cols [] False =
      scan_cols seen' t cols (field_value f) False"
proof (cases f)
  case (Bare s)
  then show ?thesis using assms(1) scan_plain [of s seen t cols "[]" False] by auto
next
  case (Quoted s)
  with assms(1) have s: "escape s \<noteq> []" "hd (escape s) \<noteq> QUOTE" using escape_hd by auto
  have closing: "edge t" using assms(3) by (cases t) (auto simp: edge_Cons)
  obtain seen' where
    e: "scan_cols (QUOTE # seen) (escape s @ QUOTE # t) cols [] True = scan_cols seen' (QUOTE # t) cols s True"
    using scan_escaped [of "QUOTE # seen" s t cols "[]"] by auto
  have "scan_cols seen (render_field f @ t) cols [] False =
      scan_cols (QUOTE # seen) (escape s @ QUOTE # t) cols [] True"
    using Quoted s assms(2) by simp
  also have "\<dots> = scan_cols (QUOTE # seen') t cols s False"
    using e closing assms(3) by auto
  finally show ?thesis using Quoted by auto
qed

lemma scan_render_row:
  "fs \<noteq> [] \<Longrightarrow> \<forall>f \<in> set fs. field_ok f \<Longrightarrow> edge seen \<Longrightarrow>
    scan_cols seen (render_row fs) cols [] False =
      (cols @ map field_value (butlast fs), field_value (last fs), False)"
proof (induction fs arbitrary: seen cols)
  case Nil
  then show ?case by simp
next
  case (Cons f fs)
  have trim: "trim (field_value f) = field_value f" using Cons.prems(2) by (cases f) auto
  show ?case
  proof (cases "fs = []")
    case True
    then show ?thesis
      using scan_field [of f seen "[]" cols] Cons.prems by (auto simp: render_row_def)
  next
    case False
    then have r: "render_row (f # fs) = render_field f @ COMMA # render_row fs"
      by (cases fs) (simp_all add: render_row_def)
    obtain seen' where s: "scan_cols seen (render_field f @ COMMA # render_row fs) cols [] False =
        scan_cols seen' (COMMA # render_row fs) cols (field_value f) False"
      using scan_field [of f seen "COMMA # render_row fs" cols] Cons.prems by auto
    show ?thesis
      using Cons.IH [OF False, of "COMMA # seen'" "cols @ [field_value f]"] Cons.prems False
      by (simp add: r s trim edge_Cons)
  qed
qed

lemma trim_single: "trim [QUOTE] = [QUOTE]"
  by code_simp

lemma field_value_trimmed: "field_ok f \<Longrightarrow> trim (field_value f) = field_value f"
  by (cases f) auto

lemma parse_render_row:
  assumes "fs \<noteq> []" and "\<forall>f \<in> set fs. field_ok f"
  shows "parse_cols (render_row fs) = Inr (map field_value fs)"
proof -
  have "map field_value (butlast fs) @ [field_value (last fs)] = map field_value fs"
    using assms(1) by (metis append_butlast_last_id list.simps(8,9) map_append)
  then show ?thesis
    using scan_render_row [OF assms, of "[]" "[]"] assms
    by (simp add: parse_cols_scan field_value_trimmed)
qed

text \<open>
  A column that is quoted and empty, as writers of CSV files produce it, is read as the text of one
  quote: the two quotes are taken for an escaped quote before they are taken for delimiters.
\<close>

theorem parse_cols_empty_quoted:
  assumes "field_ok (Bare a)" and "field_ok (Bare b)"
  shows "parse_cols (a @ [COMMA, QUOTE, QUOTE, COMMA] @ b) = Inr [a, [QUOTE], b]"
  using assms scan_plain [of a "[]" "[COMMA, QUOTE, QUOTE, COMMA] @ b" "[]" "[]" False]
    scan_plain [of b _ "[]" "[a, [QUOTE]]" "[]" False]
  by (simp add: parse_cols_scan trim_single)

theorem parse_cols_empty_quoted_witness:
  "parse_cols (''1,'' @ [QUOTE, QUOTE] @ '',u'') = Inr [''1'', [QUOTE], ''u'']"
proof -
  have "field_ok (Bare ''1'')" "field_ok (Bare ''u'')" by code_simp+
  from parse_cols_empty_quoted [OF this] show ?thesis by simp
qed

end
