(* ===== verification/CsvStream.thy ===== *)
theory CsvStream
  imports CsvColumns
begin

text \<open>
  The chunked reader does not depend on where the stream cuts the file: neither a cut inside a row
  nor one between the two characters of a line break changes the outcome.
\<close>

subsection \<open>Splitting at every line break character\<close>

definition is_break :: "char \<Rightarrow> bool" where
  "is_break c \<longleftrightarrow> c = CR \<or> c = LF"

text \<open>
  \<open>lines_of s = (rows, rest)\<close>: the rows closed by a break character and what follows the last one,
  a break of two characters counting as two breaks.
\<close>

fun lines_of :: "string \<Rightarrow> string list \<times> string" where
  "lines_of [] = ([], [])"
| "lines_of (c # s) =
     (case lines_of s of (rows, rest) \<Rightarrow>
        if is_break c then ([] # rows, rest)
        else (case rows of [] \<Rightarrow> ([], c # rest) | r # rs \<Rightarrow> ((c # r) # rs, rest)))"

lemma lines_of_append:
  "lines_of (s @ t) =
    (let (rows, rest) = lines_of s; (rows', rest') = lines_of (rest @ t) in (rows @ rows', rest'))"
proof (induction s)
  case Nil
  then show ?case by simp
next
  case (Cons c s)
  obtain rows rest where s: "lines_of s = (rows, rest)" by (cases "lines_of s") auto
  obtain rows' rest' where t: "lines_of (rest @ t) = (rows', rest')" by (cases "lines_of (rest @ t)") auto
  have "lines_of (s @ t) = (rows @ rows', rest')" using Cons s t by simp
  then show ?case using s t by (cases rows) (auto split: list.splits)
qed

lemma lines_of_rest: "lines_of s = (rows, rest) \<Longrightarrow> \<forall>c \<in> set rest. \<not> is_break c"
  by (induction s arbitrary: rows rest) (auto split: prod.splits if_splits list.splits)

lemma lines_of_plain: "\<forall>c \<in> set s. \<not> is_break c \<Longrightarrow> lines_of s = ([], s)"
  by (induction s) auto

lemma split_rows_not_Nil [simp]: "split_rows s \<noteq> []"
  by (induction s rule: split_rows.induct) (auto elim!: cons_row.elims)

lemma last_cons_row: "ws \<noteq> [] \<Longrightarrow> last (cons_row c ws) = (if length ws = 1 then c # hd ws else last ws)"
  by (cases ws) auto

text \<open>The rows of the source's split and the rows of \<open>lines_of\<close> have the same last row.\<close>

lemma split_rows_plain: "\<forall>c \<in> set s. \<not> is_break c \<Longrightarrow> split_rows s = [s]"
  by (induction s rule: split_rows.induct) (auto simp: is_break_def)

lemma split_rows_break:
  "\<forall>c \<in> set r. \<not> is_break c \<Longrightarrow> is_break b \<Longrightarrow>
    split_rows (r @ b # s) =
      r # (case s of [] \<Rightarrow> [[]] | d # s' \<Rightarrow> if is_break d \<and> d \<noteq> b then split_rows s' else split_rows s)"
proof (induction r)
  case Nil
  then show ?case by (cases s) (auto simp: is_break_def)
next
  case (Cons c r)
  then show ?case by (cases "r @ b # s") (auto simp: is_break_def)
qed

lemma lines_of_break:
  "\<forall>c \<in> set r. \<not> is_break c \<Longrightarrow> is_break b \<Longrightarrow>
    lines_of (r @ b # s) = (case lines_of s of (rows, rest) \<Rightarrow> (r # rows, rest))"
  by (induction r) (auto split: prod.splits)

lemma break_cases:
  obtains (plain) "\<forall>c \<in> set s. \<not> is_break c"
    | (break) r b t where "s = r @ b # t" "\<forall>c \<in> set r. \<not> is_break c" "is_break b"
  using split_list_first_prop [of s is_break] by blast

subsection \<open>Consumers of rows\<close>

text \<open>
  What a consumer of rows must promise so that additional empty rows do not matter: once it has
  accepted a row it is ready, an empty row leaves a ready consumer alone, and a consumer that is not
  ready refuses the empty row.
\<close>

locale row_consumer =
  fixes step :: "'s \<Rightarrow> string \<Rightarrow> 'e + 's"
    and ready :: "'s \<Rightarrow> bool"
  assumes step_ready: "step s r = Inr s' \<Longrightarrow> ready s'"
    and empty_row: "ready s \<Longrightarrow> step s [] = Inr s"
begin

definition rows_result :: "'s \<Rightarrow> string list \<Rightarrow> 'e + ('s \<times> string)" where
  "rows_result s rows = map_sum id (\<lambda>s'. (s', last rows)) (fold_result step s (butlast rows))"

definition lines_result :: "'s \<Rightarrow> string \<Rightarrow> 'e + ('s \<times> string)" where
  "lines_result s t =
    (case lines_of t of (rows, rest) \<Rightarrow> map_sum id (\<lambda>s'. (s', rest)) (fold_result step s rows))"

lemma rows_result_Cons:
  "rows \<noteq> [] \<Longrightarrow>
    rows_result s (r # rows) = (case step s r of Inl e \<Rightarrow> Inl e | Inr s' \<Rightarrow> rows_result s' rows)"
  by (auto simp: rows_result_def split: sum.splits)

lemma lines_result_break:
  "\<forall>c \<in> set r. \<not> is_break c \<Longrightarrow> is_break b \<Longrightarrow>
    lines_result s (r @ b # t) = (case step s r of Inl e \<Rightarrow> Inl e | Inr s' \<Rightarrow> lines_result s' t)"
  by (auto simp: lines_result_def lines_of_break split: prod.splits sum.splits)

lemma lines_result_ready_break:
  "ready s \<Longrightarrow> is_break b \<Longrightarrow> lines_result s (b # t) = lines_result s t"
  using lines_result_break [of "[]" b s t] by (simp add: empty_row)

theorem rows_result_lines: "rows_result s (split_rows t) = lines_result s t"
proof (induction t arbitrary: s rule: length_induct)
  case (1 t)
  show ?case
  proof (cases t rule: break_cases)
    case plain
    then show ?thesis
      by (simp add: split_rows_plain rows_result_def lines_result_def lines_of_plain)
  next
    case (break r b u)
    define rest where "rest = (case u of [] \<Rightarrow> [] | d # u' \<Rightarrow> if is_break d \<and> d \<noteq> b then u' else u)"
    have split: "split_rows t = r # split_rows rest"
      using break by (auto simp: split_rows_break rest_def split: list.split)
    have len: "length rest < length t" using break(1) by (auto simp: rest_def split: list.split)
    have skip: "lines_result s' rest = lines_result s' u" if "ready s'" for s'
      using that lines_result_ready_break by (auto simp: rest_def split: list.split)
    have "rows_result s (split_rows t) =
        (case step s r of Inl e \<Rightarrow> Inl e | Inr s' \<Rightarrow> rows_result s' (split_rows rest))"
      by (simp add: split rows_result_Cons)
    also have "\<dots> = (case step s r of Inl e \<Rightarrow> Inl e | Inr s' \<Rightarrow> lines_result s' u)"
      using 1 len skip step_ready by (auto split: sum.split)
    also have "\<dots> = lines_result s t"
      unfolding break(1) lines_result_break [OF break(2,3)] ..
    finally show ?thesis .
  qed
qed

lemma lines_result_append:
  "lines_result s (p @ t @ u) =
    (case lines_result s (p @ t) of Inl e \<Rightarrow> Inl e | Inr (s', rest) \<Rightarrow> lines_result s' (rest @ u))"
  using lines_of_append [of "p @ t" u]
  by (auto simp: lines_result_def fold_result_append split: prod.splits sum.splits)

text \<open>The fold over the chunks is one pass over their concatenation.\<close>

definition chunk_step :: "('b \<Rightarrow> string) \<Rightarrow> 's \<times> string \<Rightarrow> 'b \<Rightarrow> 'e + ('s \<times> string)" where
  "chunk_step dec sp ch = rows_result (fst sp) (split_rows (snd sp @ dec ch))"

theorem fold_chunks:
  "\<forall>c \<in> set p. \<not> is_break c \<Longrightarrow>
    fold_result (chunk_step dec) (s, p) cs = lines_result s (p @ concat (map dec cs))"
proof (induction cs arbitrary: s p)
  case Nil
  then show ?case by (simp add: lines_result_def lines_of_plain)
next
  case (Cons c cs)
  have rest: "\<forall>c \<in> set rest. \<not> is_break c" if "lines_result s (p @ dec c) = Inr (s', rest)" for s' rest
    using that lines_of_rest [of "p @ dec c"]
    by (cases "lines_of (p @ dec c)"; cases "fold_result step s (fst (lines_of (p @ dec c)))")
      (auto simp: lines_result_def)
  show ?case
    using Cons.IH rest lines_result_append [of s p "dec c" "concat (map dec cs)"]
    by (auto simp: chunk_step_def rows_result_lines split: sum.splits)
qed

end

subsection \<open>The reader of product files\<close>

lemma process_row_ready: "process_row V st row = Inr st' \<Longrightarrow> headerRow st' \<noteq> []"
  using parse_cols_Inr [of row]
  by (auto simp: process_row_def split: sum.splits if_splits)

lemma process_row_empty: "headerRow st \<noteq> [] \<Longrightarrow> process_row V st [] = Inr st"
  by (simp add: process_row_def parse_cols_unquoted is_empty_row_def)

interpretation csv: row_consumer "process_row V" "\<lambda>st. headerRow st \<noteq> []" for V
  by unfold_locales (erule process_row_ready | erule process_row_empty)+

lemma process_chunk_chunk_step: "process_chunk V dec = csv.chunk_step V dec"
  by (auto simp: fun_eq_iff process_chunk_def csv.chunk_step_def csv.rows_result_def Let_def)

text \<open>The whole file at once: its closed rows, then the rest.\<close>

definition parse_text :: "validator \<Rightarrow> string \<Rightarrow> exn option \<Rightarrow> exn + csv_data" where
  "parse_text V t failed =
    (case lines_of t of (rows, rest) \<Rightarrow>
       (case fold_result (process_row V) empty_reader rows of
          Inl e \<Rightarrow> Inl e
        | Inr st \<Rightarrow> (case failed of Some e \<Rightarrow> Inl e | None \<Rightarrow> process_last_row V (st, rest))))"

lemma parse_data_text:
  "parse_data V dec csvFile = parse_text V (concat (map dec (chunks csvFile))) (failure csvFile)"
  using csv.fold_chunks [of "[]" V dec empty_reader "chunks csvFile"]
  by (auto simp: parse_data_def parse_text_def process_chunk_chunk_step csv.lines_result_def
      split: prod.splits sum.splits)

text \<open>
  C3: However the stream cuts the file into chunks -- inside a row, inside a quoted column, between
  the two characters of a line break -- the reader returns what it returns for the whole decoded
  file in one chunk: the same products or the same error.
\<close>

theorem parse_data_chunking:
  "parse_data V dec \<lparr>chunks = cs, failure = failed\<rparr> =
    parse_data V (\<lambda>t. t) \<lparr>chunks = [concat (map dec cs)], failure = failed\<rparr>"
  by (simp add: parse_data_text)

end
