(* ===== verification/CsvRefine.thy ===== *)
theory CsvRefine
  imports CsvStream
begin

text \<open>
  What a successfully parsed file contains: the merge of rows by product name as an abstract
  operation on the list of product rows, its refinement by the dictionary of the code, the
  invariants of the result, and the file that \<open>buildCSV\<close> writes read back by the same parser.
\<close>

subsection \<open>The abstract merge\<close>

text \<open>
  The urls of a product: those of its only row as they are, or the urls of all its rows in order,
  each once.
\<close>

definition urls_of :: "csv_product list \<Rightarrow> string \<Rightarrow> string list list" where
  "urls_of ps n = map inputImageUrls (filter (\<lambda>p. name p = n) ps)"

fun merged_urls :: "string list list \<Rightarrow> string list option" where
  "merged_urls [] = None"
| "merged_urls [us] = Some us"
| "merged_urls (us # vs # uss) = Some (dedup (concat (us # vs # uss)))"

definition merge_urls :: "csv_product \<Rightarrow> csv_product \<Rightarrow> csv_product" where
  "merge_urls q p = q\<lparr>inputImageUrls := dedup (inputImageUrls q @ inputImageUrls p)\<rparr>"

lemma combine_merge_urls:
  "map_option inputImageUrls (combine_all merge_urls (Some q) (p # ps)) =
    Some (dedup (inputImageUrls q @ concat (map inputImageUrls (p # ps))))"
proof (induction ps arbitrary: q p)
  case Nil
  then show ?case by (simp add: merge_urls_def)
next
  case (Cons r ps)
  have "map_option inputImageUrls (combine_all merge_urls (Some q) (p # r # ps)) =
      map_option inputImageUrls (combine_all merge_urls (Some (merge_urls q p)) (r # ps))"
    by simp
  also have "\<dots> = Some (dedup (dedup (inputImageUrls q @ inputImageUrls p) @
      concat (map inputImageUrls (r # ps))))"
    unfolding Cons by (simp add: merge_urls_def)
  also have "\<dots> = Some (dedup (inputImageUrls q @ concat (map inputImageUrls (p # r # ps))))"
    by (subst dedup_append [symmetric]) simp
  finally show ?case .
qed

lemma combine_merged_urls:
  "map_option inputImageUrls (combine_all merge_urls None ps) = merged_urls (map inputImageUrls ps)"
proof (cases ps)
  case Nil
  then show ?thesis by simp
next
  case (Cons p qs)
  show ?thesis
  proof (cases qs)
    case Nil
    with Cons show ?thesis by simp
  next
    case (Cons q rs)
    then show ?thesis
      using \<open>ps = p # qs\<close> combine_merge_urls [of p q rs] by simp
  qed
qed

lemma combine_merge_urls_name:
  "\<forall>p \<in> set ps. name p = n \<Longrightarrow> combine_all merge_urls (Some q) ps = Some r \<Longrightarrow> name r = name q"
  by (induction ps arbitrary: q) (auto simp: merge_urls_def)

lemma combine_name:
  "\<forall>p \<in> set ps. name p = n \<Longrightarrow> combine_all merge_urls None ps = Some r \<Longrightarrow> name r = n"
  using combine_merge_urls_name [of "tl ps" n "hd ps" r] by (cases ps) auto

subsection \<open>The fold of the code\<close>

definition upsert_product :: "csv_product \<Rightarrow> csv_data \<Rightarrow> csv_data" where
  "upsert_product p data = data\<lparr>products := objs.upsert merge_urls (name p) p (products data)\<rparr>"

lemma merge_products_data_upsert:
  "merge_products_data data p =
    (if js_own (products data) (name p) = None \<and> name p \<in> set proto_names
     then Inl (new_TypeError ''data.products[product.name].inputImageUrls is not iterable'')
     else Inr (upsert_product p data))"
  by (auto simp: merge_products_data_def js_read_def upsert_product_def objs.upsert_def merge_urls_def
      split: option.splits)

lemma products_fold_upsert:
  "products (fold upsert_product ps data) =
    fold (\<lambda>p. objs.upsert merge_urls (name p) p) ps (products data)"
  by (induction ps arbitrary: data) (simp_all add: upsert_product_def)

lemma js_own_fold_upsert_None:
  "js_own (products (upsert_product p data)) n = None \<longleftrightarrow> n \<noteq> name p \<and> js_own (products data) n = None"
  by (auto simp: upsert_product_def objs.upsert_def js_own_put)

text \<open>The loop fails exactly when a product has the name of an inherited property.\<close>

lemma merge_fold:
  assumes "\<forall>n \<in> set proto_names. js_own (products data) n = None"
  shows "fold_result merge_products_data data ps =
    (if \<exists>p \<in> set ps. name p \<in> set proto_names
     then Inl (new_TypeError ''data.products[product.name].inputImageUrls is not iterable'')
     else Inr (fold upsert_product ps data))"
  using assms
proof (induction ps arbitrary: data)
  case Nil
  then show ?case by simp
next
  case (Cons p ps)
  show ?case
  proof (cases "name p \<in> set proto_names")
    case True
    with Cons.prems show ?thesis by (simp add: merge_products_data_upsert)
  next
    case False
    then have "\<forall>n \<in> set proto_names. js_own (products (upsert_product p data)) n = None"
      using Cons.prems js_own_fold_upsert_None by metis
    from Cons.IH [OF this] False show ?thesis by (simp add: merge_products_data_upsert)
  qed
qed

definition no_products :: csv_data where
  "no_products = \<lparr>products = []\<rparr>"

lemma fold_upsert_lookup:
  "map_option inputImageUrls (js_own (products (fold upsert_product ps no_products)) n) =
    merged_urls (urls_of ps n)"
  using combine_merged_urls [of "filter (\<lambda>p. name p = n) ps"]
    objs.look_fold_upsert [of merge_urls name "\<lambda>p. p" ps "[]" n]
  by (simp add: products_fold_upsert no_products_def urls_of_def objs.look_empty)

lemma fold_upsert_wf:
  "js_wf (products (fold upsert_product ps no_products))"
  by (simp add: products_fold_upsert no_products_def objs.inv_fold_upsert)

lemma fold_upsert_keys:
  "set (js_keys (products (fold upsert_product ps no_products))) = name ` set ps"
  using objs.keys_fold_upsert [of merge_urls name "\<lambda>p. p" ps "[]"]
  by (simp add: products_fold_upsert no_products_def js_keys_def)

lemma fold_upsert_name:
  "js_own (products (fold upsert_product ps no_products)) n = Some q \<Longrightarrow> name q = n"
  using objs.look_fold_upsert [of merge_urls name "\<lambda>p. p" ps "[]" n]
    combine_name [of "filter (\<lambda>p. name p = n) ps" n q]
  by (simp add: products_fold_upsert no_products_def objs.look_empty)

subsection \<open>The products of a file\<close>

text \<open>What one row after the header stands for: nothing when it is empty, else a valid product.\<close>

definition row_product :: "validator \<Rightarrow> string \<Rightarrow> exn + csv_product option" where
  "row_product V row =
    (case parse_cols row of
       Inl e \<Rightarrow> Inl e
     | Inr cols \<Rightarrow>
         if is_empty_row cols then Inr None
         else (case get_product_from_row cols of
                 Inl e \<Rightarrow> Inl e
               | Inr p \<Rightarrow> map_sum id (\<lambda>_. Some p) (validate_product V p)))"

fun file_products :: "validator \<Rightarrow> string list \<Rightarrow> exn + csv_product list" where
  "file_products V [] = Inr []"
| "file_products V (row # rows) =
    (case row_product V row of
       Inl e \<Rightarrow> Inl e
     | Inr None \<Rightarrow> file_products V rows
     | Inr (Some p) \<Rightarrow> map_sum id ((#) p) (file_products V rows))"

lemma process_row_product:
  "headerRow st \<noteq> [] \<Longrightarrow>
    process_row V st row =
      (case row_product V row of
         Inl e \<Rightarrow> Inl e
       | Inr None \<Rightarrow> Inr st
       | Inr (Some p) \<Rightarrow> map_sum id (\<lambda>d. st\<lparr>rdata := d\<rparr>) (merge_products_data (rdata st) p))"
  by (auto simp: process_row_def row_product_def data_row_def split: sum.splits)

lemma fold_process_row:
  assumes "headerRow st \<noteq> []"
  shows "fold_result (process_row V) st rows = Inr st' \<longleftrightarrow>
    (\<exists>ps d. file_products V rows = Inr ps \<and> fold_result merge_products_data (rdata st) ps = Inr d \<and>
      st' = st\<lparr>rdata := d\<rparr>)"
  using assms
proof (induction rows arbitrary: st)
  case Nil
  then show ?case by auto
next
  case (Cons row rows)
  consider (bad) e where "row_product V row = Inl e" | (blank) "row_product V row = Inr None"
    | (product) p where "row_product V row = Inr (Some p)"
    by (metis sum.exhaust option.exhaust)
  then show ?case
  proof cases
    case bad
    then show ?thesis using Cons.prems by (simp add: process_row_product)
  next
    case blank
    then show ?thesis using Cons by (simp add: process_row_product)
  next
    case product
    show ?thesis
      using product Cons.prems Cons.IH [of "st\<lparr>rdata := _\<rparr>"]
      by (cases "merge_products_data (rdata st) p") (auto simp: process_row_product)
  qed
qed

text \<open>The rows after the header: the closed ones, and the last one unless it is blank.\<close>

definition rows_after :: "string list \<Rightarrow> string \<Rightarrow> string list" where
  "rows_after rows rest = rows @ (if trim rest = [] then [] else [rest])"

lemma process_last_row_ready:
  "headerRow st \<noteq> [] \<Longrightarrow>
    process_last_row V (st, rest) = map_sum id rdata (fold_result (process_row V) st (rows_after [] rest))"
  by (auto simp: process_last_row_def process_row_def rows_after_def split: sum.splits)

lemma parse_text_header:
  assumes "lines_of t = (header # rows, rest)"
  shows "parse_text V t None =
    (case process_row V empty_reader header of
       Inl e \<Rightarrow> Inl e
     | Inr st \<Rightarrow> map_sum id rdata (fold_result (process_row V) st (rows_after rows rest)))"
proof (cases "process_row V empty_reader header")
  case (Inl e)
  then show ?thesis using assms by (simp add: parse_text_def)
next
  case (Inr st)
  have "headerRow st' \<noteq> []" if "fold_result (process_row V) st rows = Inr st'" for st'
    using that process_row_ready [OF Inr] by (auto simp: fold_process_row)
  then show ?thesis
    using assms Inr process_last_row_ready [of _ V rest]
    by (auto simp: parse_text_def rows_after_def fold_result_append split: sum.splits)
qed

lemma process_header:
  "process_row V empty_reader header = Inr st \<longleftrightarrow>
    (\<exists>cols. parse_cols header = Inr cols \<and> validate_header_row cols = Inr () \<and>
      st = \<lparr>rdata = no_products, headerRow = cols\<rparr>)"
  by (auto simp: process_row_def empty_reader_def no_products_def split: sum.splits)

lemma parse_text_Inr:
  assumes "lines_of t = (header # rows, rest)"
  shows "parse_text V t None = Inr data \<longleftrightarrow>
    (\<exists>cols ps. parse_cols header = Inr cols \<and> validate_header_row cols = Inr () \<and>
      file_products V (rows_after rows rest) = Inr ps \<and>
      fold_result merge_products_data no_products ps = Inr data)"
proof -
  have cols: "cols \<noteq> []" if "parse_cols header = Inr cols" for cols
    using that parse_cols_Inr by blast
  have "parse_text V t None = Inr data \<longleftrightarrow>
      (\<exists>st st'. process_row V empty_reader header = Inr st \<and>
        fold_result (process_row V) st (rows_after rows rest) = Inr st' \<and> rdata st' = data)"
    using parse_text_header [OF assms, of V] by (auto split: sum.splits)
  also have "\<dots> \<longleftrightarrow> (\<exists>cols ps. parse_cols header = Inr cols \<and> validate_header_row cols = Inr () \<and>
      file_products V (rows_after rows rest) = Inr ps \<and>
      fold_result merge_products_data no_products ps = Inr data)"
    using cols by (auto simp: process_header fold_process_row)
  finally show ?thesis .
qed

lemma merge_no_products:
  "fold_result merge_products_data no_products ps = Inr data \<longleftrightarrow>
    (\<forall>p \<in> set ps. name p \<notin> set proto_names) \<and> data = fold upsert_product ps no_products"
  using merge_fold [of no_products ps] by (auto simp: no_products_def)

text \<open>A file without a closed row has no products; its one row is checked as a header unless it is blank.\<close>

definition headerless_ok :: "string \<Rightarrow> bool" where
  "headerless_ok rest \<longleftrightarrow> trim rest = [] \<or>
    (case parse_cols rest of Inl e \<Rightarrow> False | Inr cols \<Rightarrow> is_empty_row cols \<or> validate_header_row cols = Inr ())"

lemma parse_text_no_row:
  assumes "lines_of t = ([], rest)"
  shows "parse_text V t None = Inr data \<longleftrightarrow> headerless_ok rest \<and> data = no_products"
  using assms
  by (auto simp: parse_text_def process_last_row_def headerless_ok_def empty_reader_def no_products_def split: sum.splits)

lemma parse_text_failed: "parse_text V t (Some e) \<noteq> Inr data"
  by (auto simp: parse_text_def split: prod.splits sum.splits)

text \<open>
  C6: Which files are accepted, for every file. The result is \<open>data\<close> exactly when the stream ends without an error and
  either the first row is closed by a line break, has the three expected columns, every later row is empty or a
  product the validator accepts, no product carries the name of a property that every object inherits, and \<open>data\<close> is the merge of
  the products in the order of their rows; or the file has no line break, is blank, a row of blank columns or
  the header alone, and \<open>data\<close> has no products. The second case accepts the empty file, with no header.
\<close>

theorem parse_data_accepts:
  "parse_data V dec csvFile = Inr data \<longleftrightarrow>
    failure csvFile = None \<and>
    (case lines_of (concat (map dec (chunks csvFile))) of
       (header # rows, rest) \<Rightarrow>
         (\<exists>cols. parse_cols header = Inr cols \<and> validate_header_row cols = Inr ()) \<and>
         (\<exists>ps. file_products V (rows_after rows rest) = Inr ps \<and>
           (\<forall>p \<in> set ps. name p \<notin> set proto_names) \<and> data = fold upsert_product ps no_products)
     | ([], rest) \<Rightarrow>
         (trim rest = [] \<or> (\<exists>cols. parse_cols rest = Inr cols \<and> (is_empty_row cols \<or> validate_header_row cols = Inr ()))) \<and>
         data = no_products)"
proof -
  let ?t = "concat (map dec (chunks csvFile))"
  obtain rows rest where lines: "lines_of ?t = (rows, rest)" by (cases "lines_of ?t")
  show ?thesis
  proof (cases "failure csvFile")
    case (Some e)
    then show ?thesis by (simp add: parse_data_text parse_text_failed)
  next
    case None
    note whole = parse_data_text [of V dec csvFile, unfolded None]
    show ?thesis
    proof (cases rows)
      case Nil
      then show ?thesis
        using parse_text_no_row [of ?t rest V data] lines None whole
        by (auto simp: headerless_ok_def split: sum.splits)
    next
      case (Cons header later)
      then show ?thesis
        using parse_text_Inr [of ?t header later rest V data] lines None whole
        by (simp add: merge_no_products) blast
    qed
  qed
qed

text \<open>
  C7: In the dictionary of an accepted file the keys are the names of its product rows, each entry
  carries its own key as its name, and a product's urls are those of its only row unchanged, or the
  urls of all its rows in file order without repetitions; the dictionary is well formed (keys are
  distinct, array-index keys first and ascending).
\<close>

theorem parse_data_products:
  assumes "parse_data V dec csvFile = Inr data"
    and "lines_of (concat (map dec (chunks csvFile))) = (header # rows, rest)"
    and "file_products V (rows_after rows rest) = Inr ps"
  shows "set (js_keys (products data)) = name ` set ps \<and> js_wf (products data) \<and>
    (\<forall>n. map_option inputImageUrls (js_own (products data) n) = merged_urls (urls_of ps n)) \<and>
    (\<forall>n q. js_own (products data) n = Some q \<longrightarrow> name q = n)"
proof -
  have parsed: "parse_text V (concat (map dec (chunks csvFile))) None = Inr data"
    using assms(1) by (auto simp: parse_data_text parse_text_def split: prod.splits sum.splits option.splits)
  have "data = fold upsert_product ps no_products"
    using parsed assms(3) by (auto simp: parse_text_Inr [OF assms(2)] merge_no_products)
  then show ?thesis
    using fold_upsert_keys [of ps] fold_upsert_wf [of ps] fold_upsert_lookup [of ps] fold_upsert_name [of ps]
    by simp
qed

subsection \<open>Errors of the reader\<close>

definition csv_http_error :: "exn \<Rightarrow> bool" where
  "csv_http_error e \<longleftrightarrow> (\<exists>f detail. e = csv_error f detail)"

definition inherited_name_error :: exn where
  "inherited_name_error = new_TypeError ''data.products[product.name].inputImageUrls is not iterable''"

lemma parse_cols_Inl: "parse_cols row = Inl e \<Longrightarrow> csv_http_error e"
  by (auto simp: parse_cols_def csv_http_error_def split: prod.splits if_splits)

lemma validate_header_row_Inl: "validate_header_row cols = Inl e \<Longrightarrow> csv_http_error e"
  by (auto simp: validate_header_row_def csv_http_error_def split: if_splits)

lemma data_row_Inl:
  "data_row V data cols = Inl e \<Longrightarrow> csv_http_error e \<or> e = inherited_name_error"
  by (auto simp: data_row_def get_product_from_row_def validate_row_def validate_product_def Let_def
      merge_products_data_def csv_http_error_def inherited_name_error_def
      split: sum.splits if_splits js_prop.splits)

lemmas row_errors = parse_cols_Inl validate_header_row_Inl data_row_Inl

lemma process_row_Inl:
  "process_row V st row = Inl e \<Longrightarrow> csv_http_error e \<or> e = inherited_name_error"
  by (auto simp: process_row_def dest: row_errors split: sum.splits if_splits)

lemma process_last_row_Inl:
  "process_last_row V sp = Inl e \<Longrightarrow> csv_http_error e \<or> e = inherited_name_error"
  by (auto simp: process_last_row_def dest: row_errors split: sum.splits if_splits prod.splits)

lemma fold_result_Inl:
  "fold_result f s xs = Inl e \<Longrightarrow> \<exists>s x. x \<in> set xs \<and> f s x = Inl e"
  by (induction xs arbitrary: s) (simp, fastforce split: sum.splits)

lemma fold_process_row_Inl:
  "fold_result (process_row V) st rows = Inl e \<Longrightarrow> csv_http_error e \<or> e = inherited_name_error"
  by (drule fold_result_Inl) (auto dest: process_row_Inl)

lemma csv_http_error_eq:
  "csv_http_error e \<Longrightarrow> \<exists>m. e = HttpException m 422"
  by (auto simp: csv_http_error_def csv_error_def csv_failure_code_def)

lemma parse_data_only_errors:
  assumes "parse_data V dec csvFile = Inl e"
  shows "failure csvFile = Some e \<or> (\<exists>m. e = HttpException m 422) \<or> e = inherited_name_error"
proof -
  have "failure csvFile = Some e \<or> csv_http_error e \<or> e = inherited_name_error"
    using assms by (auto simp: parse_data_text parse_text_def
      dest: fold_process_row_Inl process_last_row_Inl split: prod.splits sum.splits option.splits)
  then show ?thesis using csv_http_error_eq by blast
qed

text \<open>
  C17: Whatever the file, the reader fails only in three ways: with the error the stream itself was
  destroyed with, with an HTTP error of code 422 that names the failed check, or with the
  \<open>TypeError\<close> of a product named like an inherited property.
\<close>

theorem parse_data_errors:
  assumes "parse_data V dec csvFile = Inl e"
  shows "failure csvFile = Some e \<or> (\<exists>m. e = HttpException m 422) \<or> e = inherited_name_error"
  using assms by (rule parse_data_only_errors)

subsection \<open>The output file read back\<close>

text \<open>A url list that survives the writer, which quotes it but does not escape it.\<close>

definition writable_urls :: "string list \<Rightarrow> bool" where
  "writable_urls us \<longleftrightarrow>
    join '','' us \<noteq> [] \<and> trim (join '','' us) = join '','' us \<and>
    list_all (\<lambda>c. c \<noteq> QUOTE \<and> \<not> is_break c) (join '','' us)"

definition writable_name :: "string \<Rightarrow> bool" where
  "writable_name n \<longleftrightarrow> trim n = n \<and> list_all (\<lambda>c. c \<noteq> QUOTE \<and> c \<noteq> COMMA \<and> \<not> is_break c) n"

definition writable :: "csv_product_output \<Rightarrow> bool" where
  "writable p \<longleftrightarrow> writable_name (name p) \<and> writable_urls (inputImageUrls p) \<and> writable_urls (outputImageUrls p)"

lemma writable_urls_plain:
  "writable_urls us \<Longrightarrow> QUOTE \<notin> set (join '','' us)"
  "writable_urls us \<Longrightarrow> c \<in> set (join '','' us) \<Longrightarrow> \<not> is_break c"
  by (auto simp: writable_urls_def list_all_iff)

lemma writable_name_plain:
  "writable_name n \<Longrightarrow> field_ok (Bare n)"
  "writable_name n \<Longrightarrow> c \<in> set n \<Longrightarrow> \<not> is_break c"
  by (auto simp: writable_name_def list_all_iff)

fun output_cols :: "nat \<Rightarrow> csv_product_output list \<Rightarrow> string list list" where
  "output_cols i [] = []"
| "output_cols i (p # ps) =
     [decimal i, name p, join '','' (inputImageUrls p), join '','' (outputImageUrls p)] #
     output_cols (i + 1) ps"

lemma escape_plain: "QUOTE \<notin> set s \<Longrightarrow> escape s = s"
  by (induction s) (auto simp: escape_def)

lemma digit_plain: "is_digit c \<Longrightarrow> c \<noteq> QUOTE \<and> c \<noteq> COMMA \<and> \<not> is_break c \<and> \<not> is_ws c"
  by (auto simp: is_digit_def is_break_def is_ws_def)

lemma trim_decimal: "trim (decimal n) = decimal n"
  using digit_plain decimal_digits
  by (metis trim_id_iff hd_in_set last_in_set)

lemma decimal_ok: "field_ok (Bare (decimal n))"
  using digit_plain decimal_digits trim_decimal by auto

lemma output_row_render:
  assumes "writable_urls (inputImageUrls p)" and "writable_urls (outputImageUrls p)"
  shows "output_row i p =
    decimal i @ '','' @ name p @ '','' @
    render_row [Quoted (join '','' (inputImageUrls p)), Quoted (join '','' (outputImageUrls p))]"
  using assms by (simp add: output_row_def render_row_def writable_urls_plain escape_plain)

lemma writable_urls_ok: "writable_urls us \<Longrightarrow> field_ok (Quoted (join '','' us))"
  by (cases "join '','' us") (auto simp: writable_urls_def)

lemma parse_output_row:
  assumes "writable_urls (inputImageUrls p)" and "writable_urls (outputImageUrls p)"
    and "ns \<noteq> []" and "\<forall>n \<in> set ns. field_ok (Bare n)" and "name p = join '','' ns"
  shows "parse_cols (output_row i p) =
    Inr ([decimal i] @ ns @ [join '','' (inputImageUrls p), join '','' (outputImageUrls p)])"
proof -
  let ?fs = "[Bare (decimal i)] @ map Bare ns @
    [Quoted (join '','' (inputImageUrls p)), Quoted (join '','' (outputImageUrls p))]"
  have "join '','' (ns @ [a, b]) = join '','' ns @ '','' @ join '','' [a, b]" for a b
    using assms(3) by (induction ns rule: induct_list012) auto
  then have "output_row i p = render_row ?fs"
    unfolding output_row_render [OF assms(1,2)] using assms(3,5)
    by (cases ns) (auto simp: render_row_def comp_def)
  moreover have "\<forall>f \<in> set ?fs. field_ok f"
    using assms decimal_ok writable_urls_ok by auto
  ultimately show ?thesis using parse_render_row [of ?fs] by (simp add: comp_def)
qed

lemma output_row_no_break:
  assumes "writable p" shows "\<forall>c \<in> set (output_row i p). \<not> is_break c"
proof -
  have "\<forall>c \<in> set (decimal i). \<not> is_break c" using digit_plain decimal_digits by blast
  moreover have "\<not> is_break QUOTE" "\<not> is_break COMMA" by (simp_all add: is_break_def)
  moreover have "\<forall>c \<in> set (name p). \<not> is_break c"
    and "\<forall>c \<in> set (join '','' (inputImageUrls p)). \<not> is_break c"
    and "\<forall>c \<in> set (join '','' (outputImageUrls p)). \<not> is_break c"
    using assms unfolding writable_def by (blast dest: writable_name_plain(2) writable_urls_plain(2))+
  ultimately show ?thesis by (simp add: output_row_def ball_Un)
qed

lemma split_rows_line:
  "\<forall>c \<in> set r. \<not> is_break c \<Longrightarrow> split_rows (r @ CR # LF # s) = r # split_rows s"
  by (simp add: split_rows_break is_break_def)

lemma parse_output_rows:
  "\<forall>p \<in> set ps. writable p \<Longrightarrow>
    map parse_cols (split_rows (output_rows i ps)) = map Inr (output_cols i ps) @ [Inr [[]]]"
proof (induction ps arbitrary: i)
  case Nil
  then show ?case by (simp add: parse_cols_unquoted)
next
  case (Cons p ps)
  have p: "writable_urls (inputImageUrls p)" "writable_urls (outputImageUrls p)" "field_ok (Bare (name p))"
    using Cons.prems writable_name_plain(1) by (simp_all add: writable_def del: field_ok.simps)
  show ?case
    using Cons parse_output_row [OF p(1,2), of "[name p]" i] p(3)
      split_rows_line [OF output_row_no_break [of p i]]
    by simp
qed

text \<open>
  C19: The output file of plain products parses back. When names are trimmed and hold no comma, quote or line break, and the url
  lists are not empty, start and end without a blank and hold no quote and no line break, splitting \<open>buildCSV\<close>'s text into rows and columns with
  the reader's own routines gives the header, then one row per product in property order --
  its number counted from 1, its name, and its two url lists joined by commas -- and one empty last row.
\<close>

theorem build_csv_roundtrip:
  assumes "\<forall>p \<in> set (js_values ps). writable p"
  shows "map parse_cols (split_rows (build_csv ps)) =
    Inr CSV_OUTPUT_HEADERS # map Inr (output_cols 1 (js_values ps)) @ [Inr [[]]]"
proof -
  have plain: "\<forall>c \<in> set (join '','' CSV_OUTPUT_HEADERS). \<not> is_break c" by code_simp
  have header: "parse_cols (join '','' CSV_OUTPUT_HEADERS) = Inr CSV_OUTPUT_HEADERS" by code_simp
  show ?thesis
    using parse_output_rows [OF assms, of 1] split_rows_line [OF plain] header
    by (simp add: build_csv_def)
qed

text \<open>
  The writer does not quote product names: a name made of two plain parts around a comma, which
  the reader accepts when the uploaded file quotes it, makes a row of five columns in a file whose
  header has four.
\<close>

theorem build_csv_comma_in_name:
  assumes "writable_urls (inputImageUrls p)" and "writable_urls (outputImageUrls p)"
    and "writable_name a" and "writable_name b" and "name p = a @ '','' @ b"
  shows "parse_cols (output_row i p) =
    Inr [decimal i, a, b, join '','' (inputImageUrls p), join '','' (outputImageUrls p)]"
  using parse_output_row [OF assms(1,2), of "[a, b]" i] assms(3-5) writable_name_plain(1)
  by (simp del: field_ok.simps)

subsection \<open>The statements at a concrete file\<close>

definition sample_validator :: validator where
  "sample_validator p = (if name p = [] then [Constraints [''name should not be empty'']] else [])"

text \<open>Four chunks: a cut inside a line break, one inside a quoted column, no final line break.\<close>

definition sample_file :: "string readable" where
  "sample_file =
    \<lparr>chunks = [''S. No.,product name,Input Image Urls'' @ [CR], [LF] @ ''1,tea,'' @ [QUOTE] @ ''u,v'',
      [QUOTE, CR, LF] @ '' , ,'' @ [LF] @ ''2,cup,w'' @ [LF] @ ''3,t'', ''ea,'' @ [QUOTE] @ ''v , x'' @ [QUOTE]],
     failure = None\<rparr>"

definition sample_header :: string where
  "sample_header = ''S. No.,product name,Input Image Urls''"

definition sample_rows :: "string list" where
  "sample_rows = [[], ''1,tea,'' @ [QUOTE] @ ''u,v'' @ [QUOTE], [], '' , ,'', ''2,cup,w'']"

definition sample_rest :: string where
  "sample_rest = ''3,tea,'' @ [QUOTE] @ ''v , x'' @ [QUOTE]"

definition sample_products :: "csv_product list" where
  "sample_products =
    [\<lparr>name = ''tea'', inputImageUrls = [''u'', ''v'']\<rparr>, \<lparr>name = ''cup'', inputImageUrls = [''w'']\<rparr>,
     \<lparr>name = ''tea'', inputImageUrls = [''v'', ''x'']\<rparr>]"

definition sample_data :: csv_data where
  "sample_data = \<lparr>products =
    [(''tea'', \<lparr>name = ''tea'', inputImageUrls = [''u'', ''v'', ''x'']\<rparr>),
     (''cup'', \<lparr>name = ''cup'', inputImageUrls = [''w'']\<rparr>)]\<rparr>"

lemma sample_lines:
  "lines_of (concat (map id (chunks sample_file))) = (sample_header # sample_rows, sample_rest)"
  by code_simp

lemma sample_file_products:
  "file_products sample_validator (rows_after sample_rows sample_rest) = Inr sample_products"
  by code_simp

lemma sample_parse: "parse_data sample_validator id sample_file = Inr sample_data"
  by code_simp

definition empty_file :: "string readable" where
  "empty_file = \<lparr>chunks = [], failure = None\<rparr>"

theorem parse_data_accepts_witness:
  "parse_data sample_validator id sample_file = Inr sample_data \<and>
    parse_data sample_validator id empty_file = Inr no_products"
proof
  show "parse_data sample_validator id empty_file = Inr no_products"
    by (simp add: parse_data_accepts empty_file_def)
next
  show "parse_data sample_validator id sample_file = Inr sample_data"
  proof (subst parse_data_accepts, simp only: sample_lines prod.case list.case, intro conjI exI)
    show "failure sample_file = None" by code_simp
    show "parse_cols sample_header = Inr [''S. No.'', ''product name'', ''Input Image Urls'']" by code_simp
    show "validate_header_row [''S. No.'', ''product name'', ''Input Image Urls''] = Inr ()" by code_simp
    show "file_products sample_validator (rows_after sample_rows sample_rest) = Inr sample_products"
      by (rule sample_file_products)
    show "\<forall>p \<in> set sample_products. name p \<notin> set proto_names" by code_simp
    have "fold_result merge_products_data no_products sample_products = Inr sample_data" by code_simp
    then show "sample_data = fold upsert_product sample_products no_products"
      by (simp add: merge_no_products)
  qed
qed

theorem parse_data_products_witness:
  "set (js_keys (products sample_data)) = {''tea'', ''cup''} \<and>
    map_option inputImageUrls (js_own (products sample_data) ''tea'') = Some [''u'', ''v'', ''x'']"
proof -
  have "set (js_keys (products sample_data)) = name ` set sample_products"
    and "map_option inputImageUrls (js_own (products sample_data) ''tea'') =
      merged_urls (urls_of sample_products ''tea'')"
    using parse_data_products [OF sample_parse sample_lines sample_file_products] by blast+
  moreover have "merged_urls (urls_of sample_products ''tea'') = Some [''u'', ''v'', ''x'']" by code_simp
  moreover have "name ` set sample_products = {''tea'', ''cup''}" by (auto simp: sample_products_def)
  ultimately show ?thesis by simp
qed

text \<open>A row whose product is called \<open>constructor\<close>.\<close>

definition headless_file :: "string readable" where
  "headless_file = \<lparr>chunks = [''1,tea,u'' @ [LF]], failure = None\<rparr>"

definition error_of :: "exn + 'a \<Rightarrow> exn option" where
  "error_of r = (case r of Inl e \<Rightarrow> Some e | Inr _ \<Rightarrow> None)"

theorem parse_data_errors_witness:
  "\<exists>m. parse_data sample_validator id headless_file = Inl (HttpException m 422)"
proof -
  have "error_of (parse_data sample_validator id headless_file) \<noteq> None"
    "error_of (parse_data sample_validator id headless_file) \<noteq> Some inherited_name_error"
    by code_simp+
  then obtain e where e: "parse_data sample_validator id headless_file = Inl e" "e \<noteq> inherited_name_error"
    by (cases "parse_data sample_validator id headless_file") (auto simp: error_of_def)
  from parse_data_errors [OF e(1)] e show ?thesis by (auto simp: headless_file_def)
qed

definition sample_output :: "csv_product_output js_object" where
  "sample_output =
    [(''tea'', \<lparr>name = ''tea'', inputImageUrls = [''u'', ''v''], outputImageUrls = [''x'', ''y'']\<rparr>),
     (''cup'', \<lparr>name = ''cup'', inputImageUrls = [''w''], outputImageUrls = [''z'']\<rparr>)]"

theorem build_csv_roundtrip_witness:
  "map parse_cols (split_rows (build_csv sample_output)) =
    [Inr CSV_OUTPUT_HEADERS, Inr [''1'', ''tea'', ''u,v'', ''x,y''], Inr [''2'', ''cup'', ''w'', ''z''], Inr [[]]]"
proof -
  have "\<forall>p \<in> set (js_values sample_output). writable p" by code_simp
  moreover have "output_cols 1 (js_values sample_output) =
      [[''1'', ''tea'', ''u,v'', ''x,y''], [''2'', ''cup'', ''w'', ''z'']]" by code_simp
  ultimately show ?thesis using build_csv_roundtrip [of sample_output] by simp
qed

definition comma_product :: csv_product_output where
  "comma_product = \<lparr>name = ''tea,cup'', inputImageUrls = [''u''], outputImageUrls = [''x'']\<rparr>"

theorem build_csv_comma_in_name_witness:
  "parse_cols (output_row 1 comma_product) = Inr [''1'', ''tea'', ''cup'', ''u'', ''x'']"
proof -
  have "writable_urls (inputImageUrls comma_product)" "writable_urls (outputImageUrls comma_product)"
    "writable_name ''tea''" "writable_name ''cup''" "name comma_product = ''tea'' @ '','' @ ''cup''"
    by code_simp+
  moreover have "join '','' (inputImageUrls comma_product) = ''u''" "join '','' (outputImageUrls comma_product) = ''x''"
    "decimal 1 = ''1''"
    by code_simp+
  ultimately show ?thesis using build_csv_comma_in_name [of comma_product "''tea''" "''cup''" 1] by simp
qed

end
