(* ===== verification/Scheduling.thy ===== *)
theory Scheduling
  imports Processing KafkaService Consumption CsvRefine
begin

text \<open>
  From an upload to a queued request: the messaging entity
  (\<open>entities/messaging/services/image-processing.messaging.entity.ts\<close>, \<open>messaging.entity.ts\<close>), the scheduling
  and status services and the controller of \<open>modules/image-processing\<close>. The world is a pair, the database's state
  and the broker's. The multipart body is a parameter: the parts the decorator delivers and the error it may
  end with; the uuid drawn for the request is an argument.
\<close>

subsection \<open>Messaging\<close>

record messaging_config =
  mc_topic :: string
  mc_partitions :: int
  mc_dlq_required :: bool
  mc_dlq_topic :: string
  mc_dlq_partitions :: int
  mc_group :: string
  mc_schemas_dir :: string
  mc_node_env :: string

definition products_jv :: "csv_product js_object \<Rightarrow> jv" where
  "products_jv ps = JObj (map (\<lambda>(k, p). (k, product_jv p)) ps)"

definition processing_message :: "string \<Rightarrow> csv_product js_object \<Rightarrow> string \<Rightarrow> queue_message" where
  "processing_message requestId ps webhookUrl =
    \<lparr>qm_key = JStr requestId,
     qm_value = JObj [(''requestId'', JStr requestId), (''products'', products_jv ps),
                      (''webhookUrl'', JStr webhookUrl)]\<rparr>"

definition publish_processing_request ::
  "('q, 'b) kafka_producer \<Rightarrow> apm_conf \<Rightarrow> messaging_config \<Rightarrow> string \<Rightarrow> csv_product js_object \<Rightarrow> string \<Rightarrow>
   ('q, string) act" where
  "publish_processing_request K A cfg requestId ps webhookUrl =
    thenDo (publish K A (mc_topic cfg) (processing_message requestId ps webhookUrl) True) (returning requestId)"

text \<open>\<open>subscribe\<close>: the consumer group, the topic, with a dead letter queue and schemas.\<close>

definition messaging_subscribe ::
  "('w, 'b, 'c) kafka_consumer_service \<Rightarrow> 'c list \<Rightarrow> messaging_config \<Rightarrow> ('w, 'c list) act" where
  "messaging_subscribe C consumers cfg =
    subscribe C consumers [(''groupId'', JStr (mc_group cfg))]
      \<lparr>sb_topics = [mc_topic cfg], sb_fromBeginning = None, sb_dlqRequired = True, sb_schemaEnabled = True\<rparr>"

text \<open>\<open>processor\<close>: the handler gets the message's value.\<close>

definition messaging_processor :: "(jv \<Rightarrow> ('w, unit) act) \<Rightarrow> decoded_msg \<Rightarrow> ('w, unit) act" where
  "messaging_processor handler msg = handler (dm_value msg)"

definition initialize_topics :: "('w, 'b, 'c) kafka_service \<Rightarrow> messaging_config \<Rightarrow> ('w, unit) act" where
  "initialize_topics K cfg =
    thenDo (create_topic K (mc_topic cfg, Some (mc_partitions cfg)))
      (if mc_dlq_required cfg
       then thenDo (create_topic K (mc_dlq_topic cfg, Some (mc_dlq_partitions cfg))) (returning ())
       else returning ())"

text \<open>
  \<open>registerSchemas\<close> over the names of the directory: the subject is the name up to its first dot, with the
  environment's name.
\<close>

definition schema_subject :: "string \<Rightarrow> string \<Rightarrow> string" where
  "schema_subject env p = hd (split_on CHR ''.'' p) @ ''-'' @ env"

definition register_schemas ::
  "('w, 'b, 'c) kafka_service \<Rightarrow> messaging_config \<Rightarrow> exn + string list \<Rightarrow> ('w, unit) act" where
  "register_schemas K cfg listing =
    andThen (pure_result listing) (\<lambda>names.
      for_each (\<lambda>p. thenDo
          (register_schema K (Schema_path (path_join [mc_schemas_dir cfg, p])) (schema_subject (mc_node_env cfg) p) [])
          (returning ()))
        names)"

subsection \<open>Scheduling and status\<close>

definition on_queue :: "('q, 'a) act \<Rightarrow> ('d \<times> 'q, 'a) act" where
  "on_queue m s =
    (case m \<lparr>world = snd (world s), files = files s, log_lines = log_lines s, apm_events = apm_events s\<rparr> of
       (r, t) \<Rightarrow> (r, \<lparr>world = (fst (world s), world t), files = files t, log_lines = log_lines t,
                     apm_events = apm_events t\<rparr>))"

definition input_doc :: "csv_product \<Rightarrow> product_doc" where
  "input_doc p = \<lparr>pd_name = name p, pd_inputImageUrls = inputImageUrls p, pd_outputImageUrls = None\<rparr>"

definition accepted_request :: "string \<Rightarrow> csv_product js_object \<Rightarrow> string \<Rightarrow> request_doc" where
  "accepted_request requestId ps webhookUrl =
    \<lparr>rq_requestId = requestId, rq_status = ACCEPTED, rq_message = status_message ACCEPTED,
     rq_webhookUrl = webhookUrl, rq_products = map (\<lambda>(k, p). (k, input_doc p)) ps\<rparr>"

record ('d, 'q, 'b) api_services =
  as_model :: "'d request_model"
  as_producer :: "('q, 'b) kafka_producer"
  as_apm :: apm_conf
  as_messaging :: messaging_config

definition schedule_image_processing ::
  "('d, 'q, 'b) api_services \<Rightarrow> string \<Rightarrow> csv_product js_object \<Rightarrow> string \<Rightarrow> ('d \<times> 'q, string) act" where
  "schedule_image_processing S uuid ps webhookUrl =
    thenDo (on_db (create_request (as_model S) (accepted_request uuid ps webhookUrl)))
      (thenDo (on_queue (publish_processing_request (as_producer S) (as_apm S) (as_messaging S) uuid ps webhookUrl))
        (returning uuid))"

definition status_service_get :: "('d, 'q, 'b) api_services \<Rightarrow> string \<Rightarrow> ('d \<times> 'q, request_status \<times> string) act" where
  "status_service_get S requestId = on_db (get_status (as_model S) requestId)"

subsection \<open>The controller\<close>

datatype 'b part = File_part "'b readable" string | Field_part string string

record 'b multipart =
  mp_parts :: "'b part list"
  mp_failure :: "exn option"

text \<open>The loop over the parts: the first file is parsed and ends it.\<close>

fun first_file ::
  "validator \<Rightarrow> ('b \<Rightarrow> string) \<Rightarrow> 'b part list \<Rightarrow> exn option \<Rightarrow> exn + csv_data option" where
  "first_file V dec [] None = Inr None"
| "first_file V dec [] (Some e) = Inl e"
| "first_file V dec (File_part f m # ps) fl = map_sum id Some (validate_and_parse V dec f m)"
| "first_file V dec (Field_part n v # ps) fl = first_file V dec ps fl"

definition process_csv ::
  "('d, 'q, 'b) api_services \<Rightarrow> validator \<Rightarrow> ('x \<Rightarrow> string) \<Rightarrow> 'x multipart option \<Rightarrow> string \<Rightarrow> string \<Rightarrow>
   ('d \<times> 'q, nat \<times> string) act" where
  "process_csv S V dec body webhookUrl uuid =
    (case body of
       None \<Rightarrow> raise FILE_NOT_UPLOADED
     | Some mp \<Rightarrow>
         andThen (pure_result (first_file V dec (mp_parts mp) (mp_failure mp))) (\<lambda>csvData.
           case csvData of
             None \<Rightarrow> raise FILE_NOT_UPLOADED
           | Some data \<Rightarrow>
               andThen (schedule_image_processing S uuid (products data) webhookUrl) (\<lambda>requestId.
                 returning (code_of ACCEPTED_CODE, requestId))))"

definition controller_get_status ::
  "('d, 'q, 'b) api_services \<Rightarrow> string \<Rightarrow> ('d \<times> 'q, request_status \<times> string) act" where
  "controller_get_status S requestId = status_service_get S requestId"

subsection \<open>Accepted uploads\<close>

definition queue_of :: "('d \<times> 'q) rt \<Rightarrow> 'q" where
  "queue_of s = snd (world s)"

lemma on_queue_publish:
  "db_of (snd (on_queue (publish_processing_request K A cfg i ps u) s)) = db_of s"
  "queue_of (snd (on_queue (publish_processing_request K A cfg i ps u) s)) =
    snd (send_call K A (mc_topic cfg, processing_message i ps u, True) (queue_of s))"
  "(\<exists>x. fst (on_queue (publish_processing_request K A cfg i ps u) s) = Inr x) \<longleftrightarrow>
    (\<exists>x. fst (send_call K A (mc_topic cfg, processing_message i ps u, True) (queue_of s)) = Inr x)"
proof -
  let ?t = "\<lparr>world = queue_of s, files = files s, log_lines = log_lines s, apm_events = apm_events s\<rparr>"
  let ?m = "processing_message i ps u"
  have w: "world (snd (publish K A (mc_topic cfg) ?m True ?t)) = snd (send_call K A (mc_topic cfg, ?m, True) (queue_of s))"
    using prod_publish.world_after [of K A "(mc_topic cfg, ?m, True)" ?t] by simp
  have o: "fst (publish K A (mc_topic cfg) ?m True ?t) =
      map_sum (\<lambda>e. KafkaProducerServiceError ''Error publishing message to Kafka Producer'' (Some e)) (\<lambda>r. r)
        (fst (send_call K A (mc_topic cfg, ?m, True) (queue_of s)))"
    using prod_publish.outcome [of K A "(mc_topic cfg, ?m, True)" ?t] by simp
  obtain r t where p: "publish K A (mc_topic cfg) ?m True ?t = (r, t)" by (cases "publish K A (mc_topic cfg) ?m True ?t")
  have q: "publish_processing_request K A cfg i ps u ?t = (map_sum id (\<lambda>_. i) r, t)"
    using p by (cases r) (simp_all add: publish_processing_request_def thenDo_def andThen_def returning_eq)
  show "db_of (snd (on_queue (publish_processing_request K A cfg i ps u) s)) = db_of s"
    "queue_of (snd (on_queue (publish_processing_request K A cfg i ps u) s)) =
      snd (send_call K A (mc_topic cfg, ?m, True) (queue_of s))"
    using q w p by (simp_all add: on_queue_def db_of_def queue_of_def split: prod.split)
  show "(\<exists>x. fst (on_queue (publish_processing_request K A cfg i ps u) s) = Inr x) \<longleftrightarrow>
      (\<exists>x. fst (send_call K A (mc_topic cfg, ?m, True) (queue_of s)) = Inr x)"
    using q o p by (cases "fst (send_call K A (mc_topic cfg, ?m, True) (queue_of s))")
      (auto simp: on_queue_def queue_of_def split: prod.split)
qed

text \<open>A scheduled request, in both directions.\<close>

lemma schedule_result:
  assumes "collection_laws (as_model S) docs"
    and "schedule_image_processing S uuid ps webhookUrl s = (Inr i, s')"
  shows "i = uuid \<and> docs (db_of s) uuid = None \<and>
    docs (db_of s') = (docs (db_of s))(uuid \<mapsto> request_defaults (accepted_request uuid ps webhookUrl)) \<and>
    (\<exists>x. send_call (as_producer S) (as_apm S) (mc_topic (as_messaging S), processing_message uuid ps webhookUrl, True)
      (queue_of s) = (Inr x, queue_of s'))"
proof -
  let ?r = "accepted_request uuid ps webhookUrl"
  let ?p = "on_queue (publish_processing_request (as_producer S) (as_apm S) (as_messaging S) uuid ps webhookUrl)"
  let ?c = "send_call (as_producer S) (as_apm S) (mc_topic (as_messaging S), processing_message uuid ps webhookUrl, True)"
  from assms(2) obtain x d s1 y where
      1: "create_request (as_model S) ?r (db_of s) = (Inr x, d)" and s1: "s1 = s\<lparr>world := (d, snd (world s))\<rparr>"
    and 2: "?p s1 = (Inr y, s')" and 3: "i = uuid"
    by (auto simp: schedule_image_processing_def thenDo_result on_db_result returning_eq)
  have "docs (db_of s) uuid = None" "docs d = (docs (db_of s))(uuid \<mapsto> request_defaults ?r)"
    using repo.creat_adds [OF assms(1) 1] by (simp_all add: accepted_request_def)
  moreover have "db_of s' = d" 
    using on_queue_publish(1) [of "as_producer S" "as_apm S" "as_messaging S" uuid ps webhookUrl s1] 2 s1
    by (simp add: db_of_def)
  moreover have "queue_of s1 = queue_of s" by (simp add: s1 queue_of_def)
  moreover have "snd (?c (queue_of s1)) = queue_of s'" "\<exists>x. fst (?c (queue_of s1)) = Inr x"
    using on_queue_publish(2,3) [of "as_producer S" "as_apm S" "as_messaging S" uuid ps webhookUrl s1] 2 by auto
  ultimately show ?thesis using 3 by (metis prod.collapse)
qed

text \<open>
  An upload is answered with 202 and the request's id only when its file was accepted; then the request is stored as
  Accepted with exactly the products of the file, under an id that was free, no other request has changed, and the
  broker has taken one message with the id as key and id, products and webhook as value.
\<close>

theorem process_csv_stored:
  assumes "collection_laws (as_model S) docs"
    and "process_csv S V dec body webhookUrl uuid s = (Inr (code, i), s')"
  shows "code = 202 \<and> i = uuid \<and>
    (\<exists>mp data. body = Some mp \<and> first_file V dec (mp_parts mp) (mp_failure mp) = Inr (Some data) \<and>
      docs (db_of s) uuid = None \<and>
      docs (db_of s') =
        (docs (db_of s))(uuid \<mapsto> request_defaults (accepted_request uuid (products data) webhookUrl)) \<and>
      (\<exists>x. send_call (as_producer S) (as_apm S)
        (mc_topic (as_messaging S), processing_message uuid (products data) webhookUrl, True) (queue_of s) =
        (Inr x, queue_of s')))"
proof -
  from assms(2) obtain mp data where 1: "body = Some mp"
    "first_file V dec (mp_parts mp) (mp_failure mp) = Inr (Some data)"
    and 2: "schedule_image_processing S uuid (products data) webhookUrl s = (Inr i, s')" and 3: "code = 202"
    by (auto simp: process_csv_def result_simps split: option.splits)
  from schedule_result [OF assms(1) 2] 1 3 show ?thesis by blast
qed

text \<open>
  A request without a multipart body, without a file, or whose file is refused has no effect: the error is the
  answer, and database, broker, files and logs are as before.
\<close>

theorem refused_upload_has_no_effect:
  assumes "case body of None \<Rightarrow> True
    | Some mp \<Rightarrow> \<forall>data. first_file V dec (mp_parts mp) (mp_failure mp) \<noteq> Inr (Some data)"
  shows "\<exists>e. process_csv S V dec body webhookUrl uuid s = (Inl e, s) \<and>
    (e = FILE_NOT_UPLOADED \<or>
     (\<exists>mp. body = Some mp \<and> first_file V dec (mp_parts mp) (mp_failure mp) = Inl e))"
proof (cases body)
  case None
  then show ?thesis by (simp add: process_csv_def raise_eq)
next
  case (Some mp)
  then have "first_file V dec (mp_parts mp) (mp_failure mp) \<noteq> Inr (Some data)" for data using assms by simp
  then show ?thesis
    using Some by (cases "first_file V dec (mp_parts mp) (mp_failure mp)")
      (auto simp: process_csv_def andThen_def pure_result_def raise_eq split: option.splits)
qed

text \<open>
  C25: When the broker refuses the message, the caller gets an error, but the request stays behind, stored as
  Accepted with nothing on its way that would ever process it.
\<close>

theorem unpublished_request_stays_accepted:
  assumes "collection_laws (as_model S) docs"
    and "create_request (as_model S) (accepted_request uuid ps webhookUrl) (db_of s) = (Inr x, d)"
    and "send_call (as_producer S) (as_apm S)
      (mc_topic (as_messaging S), processing_message uuid ps webhookUrl, True) (queue_of s) = (Inl e, q)"
  shows "\<exists>err s'. schedule_image_processing S uuid ps webhookUrl s = (Inl err, s') \<and> queue_of s' = q \<and>
    (\<exists>r. docs (db_of s') uuid = Some r \<and> rq_status r = ACCEPTED)"
proof -
  let ?s1 = "s\<lparr>world := (d, snd (world s))\<rparr>"
  let ?p = "on_queue (publish_processing_request (as_producer S) (as_apm S) (as_messaging S) uuid ps webhookUrl)"
  have db: "on_db (create_request (as_model S) (accepted_request uuid ps webhookUrl)) s = (Inr x, ?s1)"
    using assms(2) by (simp add: on_db_result)
  have q: "queue_of ?s1 = queue_of s" by (simp add: queue_of_def)
  obtain r s' where p: "?p ?s1 = (r, s')" by (cases "?p ?s1")
  note facts = on_queue_publish [of "as_producer S" "as_apm S" "as_messaging S" uuid ps webhookUrl ?s1, unfolded p q assms(3)]
  from facts(3) obtain err where r: "r = Inl err" by (cases r) auto
  have "docs d uuid = Some (request_defaults (accepted_request uuid ps webhookUrl))"
    using repo.creat_adds [OF assms(1,2)] by (simp add: accepted_request_def)
  moreover have "db_of s' = d" "queue_of s' = q" using facts(1,2) by (simp_all add: db_of_def)
  ultimately show ?thesis
    using db p r
    by (auto simp: schedule_image_processing_def thenDo_def andThen_def request_defaults_def accepted_request_def)
qed

text \<open>
  The status endpoint answers for a freshly accepted upload: asked with the id that was returned, it says Accepted, with
  the message of that status.
\<close>

theorem accepted_upload_has_status:
  assumes "collection_laws (as_model S) docs"
    and "process_csv S V dec body webhookUrl uuid s = (Inr (code, i), s')"
    and "controller_get_status S i s' = (Inr (st, m), s'')"
  shows "st = ACCEPTED \<and> m = ''request accepted and queued for processing''"
proof -
  from assms(2) obtain ps where 1: "schedule_image_processing S uuid ps webhookUrl s = (Inr i, s')"
    by (auto simp: process_csv_def result_simps split: option.splits)
  have d: "i = uuid" "docs (db_of s') uuid = Some (request_defaults (accepted_request uuid ps webhookUrl))"
    using schedule_result [OF assms(1) 1] by simp_all
  obtain d'' where "get_status (as_model S) i (db_of s') = (Inr (st, m), d'')"
    using assms(3) by (auto simp: controller_get_status_def status_service_get_def on_db_result)
  from repo.status_reads [OF assms(1) this] d show ?thesis
    by (auto simp: request_defaults_def accepted_request_def status_message.simps)
qed

subsection \<open>The statements in a concrete world\<close>

definition sample_messaging :: messaging_config where
  "sample_messaging =
    \<lparr>mc_topic = ''images'', mc_partitions = 1, mc_dlq_required = True, mc_dlq_topic = ''images.DLQ'',
     mc_dlq_partitions = 1, mc_group = ''g'', mc_schemas_dir = ''/schemas'', mc_node_env = ''dev''\<rparr>"

definition sample_api :: "(string \<Rightarrow> request_doc option, sample_world, string) api_services" where
  "sample_api =
    \<lparr>as_model = memory_model, as_producer = sample_producer, as_apm = quiet_apm, as_messaging = sample_messaging\<rparr>"

text \<open>An API whose broker refuses every message.\<close>

definition broken_api :: "(string \<Rightarrow> request_doc option, sample_world, string) api_services" where
  "broken_api = sample_api\<lparr>as_producer :=
    sample_producer\<lparr>kp_send := (\<lambda>t m w. (Inl (new_Error ''no leader''), w))\<rparr>\<rparr>"

definition sample_upload :: "string multipart" where
  "sample_upload = \<lparr>mp_parts = [Field_part ''note'' ''x'', File_part sample_file ''text/csv''], mp_failure = None\<rparr>"

definition empty_world :: "((string \<Rightarrow> request_doc option) \<times> sample_world) rt" where
  "empty_world =
    \<lparr>world = (Map.empty, (Map.empty, [], [])), files = \<lparr>is_dir = (\<lambda>q. q = []), file_at = Map.empty\<rparr>,
     log_lines = [], apm_events = []\<rparr>"

lemma sample_api_laws: "collection_laws (as_model sample_api) id" "collection_laws (as_model broken_api) id"
  using memory_model_laws by (simp_all add: sample_api_def broken_api_def)

lemma sample_first_file:
  "first_file sample_validator id (mp_parts sample_upload) (mp_failure sample_upload) = Inr (Some sample_data)"
  by code_simp

lemma sample_upload_runs:
  "\<exists>s'. process_csv sample_api sample_validator id (Some sample_upload) ''hook'' ''r9'' empty_world = (Inr (202, ''r9''), s')"
proof -
  have "fst (process_csv sample_api sample_validator id (Some sample_upload) ''hook'' ''r9'' empty_world) = Inr (202, ''r9'')"
    by code_simp
  then show ?thesis by (metis prod.collapse)
qed

theorem process_csv_stored_witness:
  "\<exists>s' r. process_csv sample_api sample_validator id (Some sample_upload) ''hook'' ''r9'' empty_world =
      (Inr (202, ''r9''), s') \<and>
    db_of s' ''r9'' = Some r \<and> rq_status r = ACCEPTED \<and> map fst (rq_products r) = [''tea'', ''cup'']"
proof -
  obtain s' where run: "process_csv sample_api sample_validator id (Some sample_upload) ''hook'' ''r9'' empty_world =
      (Inr (202, ''r9''), s')"
    using sample_upload_runs by blast
  have "map fst (products sample_data) = [''tea'', ''cup'']" by code_simp
  then show ?thesis
    using process_csv_stored [OF sample_api_laws(1) run] run
    by (auto simp: sample_first_file request_defaults_def accepted_request_def comp_def split_def)
qed

theorem refused_upload_has_no_effect_witness:
  "\<exists>e. process_csv sample_api sample_validator id
    (Some \<lparr>mp_parts = [File_part sample_file ''image/png''], mp_failure = None\<rparr>) ''hook'' ''r9'' empty_world = (Inl e, empty_world)"
proof -
  let ?body = "Some \<lparr>mp_parts = [File_part sample_file ''image/png''], mp_failure = None\<rparr>"
  have "case ?body of None \<Rightarrow> True
    | Some mp \<Rightarrow> \<forall>data. first_file sample_validator id (mp_parts mp) (mp_failure mp) \<noteq> Inr (Some data)"
    by (simp add: validate_and_parse_def validate_mime_type_def ALLOWED_MIME_TYPE_def)
  from refused_upload_has_no_effect [OF this] show ?thesis by blast
qed

theorem unpublished_request_stays_accepted_witness:
  "\<exists>err s' r. schedule_image_processing broken_api ''r9'' [] ''hook'' empty_world = (Inl err, s') \<and>
    db_of s' ''r9'' = Some r \<and> rq_status r = ACCEPTED"
proof -
  have c: "create_request (as_model broken_api) (accepted_request ''r9'' [] ''hook'') (db_of empty_world) =
      (Inr (request_defaults (accepted_request ''r9'' [] ''hook'')),
       Map.empty(''r9'' \<mapsto> request_defaults (accepted_request ''r9'' [] ''hook'')))"
    by (simp add: create_request_def broken_api_def sample_api_def memory_model_def accepted_request_def
        db_of_def empty_world_def)
  have q: "send_call (as_producer broken_api) (as_apm broken_api)
      (mc_topic (as_messaging broken_api), processing_message ''r9'' [] ''hook'', True) (queue_of empty_world) =
      (Inl (new_Error ''no leader''), queue_of empty_world)"
    by (simp add: send_call_def payload_call_def broken_api_def sample_api_def sample_producer_def)
  from unpublished_request_stays_accepted [OF sample_api_laws(2) c q] show ?thesis by auto
qed

theorem accepted_upload_has_status_witness:
  "\<exists>s' s''. process_csv sample_api sample_validator id (Some sample_upload) ''hook'' ''r9'' empty_world =
      (Inr (202, ''r9''), s') \<and>
    controller_get_status sample_api ''r9'' s' = (Inr (ACCEPTED, ''request accepted and queued for processing''), s'')"
proof -
  let ?up = "process_csv sample_api sample_validator id (Some sample_upload) ''hook'' ''r9'' empty_world"
  obtain s' where run: "?up = (Inr (202, ''r9''), s')" using sample_upload_runs by blast
  have "\<exists>x. fst (controller_get_status sample_api ''r9'' (snd ?up)) = Inr x"
    by (rule exI [of _ "(ACCEPTED, status_message ACCEPTED)"]) code_simp
  then obtain st m s'' where get: "controller_get_status sample_api ''r9'' s' = (Inr (st, m), s'')"
    using run by (cases "controller_get_status sample_api ''r9'' s'") auto
  from accepted_upload_has_status [OF sample_api_laws(1) run get] get run show ?thesis by blast
qed

end
