(* ===== verification/Lifecycle.thy ===== *)
theory Lifecycle
  imports Scheduling
begin

text \<open>
  The life of a request as a state machine over its stored status, and the proof that the API and the processor,
  in any sequence of their operations and whatever fails in them, only take its steps. A write that rejects
  may have been applied or not (\<open>write_laws\<close>).
\<close>

subsection \<open>The state machine\<close>

text \<open>\<open>None\<close>: no such request. A redelivered message starts a finished request again.\<close>

inductive status_step :: "request_status option \<Rightarrow> request_status option \<Rightarrow> bool" where
  schedule: "status_step None (Some ACCEPTED)"
| start: "status_step (Some a) (Some PROCESSING)"
| succeed: "status_step (Some PROCESSING) (Some SUCCEEDED)"
| fail: "status_step (Some a) (Some FAILED)"

code_pred status_step .

inductive_simps status_step_simps: "status_step a b"
inductive_cases status_step_to_accepted: "status_step a (Some ACCEPTED)"
inductive_cases status_step_to_none: "status_step a None"

text \<open>Invariants of the machine, by induction on its runs.\<close>

lemma request_never_vanishes: "status_step\<^sup>*\<^sup>* a b \<Longrightarrow> a \<noteq> None \<Longrightarrow> b \<noteq> None"
proof (induction rule: rtranclp_induct)
  case (step y z)
  then show ?case by (cases z) (auto elim: status_step_to_none)
qed simp

lemma accepted_only_at_start: "status_step\<^sup>*\<^sup>* a b \<Longrightarrow> a \<noteq> None \<Longrightarrow> b = Some ACCEPTED \<Longrightarrow> a = Some ACCEPTED"
proof (induction rule: rtranclp_induct)
  case (step y z)
  then have "y \<noteq> None" using request_never_vanishes by blast
  with step show ?case by (auto elim: status_step_to_accepted)
qed simp

subsection \<open>The documents\<close>

type_synonym documents = "string \<Rightarrow> request_doc option"

text \<open>An entry of a finished request: one output url per input url.\<close>

definition finished_entry :: "product_doc \<Rightarrow> bool" where
  "finished_entry p \<longleftrightarrow> (\<exists>us. pd_outputImageUrls p = Some us \<and> length us = length (pd_inputImageUrls p))"

definition finished_doc :: "request_doc \<Rightarrow> bool" where
  "finished_doc r \<longleftrightarrow> (rq_status r = SUCCEEDED \<longrightarrow> (\<forall>(k, p) \<in> set (rq_products r). finished_entry p))"

text \<open>What one database call of the service does to the stored documents.\<close>

inductive doc_step :: "documents \<Rightarrow> documents \<Rightarrow> bool" where
  created: "D (rq_requestId r) = None \<Longrightarrow> rq_status r = ACCEPTED \<Longrightarrow>
    doc_step D (D(rq_requestId r \<mapsto> request_defaults r))"
| moved: "D i = Some x \<Longrightarrow> st = PROCESSING \<or> st = FAILED \<Longrightarrow>
    doc_step D (D(i \<mapsto> apply_patch \<lparr>up_status = Some st, up_message = Some msg, up_products = None\<rparr> x))"
| completed: "D i = Some x \<Longrightarrow> rq_status x = PROCESSING \<Longrightarrow>
    \<forall>(k, q) \<in> set processed. length (outputImageUrls q) = length (inputImageUrls q) \<Longrightarrow>
    doc_step D (D(i \<mapsto> apply_patch \<lparr>up_status = Some SUCCEEDED, up_message = Some (status_message SUCCEEDED),
      up_products = Some (output_docs processed)\<rparr> x))"

lemma apply_patch_status: "rq_status (apply_patch u x) = (case up_status u of None \<Rightarrow> rq_status x | Some a \<Rightarrow> a)"
  by (simp add: apply_patch_def request_defaults_def)

lemma request_defaults_status: "rq_status (request_defaults r) = rq_status r"
  by (simp add: request_defaults_def)

lemma apply_patch_products:
  "rq_products (apply_patch u x) =
    map (\<lambda>(k, p). (k, product_defaults p)) (case up_products u of None \<Rightarrow> rq_products x | Some ps \<Rightarrow> ps)"
  by (simp add: apply_patch_def request_defaults_def)

text \<open>The documents refine the state machine, and a Succeeded document is finished.\<close>

lemma doc_step_status:
  "doc_step D D' \<Longrightarrow> status_step\<^sup>*\<^sup>* (map_option rq_status (D i)) (map_option rq_status (D' i))"
  by (induction rule: doc_step.induct)
    (auto simp: apply_patch_status request_defaults_status intro!: r_into_rtranclp intro: status_step.intros)

lemma doc_step_finished:
  "doc_step D D' \<Longrightarrow> (\<And>i r. D i = Some r \<Longrightarrow> finished_doc r) \<Longrightarrow> D' i = Some r \<Longrightarrow> finished_doc r"
proof (induction rule: doc_step.induct)
  case (completed D j x processed)
  show ?case
  proof (cases "i = j")
    case True
    then have "r = apply_patch \<lparr>up_status = Some SUCCEEDED, up_message = Some (status_message SUCCEEDED),
        up_products = Some (output_docs processed)\<rparr> x"
      using completed.prems(2) by simp
    then have "rq_products r = output_docs processed"
      using output_docs_defaults by (simp add: apply_patch_products)
    then show ?thesis
      using completed.hyps(3) by (auto simp: finished_doc_def finished_entry_def output_docs_def output_doc_def)
  next
    case False
    then show ?thesis using completed.prems by simp
  qed
qed (auto simp: finished_doc_def apply_patch_status request_defaults_status split: if_splits)

lemma doc_steps_status:
  "doc_step\<^sup>*\<^sup>* D D' \<Longrightarrow> status_step\<^sup>*\<^sup>* (map_option rq_status (D i)) (map_option rq_status (D' i))"
proof (induction rule: rtranclp_induct)
  case (step y z)
  from step.IH doc_step_status [OF step.hyps(2), of i] show ?case by (rule rtranclp_trans)
qed simp

lemma doc_steps_finished:
  "doc_step\<^sup>*\<^sup>* D D' \<Longrightarrow> \<forall>i r. D i = Some r \<longrightarrow> finished_doc r \<Longrightarrow> \<forall>i r. D' i = Some r \<longrightarrow> finished_doc r"
  by (induction rule: rtranclp_induct) (auto dest: doc_step_finished)

subsection \<open>The operations on the database\<close>

text \<open>
  What the documentation of MongoDB promises of a write that rejects, for instance because the connection broke after the
  command was sent: it has been applied to the one document it addresses, or not at all.
\<close>

definition write_laws :: "'d request_model \<Rightarrow> ('d \<Rightarrow> string \<Rightarrow> request_doc option) \<Rightarrow> bool" where
  "write_laws M docs \<longleftrightarrow> collection_laws M docs \<and>
    (\<forall>r d e d'. mg_create M r d = (Inl e, d') \<longrightarrow> docs d' = docs d \<or>
       docs d (rq_requestId r) = None \<and> docs d' = (docs d)(rq_requestId r \<mapsto> request_defaults r)) \<and>
    (\<forall>i u d e d'. mg_findOneAndUpdate M i u d = (Inl e, d') \<longrightarrow> docs d' = docs d \<or>
       (\<exists>x. docs d i = Some x \<and> docs d' = (docs d)(i \<mapsto> apply_patch u x)))"

lemma rejected_update:
  assumes "write_laws M docs" and "update_request M i u d = (Inl e, d')"
  obtains "docs d' = docs d" | x where "docs d i = Some x" "docs d' = (docs d)(i \<mapsto> apply_patch u x)"
proof -
  obtain x where c: "mg_findOneAndUpdate M i u d = (x, d')"
    using assms(2) by (cases "mg_findOneAndUpdate M i u d")
      (auto simp: update_request_def found_or_404_def split: sum.splits option.splits)
  show ?thesis
  proof (cases x)
    case (Inl e)
    then show ?thesis using assms(1) c that unfolding write_laws_def by blast
  next
    case (Inr y)
    then have "y = None" using assms(2) c
      by (auto simp: update_request_def found_or_404_def split: option.splits)
    then show ?thesis
      using assms(1) c Inr collection_update [of M docs i u d y d'] that(1) by (auto simp: write_laws_def)
  qed
qed

lemma any_update:
  assumes "write_laws M docs" and "update_request M i u d = (r, d')"
  obtains "docs d' = docs d" | x where "docs d i = Some x" "docs d' = (docs d)(i \<mapsto> apply_patch u x)"
proof (cases r)
  case (Inl e)
  then show ?thesis using rejected_update [OF assms(1)] assms(2) that by blast
next
  case (Inr x)
  then show ?thesis
    using repo.update_changes [of M docs] assms that(2) [of x] by (simp add: write_laws_def)
qed

lemma update_status_steps:
  assumes "write_laws M docs" and "update_status M i st msg d = (r, d')" and "st = PROCESSING \<or> st = FAILED"
  shows "doc_step\<^sup>*\<^sup>* (docs d) (docs d')"
  using any_update [OF assms(1) assms(2) [unfolded update_status_request]] doc_step.moved [of "docs d" i _ st msg] assms(3)
  by (metis r_into_rtranclp rtranclp.rtrancl_refl)

lemma create_steps:
  assumes "write_laws M docs" and "create_request M r d = (x, d')" and "rq_status r = ACCEPTED"
  shows "doc_step\<^sup>*\<^sup>* (docs d) (docs d')"
proof (cases x)
  case (Inl e)
  then have "docs d' = docs d \<or>
      docs d (rq_requestId r) = None \<and> docs d' = (docs d)(rq_requestId r \<mapsto> request_defaults r)"
    using assms(1,2) unfolding write_laws_def create_request_def by blast
  then show ?thesis using doc_step.created [of "docs d" r] assms(3) by auto
next
  case (Inr y)
  have "docs d (rq_requestId r) = None \<and> docs d' = (docs d)(rq_requestId r \<mapsto> request_defaults r)"
    using repo.creat_adds [of M docs] assms(1,2) Inr by (simp add: write_laws_def)
  then show ?thesis using doc_step.created [of "docs d" r] assms(3) by auto
qed

subsection \<open>Processing takes the machine's steps\<close>

lemma on_db_state: "on_db c s = (r, s') \<Longrightarrow> c (db_of s) = (r, db_of s')"
  by (auto simp: on_db_def external_def db_of_def split: prod.splits)

lemma handle_error_steps:
  assumes "write_laws (ip_model P) docs" and "handle_error P i e s = (r, s')"
  shows "doc_step\<^sup>*\<^sup>* (docs (db_of s)) (docs (db_of s'))"
proof -
  obtain x s1 where 1: "delete_directory (temp_dir P i) s = (x, s1)" by (cases "delete_directory (temp_dir P i) s")
  have db: "db_of s1 = db_of s"
    using keepsD [OF keeps_db_base(2)] 1 unfolding delete_directory_def by blast
  show ?thesis
  proof (cases x)
    case (Inl e')
    then have "s' = s1" using assms(2) 1 by (simp add: handle_error_def Let_def thenDo_def andThen_def)
    then show ?thesis using db by simp
  next
    case (Inr u)
    let ?s2 = "s1\<lparr>log_lines := log_lines s1 @ [Log_line AppLogger LError
      (''Processing failed for request '' @ i @ '': '' @ failure_message e) [JStr i]]\<rparr>"
    obtain y s3 where 3: "on_db (update_status (ip_model P) i FAILED (failure_message e)) ?s2 = (y, s3)"
      by (cases "on_db (update_status (ip_model P) i FAILED (failure_message e)) ?s2")
    have "db_of s' = db_of s3"
      using assms(2) 1 Inr 3
      by (cases y) (auto simp: handle_error_def Let_def thenDo_def andThen_def log_to_def returning_eq)
    moreover have "db_of ?s2 = db_of s" using db by (simp add: db_of_def)
    ultimately show ?thesis using update_status_steps [OF assms(1) on_db_state [OF 3]] by simp
  qed
qed

text \<open>Every entry that is assigned has an output for each of its inputs.\<close>

lemma process_products_complete:
  "process_products P r done ps s = (Inr processed, s') \<Longrightarrow>
    \<forall>(k, q) \<in> set done. length (outputImageUrls q) = length (inputImageUrls q) \<Longrightarrow>
    \<forall>(k, q) \<in> set processed. length (outputImageUrls q) = length (inputImageUrls q)"
proof (induction P r "done" ps arbitrary: s rule: process_products.induct)
  case (1 P r "done")
  then show ?case by (simp add: returning_eq)
next
  case (2 P r "done" n p ps)
  from 2(2) obtain outs s1 where o: "process_urls P r n p [] (inputImageUrls p) s = (Inr outs, s1)"
    and rest: "process_products P r (assign_entry n (with_outputs p outs) done) ps s1 = (Inr processed, s')"
    by (auto simp: result_simps)
  have "length outs = length (inputImageUrls p)"
    using process_urls_outputs [OF o] by (auto dest: list_all2_lengthD)
  then have "\<forall>(k, q) \<in> set (assign_entry n (with_outputs p outs) done). length (outputImageUrls q) = length (inputImageUrls q)"
    using 2(3) set_assign_entry [of n "with_outputs p outs" "done"] by (auto simp: with_outputs_def)
  with 2(1) [OF rest] show ?case by blast
qed

lemma finish_steps:
  assumes "write_laws (ip_model P) docs" and "\<exists>x. docs (db_of s) (pr_requestId req) = Some x \<and> rq_status x = PROCESSING"
    and "\<forall>(k, q) \<in> set processed. length (outputImageUrls q) = length (inputImageUrls q)"
    and "finish P req processed s = (r, s')"
  shows "doc_step\<^sup>*\<^sup>* (docs (db_of s)) (docs (db_of s'))"
proof -
  let ?i = "pr_requestId req"
  let ?u = "\<lparr>up_status = Some SUCCEEDED, up_message = Some (status_message SUCCEEDED),
    up_products = Some (output_docs processed)\<rparr>"
  obtain x s1 where 1: "delete_directory (temp_dir P ?i) s = (x, s1)" by (cases "delete_directory (temp_dir P ?i) s")
  have db: "db_of s1 = db_of s"
    using keepsD [OF keeps_db_base(2)] 1 unfolding delete_directory_def by blast
  obtain y s2 where 2: "update_request_success_status P ?i processed s1 = (y, s2)"
    by (cases "update_request_success_status P ?i processed s1")
  have u: "update_request (ip_model P) ?i ?u (db_of s) = (y, db_of s2)"
    using on_db_state [OF 2 [unfolded update_request_success_status_def]] db by simp
  have step: "doc_step\<^sup>*\<^sup>* (docs (db_of s)) (docs (db_of s2))"
  proof (cases rule: any_update [OF assms(1) u, case_names unchanged written])
    case (written z)
    then show ?thesis using doc_step.completed [of "docs (db_of s)" ?i z processed] assms(2,3) by auto
  qed simp
  define rest where "rest = thenDo (call_webhook P ?i (build_csv processed) (pr_webhookUrl req))
    (log_to AppLogger LLog (''Processing completed for request '' @ ?i) [JStr ?i])"
  have keeps: "keeps db_of rest"
    unfolding rest_def call_webhook_def by (intro keeps_db)
  have "finish P req processed s = (case x of Inl e \<Rightarrow> (Inl e, s1)
      | Inr _ \<Rightarrow> (case y of Inl e \<Rightarrow> (Inl e, s2) | Inr _ \<Rightarrow> rest s2))"
    using 1 2 by (simp add: finish_def rest_def thenDo_def andThen_def split: sum.split)
  then have "db_of s' = db_of s1 \<or> db_of s' = db_of s2"
    using assms(4) keepsD [OF keeps, of s2] by (cases x; cases y; cases "rest s2") auto
  then show ?thesis using step db by auto
qed

lemma process_body_steps:
  assumes "write_laws (ip_model P) docs" and "process_body P req s = (r, s')"
  shows "doc_step\<^sup>*\<^sup>* (docs (db_of s)) (docs (db_of s'))"
proof -
  let ?i = "pr_requestId req"
  let ?s0 = "request_started ?i s"
  obtain x s1 where 1: "update_request_processing_status P ?i ?s0 = (x, s1)"
    by (cases "update_request_processing_status P ?i ?s0")
  have u: "update_status (ip_model P) ?i PROCESSING (status_message PROCESSING) (db_of s) = (x, db_of s1)"
    using on_db_state [OF 1 [unfolded update_request_processing_status_def]]
    by (simp add: db_of_def request_started_def)
  have first: "doc_step\<^sup>*\<^sup>* (docs (db_of s)) (docs (db_of s1))"
    using update_status_steps [OF assms(1) u] by simp
  have body: "process_body P req s = (case x of Inl e \<Rightarrow> (Inl e, s1)
      | Inr _ \<Rightarrow> andThen (process_products P ?i [] (pr_products req)) (finish P req) s1)"
    using 1 by (simp add: process_body_finish act_simps thenDo_def [of "update_request_processing_status P ?i"]
        andThen_def [of "update_request_processing_status P ?i"] request_started_def split: sum.split)
  show ?thesis
  proof (cases x)
    case (Inl e)
    then show ?thesis using first body assms(2) by simp
  next
    case (Inr z)
    have now: "\<exists>x. docs (db_of s1) ?i = Some x \<and> rq_status x = PROCESSING"
      using processing_status_written [of "P" docs ?i] assms(1) u Inr by (simp add: write_laws_def)
    obtain y s2 where 2: "process_products P ?i [] (pr_products req) s1 = (y, s2)"
      by (cases "process_products P ?i [] (pr_products req) s1")
    have kept: "db_of s2 = db_of s1" using keepsD [OF keeps_db_process_products 2] .
    show ?thesis
    proof (cases y)
      case (Inl e)
      then show ?thesis using first kept body assms(2) Inr 2 by (simp add: andThen_def)
    next
      case (Inr processed)
      then have "finish P req processed s2 = (r, s')"
        using body assms(2) \<open>x = Inr z\<close> 2 by (simp add: andThen_def)
      from finish_steps [OF assms(1) _ _ this] now kept first process_products_complete [of P ?i "[]"] 2 Inr
      show ?thesis by simp
    qed
  qed
qed

lemma process_steps:
  assumes "write_laws (ip_model P) docs" and "process P req s = (r, s')"
  shows "doc_step\<^sup>*\<^sup>* (docs (db_of s)) (docs (db_of s'))"
proof -
  obtain x s1 where 1: "process_body P req s = (x, s1)" by (cases "process_body P req s")
  note body = process_body_steps [OF assms(1) 1]
  show ?thesis
  proof (cases x)
    case (Inl e)
    then have "handle_error P (pr_requestId req) e s1 = (r, s')" using assms(2) 1 by (simp add: process_def tryCatch_def)
    from handle_error_steps [OF assms(1) this] body show ?thesis by simp
  next
    case (Inr u)
    then show ?thesis using assms(2) 1 body by (simp add: process_def tryCatch_def)
  qed
qed

lemma schedule_steps:
  assumes "write_laws (as_model S) docs" and "schedule_image_processing S uuid ps webhookUrl s = (r, s')"
  shows "doc_step\<^sup>*\<^sup>* (docs (db_of s)) (docs (db_of s'))"
proof -
  let ?r = "accepted_request uuid ps webhookUrl"
  let ?p = "on_queue (publish_processing_request (as_producer S) (as_apm S) (as_messaging S) uuid ps webhookUrl)"
  obtain x s1 where 1: "on_db (create_request (as_model S) ?r) s = (x, s1)"
    by (cases "on_db (create_request (as_model S) ?r) s")
  have "rq_status ?r = ACCEPTED" by (simp add: accepted_request_def)
  note created = create_steps [OF assms(1) on_db_state [OF 1] this]
  obtain y s2 where 2: "?p s1 = (y, s2)" by (cases "?p s1")
  have "db_of s2 = db_of s1"
    using on_queue_publish(1) [of "as_producer S" "as_apm S" "as_messaging S" uuid ps webhookUrl s1] 2 by simp
  moreover have "s' = s1 \<or> s' = s2"
    using assms(2) 1 2 by (cases x; cases y) (auto simp: schedule_image_processing_def thenDo_def andThen_def returning_eq)
  ultimately show ?thesis using created by auto
qed

subsection \<open>The system\<close>

text \<open>
  One operation of the service on the database: an API process schedules a request, or a consumer processes one, each in
  any state of the rest of the world and with any outcome.
\<close>

inductive service_step ::
  "('d, 'q, 'b) api_services \<Rightarrow> ('d, 'h) image_processor \<Rightarrow> 'd \<Rightarrow> 'd \<Rightarrow> bool"
  for S P where
  scheduled: "schedule_image_processing S uuid ps webhookUrl s = (r, s') \<Longrightarrow> service_step S P (db_of s) (db_of s')"
| processed: "process P req t = (r', t') \<Longrightarrow> service_step S P (db_of t) (db_of t')"

lemma service_steps:
  assumes "write_laws (as_model S) docs" and "write_laws (ip_model P) docs" and "(service_step S P)\<^sup>*\<^sup>* d d'"
  shows "doc_step\<^sup>*\<^sup>* (docs d) (docs d')"
  using assms(3)
proof (induction rule: rtranclp_induct)
  case base
  then show ?case by simp
next
  case (step y z)
  from step.hyps(2) have "doc_step\<^sup>*\<^sup>* (docs y) (docs z)"
    by cases (auto dest: schedule_steps [OF assms(1)] process_steps [OF assms(2)])
  with step.IH show ?case by (rule rtranclp_trans)
qed

text \<open>
  C13: Over any sequence of scheduling and processing operations, on any requests and with any failures, a stored request
  is never lost, and it never becomes Accepted again once it has left that status.
\<close>

theorem request_lifecycle:
  assumes "write_laws (as_model S) docs" and "write_laws (ip_model P) docs"
    and "(service_step S P)\<^sup>*\<^sup>* d d'" and "docs d i = Some r"
  shows "\<exists>r'. docs d' i = Some r' \<and> (rq_status r' = ACCEPTED \<longrightarrow> rq_status r = ACCEPTED)"
proof -
  have run: "status_step\<^sup>*\<^sup>* (Some (rq_status r)) (map_option rq_status (docs d' i))"
    using doc_steps_status [OF service_steps [OF assms(1-3)], of i] assms(4) by simp
  then obtain r' where "docs d' i = Some r'"
    using request_never_vanishes by force
  then show ?thesis using accepted_only_at_start [OF run] by simp
qed

text \<open>
  C12: Over any such sequence, a request that is stored as Succeeded has, for every product, exactly as many output urls as
  input urls: a partly processed request is never stored as Succeeded.
\<close>

theorem succeeded_requests_are_finished:
  assumes "write_laws (as_model S) docs" and "write_laws (ip_model P) docs"
    and "(service_step S P)\<^sup>*\<^sup>* d d'" and "\<forall>i r. docs d i = Some r \<longrightarrow> finished_doc r"
  shows "\<forall>i r. docs d' i = Some r \<and> rq_status r = SUCCEEDED \<longrightarrow>
    (\<forall>(k, p) \<in> set (rq_products r). finished_entry p)"
  using doc_steps_finished [OF service_steps [OF assms(1-3)] assms(4)] unfolding finished_doc_def by blast

subsection \<open>The statements in a concrete world\<close>

lemma memory_writes: "write_laws memory_model id"
  using memory_model_laws by (auto simp: write_laws_def memory_model_def split: if_splits)

lemma sample_writes: "write_laws (as_model sample_api) id" "write_laws (ip_model sample_processor) id"
  using memory_writes by (simp_all add: sample_api_def sample_processor_def)

text \<open>The request of the samples is processed.\<close>

lemma sample_service_run:
  "(service_step sample_api sample_processor)\<^sup>*\<^sup>* sample_db
    (db_of (snd (process sample_processor (sample_job ''hook'' [''a'', ''b'']) sample_run)))"
proof -
  have "db_of sample_run = sample_db" by (simp add: db_of_def sample_run_def)
  then show ?thesis
    using service_step.processed [of sample_processor "sample_job ''hook'' [''a'', ''b'']" sample_run _ _ sample_api]
    by (metis prod.collapse r_into_rtranclp)
qed

theorem request_lifecycle_witness:
  "\<exists>r'. db_of (snd (process sample_processor (sample_job ''hook'' [''a'', ''b'']) sample_run)) ''r1'' = Some r'"
proof -
  have "id sample_db ''r1'' = Some sample_request" by (simp add: sample_db_def)
  from request_lifecycle [where docs = id, OF sample_writes sample_service_run this] show ?thesis by auto
qed

theorem succeeded_requests_are_finished_witness:
  "\<exists>r. db_of (snd (process sample_processor (sample_job ''hook'' [''a'', ''b'']) sample_run)) ''r1'' = Some r \<and>
    rq_status r = SUCCEEDED \<and> list_all (\<lambda>(k, p). finished_entry p) (rq_products r)"
proof -
  let ?d = "db_of (snd (process sample_processor (sample_job ''hook'' [''a'', ''b'']) sample_run))"
  have start: "\<forall>i r. id sample_db i = Some r \<longrightarrow> finished_doc r"
    by (simp add: sample_db_def sample_request_def finished_doc_def)
  have "map_option rq_status (?d ''r1'') = Some SUCCEEDED" by code_simp
  then obtain r where r: "?d ''r1'' = Some r" "rq_status r = SUCCEEDED" by auto
  with succeeded_requests_are_finished [where docs = id, OF sample_writes sample_service_run start] show ?thesis
    by (auto simp: list_all_iff)
qed

end
