(* ===== verification/Interleaving.thy ===== *)
theory Interleaving
  imports Lifecycle
begin

text \<open>
  Requests that are scheduled and processed at the same time. What one operation does to a shared database is the
  sequence of commands it issues, found by running it against a model that records them and answers whatever an oracle says: between
  two of its commands anything may have happened. The invariants of \<open>Lifecycle\<close> then hold for every interleaving of the
  commands of any number of operations.
\<close>

subsection \<open>Recorded commands\<close>

datatype db_command = Create request_doc | Update string request_patch

text \<open>\<open>ans\<close> answers a command, given everything issued so far.\<close>

definition recorder ::
  "(db_command list \<Rightarrow> exn + request_doc) \<Rightarrow> (db_command list \<Rightarrow> exn + request_doc option) \<Rightarrow>
   db_command list request_model" where
  "recorder created found =
    \<lparr>mg_create = (\<lambda>r cs. let cs' = cs @ [Create r] in (created cs', cs')),
     mg_findOneAndUpdate = (\<lambda>i u cs. let cs' = cs @ [Update i u] in (found cs', cs')),
     mg_findOne = (\<lambda>i cs. (found cs, cs))\<rparr>"

definition processor_on :: "'e request_model \<Rightarrow> ('d, 'h) image_processor \<Rightarrow> ('e, 'h) image_processor" where
  "processor_on M P =
    \<lparr>ip_model = M, ip_http = ip_http P, ip_sharp = ip_sharp P, ip_mime_extension = ip_mime_extension P,
     ip_tmpdir = ip_tmpdir P, ip_base_url = ip_base_url P, ip_author = ip_author P, ip_email = ip_email P,
     ip_branch = ip_branch P, ip_token = ip_token P\<rparr>"

definition services_on :: "'e request_model \<Rightarrow> ('d, 'q, 'b) api_services \<Rightarrow> ('e, 'q, 'b) api_services" where
  "services_on M S =
    \<lparr>as_model = M, as_producer = as_producer S, as_apm = as_apm S, as_messaging = as_messaging S\<rparr>"

text \<open>A command that some execution of the service issues, whatever the database answers it.\<close>

inductive service_command :: "('d, 'q, 'b) api_services \<Rightarrow> ('d, 'h) image_processor \<Rightarrow> db_command \<Rightarrow> bool"
  for S P where
  scheduling: "schedule_image_processing (services_on (recorder created found) S) uuid ps webhookUrl s = (r, s') \<Longrightarrow>
    db_of s = [] \<Longrightarrow> c \<in> set (db_of s') \<Longrightarrow> service_command S P c"
| processing: "process (processor_on (recorder created found) P) req s = (r, s') \<Longrightarrow>
    db_of s = [] \<Longrightarrow> c \<in> set (db_of s') \<Longrightarrow> service_command S P c"

text \<open>A database that executes commands.\<close>

fun execute :: "'d request_model \<Rightarrow> db_command \<Rightarrow> 'd \<Rightarrow> 'd" where
  "execute M (Create r) d = snd (mg_create M r d)"
| "execute M (Update i u) d = snd (mg_findOneAndUpdate M i u d)"

subsection \<open>The commands of a processed request\<close>

definition status_command :: "string \<Rightarrow> request_status \<Rightarrow> string \<Rightarrow> db_command" where
  "status_command i st msg = Update i \<lparr>up_status = Some st, up_message = Some msg, up_products = None\<rparr>"

definition complete_command :: "string \<Rightarrow> csv_product_output js_object \<Rightarrow> db_command" where
  "complete_command i processed = Update i
    \<lparr>up_status = Some SUCCEEDED, up_message = Some (status_message SUCCEEDED),
     up_products = Some (output_docs processed)\<rparr>"

definition complete :: "csv_product_output js_object \<Rightarrow> bool" where
  "complete processed \<longleftrightarrow> list_all (\<lambda>(k, q). length (outputImageUrls q) = length (inputImageUrls q)) processed"

lemma recorder_update:
  "update_request (recorder created found) i u cs = (r, cs') \<Longrightarrow> cs' = cs @ [Update i u]"
  by (auto simp: update_request_def found_or_404_def recorder_def Let_def split: sum.splits option.splits)

lemma recorded_status:
  "on_db (update_status (recorder created found) i st msg) s = (r, s') \<Longrightarrow>
    db_of s' = db_of s @ [status_command i st msg]"
  by (drule on_db_state) (simp add: update_status_request status_command_def recorder_update)

lemma on_files_db: "on_files c s = (r, s') \<Longrightarrow> db_of s' = db_of s"
  by (rule keepsD [OF keeps_db_base(2)])

lemma log_db: "log_to k l t vs s = (r, s') \<Longrightarrow> db_of s' = db_of s"
  by (rule keepsD [OF keeps_db_base(1)])

lemma processor_on_model [simp]: "ip_model (processor_on M P) = M"
  by (simp add: processor_on_def)

lemma handle_error_commands:
  assumes "handle_error (processor_on (recorder created found) P) i e s = (r, s')"
  shows "db_of s' = db_of s \<or> db_of s' = db_of s @ [status_command i FAILED (failure_message e)]"
  using assms
  by (auto simp: handle_error_def Let_def thenDo_def andThen_def delete_directory_def returning_eq
      split: prod.splits sum.splits dest!: on_files_db log_db recorded_status)

lemma finish_commands:
  assumes "finish (processor_on (recorder created found) P) req processed s = (r, s')"
  shows "db_of s' = db_of s \<or> db_of s' = db_of s @ [complete_command (pr_requestId req) processed]"
proof -
  have c: "db_of t' = db_of t @ [complete_command (pr_requestId req) processed]"
    if "update_request_success_status (processor_on (recorder created found) P) (pr_requestId req) processed t = (x, t')"
    for t x t'
    using that unfolding update_request_success_status_def
    by (auto simp: complete_command_def dest!: on_db_state recorder_update)
  have w: "db_of t' = db_of t" if "call_webhook (processor_on (recorder created found) P) i csv u t = (x, t')" for i csv u t x t'
    using that keepsD [of db_of "call_webhook (processor_on (recorder created found) P) i csv u"]
    by (simp add: call_webhook_def keeps_db)
  show ?thesis
    using assms
    by (auto simp: finish_def thenDo_def andThen_def delete_directory_def
        split: prod.splits sum.splits dest!: on_files_db log_db c w)
qed

lemma process_body_commands:
  assumes "process_body (processor_on (recorder created found) P) req s = (r, s')"
  shows "\<exists>more. db_of s' = db_of s @ [status_command (pr_requestId req) PROCESSING (status_message PROCESSING)] @ more \<and>
    (more = [] \<or> (\<exists>processed. more = [complete_command (pr_requestId req) processed] \<and> complete processed))"
proof -
  let ?P = "processor_on (recorder created found) P" and ?i = "pr_requestId req"
  obtain x s1 where 1: "update_request_processing_status ?P ?i (request_started ?i s) = (x, s1)"
    by (cases "update_request_processing_status ?P ?i (request_started ?i s)")
  have db: "db_of s1 = db_of s @ [status_command ?i PROCESSING (status_message PROCESSING)]"
    using recorded_status [OF 1 [unfolded update_request_processing_status_def processor_on_model]]
    by (simp add: request_started_def db_of_def)
  obtain y s2 where 2: "process_products ?P ?i [] (pr_products req) s1 = (y, s2)"
    by (cases "process_products ?P ?i [] (pr_products req) s1")
  have kept: "db_of s2 = db_of s1" by (rule keepsD [OF keeps_db_process_products 2])
  have body: "process_body ?P req s = (case x of Inl e \<Rightarrow> (Inl e, s1)
      | Inr _ \<Rightarrow> (case y of Inl e \<Rightarrow> (Inl e, s2) | Inr processed \<Rightarrow> finish ?P req processed s2))"
    using 1 2 by (simp add: process_body_finish act_simps thenDo_def [of "update_request_processing_status ?P ?i"]
        andThen_def request_started_def split: sum.split)
  consider "db_of s' = db_of s1" | processed where "y = Inr processed" "finish ?P req processed s2 = (r, s')"
    using assms body kept by (auto split: sum.splits)
  then show ?thesis
  proof cases
    case 1
    then show ?thesis using db by auto
  next
    case 2
    have "complete processed"
      using process_products_complete [of ?P ?i "[]" "pr_products req" s1 processed s2]
        \<open>process_products ?P ?i [] (pr_products req) s1 = (y, s2)\<close> 2(1) by (auto simp: complete_def list_all_iff)
    then show ?thesis using finish_commands [OF 2(2)] db kept by auto
  qed
qed

text \<open>
  Whatever the database answers, a processed request issues at most three commands, all for itself: it is set to
  Processing, then to Succeeded, with complete products, then -- when that was not the end -- to Failed.
\<close>

lemma process_commands:
  assumes "process (processor_on (recorder created found) P) req s = (r, s')"
  shows "\<exists>finished failed.
    db_of s' = db_of s @ [status_command (pr_requestId req) PROCESSING (status_message PROCESSING)] @ finished @ failed \<and>
    (finished = [] \<or> (\<exists>processed. finished = [complete_command (pr_requestId req) processed] \<and> complete processed)) \<and>
    (failed = [] \<or> (\<exists>e. failed = [status_command (pr_requestId req) FAILED (failure_message e)]))"
proof -
  let ?P = "processor_on (recorder created found) P"
  obtain x s1 where 1: "process_body ?P req s = (x, s1)" by (cases "process_body ?P req s")
  obtain more where more: "db_of s1 = db_of s @ [status_command (pr_requestId req) PROCESSING (status_message PROCESSING)] @ more"
    "more = [] \<or> (\<exists>processed. more = [complete_command (pr_requestId req) processed] \<and> complete processed)"
    using process_body_commands [OF 1] by blast
  show ?thesis
  proof (cases x)
    case (Inl e)
    then have "handle_error ?P (pr_requestId req) e s1 = (r, s')" using assms 1 by (simp add: process_def tryCatch_def)
    from handle_error_commands [OF this] show ?thesis
    proof
      assume "db_of s' = db_of s1"
      then show ?thesis using more by (intro exI [of _ more] exI [of _ "[]"]) simp
    next
      assume "db_of s' = db_of s1 @ [status_command (pr_requestId req) FAILED (failure_message e)]"
      then show ?thesis
        using more exI [of "\<lambda>failed. \<exists>e. failed = [status_command (pr_requestId req) FAILED (failure_message e)]"] by auto
    qed
  next
    case (Inr u)
    then have "s' = s1" using assms 1 by (simp add: process_def tryCatch_def)
    then show ?thesis using more by (intro exI [of _ more] exI [of _ "[]"]) simp
  qed
qed

lemma schedule_commands:
  assumes "schedule_image_processing (services_on (recorder created found) S) uuid ps webhookUrl s = (r, s')"
  shows "db_of s' = db_of s @ [Create (accepted_request uuid ps webhookUrl)]"
proof -
  let ?S = "services_on (recorder created found) S"
  obtain x s1 where 1: "on_db (create_request (as_model ?S) (accepted_request uuid ps webhookUrl)) s = (x, s1)"
    by (cases "on_db (create_request (as_model ?S) (accepted_request uuid ps webhookUrl)) s")
  have db: "db_of s1 = db_of s @ [Create (accepted_request uuid ps webhookUrl)]"
    using on_db_state [OF 1] by (auto simp: services_on_def create_request_def recorder_def Let_def)
  obtain y s2 where 2: "on_queue (publish_processing_request (as_producer ?S) (as_apm ?S) (as_messaging ?S) uuid ps webhookUrl) s1 = (y, s2)"
    by (cases "on_queue (publish_processing_request (as_producer ?S) (as_apm ?S) (as_messaging ?S) uuid ps webhookUrl) s1")
  have "db_of s2 = db_of s1"
    using on_queue_publish(1) [of "as_producer ?S" "as_apm ?S" "as_messaging ?S" uuid ps webhookUrl s1] 2 by simp
  moreover have "s' = s1 \<or> s' = s2"
    using assms 1 2 by (cases x; cases y) (auto simp: schedule_image_processing_def thenDo_def andThen_def returning_eq)
  ultimately show ?thesis using db by auto
qed

subsection \<open>The recorder is faithful\<close>

text \<open>
  The oracle that answers as the database \<open>M\<close>, started in \<open>d\<close>, does. An execution against its recorder and the execution
  against \<open>M\<close> itself have the same outcome, logs and files, and \<open>M\<close> ends where the recorded commands take it.
\<close>

definition replay :: "'d request_model \<Rightarrow> 'd \<Rightarrow> db_command list request_model" where
  "replay M d = recorder
    (\<lambda>cs. case last cs of Create r \<Rightarrow> fst (mg_create M r (fold (execute M) (butlast cs) d)) | Update i u \<Rightarrow> undefined)
    (\<lambda>cs. case last cs of Create r \<Rightarrow> undefined | Update i u \<Rightarrow> fst (mg_findOneAndUpdate M i u (fold (execute M) (butlast cs) d)))"

definition matches :: "'d request_model \<Rightarrow> 'd \<Rightarrow> ('d \<times> 'h) rt \<Rightarrow> (db_command list \<times> 'h) rt \<Rightarrow> bool" where
  "matches M d s t \<longleftrightarrow> fst (world s) = fold (execute M) (fst (world t)) d \<and> snd (world s) = snd (world t) \<and>
    files s = files t \<and> log_lines s = log_lines t \<and> apm_events s = apm_events t"

definition replayed :: "'d request_model \<Rightarrow> 'd \<Rightarrow> ('d \<times> 'h, 'a) act \<Rightarrow> (db_command list \<times> 'h, 'a) act \<Rightarrow> bool" where
  "replayed M d m n \<longleftrightarrow>
    (\<forall>s t. matches M d s t \<longrightarrow> fst (m s) = fst (n t) \<and> matches M d (snd (m s)) (snd (n t)))"

lemma replayedD:
  "replayed M d m n \<Longrightarrow> matches M d s t \<Longrightarrow> m s = (x, s') \<Longrightarrow> \<exists>t'. n t = (x, t') \<and> matches M d s' t'"
  unfolding replayed_def by (metis fst_conv snd_conv surjective_pairing)

lemma replayed_andThen:
  fixes m :: "('d \<times> 'h, 'a) act" and n :: "(db_command list \<times> 'h, 'a) act"
  assumes "replayed M d m n" and "\<And>a. replayed M d (f a) (g a)"
  shows "replayed M d (andThen m f) (andThen n g)"
  unfolding replayed_def
proof (intro allI impI)
  fix s :: "('d \<times> 'h) rt" and t assume "matches M d s t"
  moreover obtain x s1 where "m s = (x, s1)" by (cases "m s")
  ultimately obtain t1 where "m s = (x, s1)" "n t = (x, t1)" "matches M d s1 t1"
    using replayedD [OF assms(1)] by blast
  then show "fst (andThen m f s) = fst (andThen n g t) \<and> matches M d (snd (andThen m f s)) (snd (andThen n g t))"
    using assms(2) by (cases x) (auto simp: andThen_def replayed_def)
qed

lemma replayed_tryCatch:
  fixes m :: "('d \<times> 'h, 'a) act" and n :: "(db_command list \<times> 'h, 'a) act"
  assumes "replayed M d m n" and "\<And>e. replayed M d (f e) (g e)"
  shows "replayed M d (tryCatch m f) (tryCatch n g)"
  unfolding replayed_def
proof (intro allI impI)
  fix s :: "('d \<times> 'h) rt" and t assume "matches M d s t"
  moreover obtain x s1 where "m s = (x, s1)" by (cases "m s")
  ultimately obtain t1 where "m s = (x, s1)" "n t = (x, t1)" "matches M d s1 t1"
    using replayedD [OF assms(1)] by blast
  then show "fst (tryCatch m f s) = fst (tryCatch n g t) \<and> matches M d (snd (tryCatch m f s)) (snd (tryCatch n g t))"
    using assms(2) by (cases x) (auto simp: tryCatch_def replayed_def)
qed

lemma replayed_base:
  "replayed M d (log_to k l x vs) (log_to k l x vs)" "replayed M d (on_files c) (on_files c)"
  "replayed M d (on_net c') (on_net c')" "replayed M d (file_content p) (file_content p)"
  "replayed M d (returning a) (returning a)" "replayed M d (raise e) (raise e)" "replayed M d (pure_result r) (pure_result r)"
  by (auto simp: replayed_def matches_def log_to_def on_files_def on_net_def external_def file_content_def
      returning_def raise_def pure_result_def split: prod.splits)

lemma replayed_thenDo: "replayed M d m n \<Longrightarrow> replayed M d m' n' \<Longrightarrow> replayed M d (thenDo m m') (thenDo n n')"
  by (simp add: thenDo_def replayed_andThen)

lemma replayed_if: "replayed M d m n \<Longrightarrow> replayed M d m' n' \<Longrightarrow> replayed M d (if b then m else m') (if b then n else n')"
  by simp

lemma replayed_create:
  "replayed M d (on_db (create_request M r)) (on_db (create_request (replay M d) r))"
  by (auto simp: replayed_def matches_def on_db_def external_def create_request_def replay_def recorder_def Let_def
      split: prod.splits)

lemma replayed_update:
  "replayed M d (on_db (update_request M i u)) (on_db (update_request (replay M d) i u))"
  by (auto simp: replayed_def matches_def on_db_def external_def update_request_def found_or_404_def replay_def
      recorder_def Let_def split: prod.splits sum.splits option.splits)

lemmas replayed_rules = replayed_base replayed_if replayed_andThen replayed_thenDo replayed_tryCatch replayed_create
  replayed_update

lemma replayed_status:
  "replayed M d (on_db (update_status M i st msg)) (on_db (update_status (replay M d) i st msg))"
  by (simp only: update_status_request replayed_update)

lemma processor_on_sel [simp]:
  "ip_http (processor_on M P) = ip_http P" "ip_sharp (processor_on M P) = ip_sharp P"
  "ip_mime_extension (processor_on M P) = ip_mime_extension P" "temp_dir (processor_on M P) i = temp_dir P i"
  "upload_url (processor_on M P) i n p = upload_url P i n p" "ip_token (processor_on M P) = ip_token P"
  "upload_request (processor_on M P) n u p = upload_request P n u p"
  by (rule ext | simp add: processor_on_def temp_dir_def upload_url_def upload_request_def)+

lemma replayed_image:
  "replayed (ip_model P) d (process_image P i n u) (process_image (processor_on N P) i n u)"
proof -
  have "replayed (ip_model P) d (download_image P i u) (download_image (processor_on N P) i u)"
    by (simp add: download_image_def get_file_name_def Let_def) (intro replayed_rules)
  moreover have "replayed (ip_model P) d (convert_image_quality P p) (convert_image_quality (processor_on N P) p)" for p
    by (auto simp: convert_image_quality_def encode_to_file_def Let_def intro!: replayed_rules split: option.split)
  moreover have "replayed (ip_model P) d (upload_file P i n u p) (upload_file (processor_on N P) i n u p)" for p
    by (simp add: upload_file_def) (intro replayed_rules)
  ultimately show ?thesis
    unfolding process_image_def delete_file_def by (intro replayed_rules)
qed

lemma replayed_urls:
  "replayed (ip_model P) d (process_urls P i n p outs us) (process_urls (processor_on N P) i n p outs us)"
  by (induction us arbitrary: outs) (auto simp: image_log_def intro!: replayed_rules replayed_image)

lemma replayed_products:
  "replayed (ip_model P) d (process_products P i processed ps) (process_products (processor_on N P) i processed ps)"
proof (induction ps arbitrary: processed)
  case Nil
  then show ?case by (simp add: replayed_rules)
next
  case (Cons q ps)
  then show ?case by (cases q) (auto intro!: replayed_rules replayed_urls)
qed

lemma replayed_process:
  "replayed (ip_model P) d (process P req) (process (processor_on (replay (ip_model P) d) P) req)"
  unfolding process_def process_body_def handle_error_def Let_def delete_directory_def update_request_processing_status_def
    update_request_success_status_def call_webhook_def processor_on_sel processor_on_model
  by (intro replayed_rules replayed_status replayed_products)

lemma replayed_queue: "replayed M d (on_queue m) (on_queue m)"
  by (auto simp: replayed_def matches_def on_queue_def split: prod.splits)

lemma replayed_schedule:
  "replayed (as_model S) d (schedule_image_processing S uuid ps u)
    (schedule_image_processing (services_on (replay (as_model S) d) S) uuid ps u)"
  by (simp add: schedule_image_processing_def services_on_def) (intro replayed_rules replayed_queue)

text \<open>What an operation did to the database is what the commands it issued do.\<close>

lemma replay_run:
  assumes "replayed M d m n" and "db_of s = d"
  obtains r s' t t' where "m s = (r, s')" "n t = (r, t')" "db_of t = []" "db_of s' = fold (execute M) (db_of t') d"
proof -
  let ?t = "\<lparr>world = ([], snd (world s)), files = files s, log_lines = log_lines s, apm_events = apm_events s\<rparr>"
  obtain r s' where 1: "m s = (r, s')" by (cases "m s")
  have "matches M d s ?t" using assms(2) by (simp add: matches_def db_of_def)
  then obtain t' where 2: "n ?t = (r, t')" "matches M d s' t'" using replayedD [OF assms(1) _ 1] by blast
  show thesis using that [OF 1 2(1)] 2(2) by (simp add: matches_def db_of_def)
qed

lemma service_step_commands:
  assumes "service_step S P d d'" and "as_model S = M" and "ip_model P = M"
  shows "\<exists>cs. (\<forall>c \<in> set cs. service_command S P c) \<and> d' = fold (execute M) cs d"
  using assms(1)
proof cases
  case (scheduled uuid ps u s r s')
  obtain r1 s1 t t1 where "schedule_image_processing S uuid ps u s = (r1, s1)"
    and n: "schedule_image_processing (services_on (replay M d) S) uuid ps u t = (r1, t1)" "db_of t = []"
    and d: "db_of s1 = fold (execute M) (db_of t1) d"
    using replay_run [OF replayed_schedule [of S "d" uuid ps u] scheduled(1) [symmetric]] assms(2) by metis
  moreover have "\<forall>c \<in> set (db_of t1). service_command S P c"
    using service_command.scheduling [OF n(1) [unfolded replay_def] n(2)] by blast
  ultimately show ?thesis using scheduled by auto
next
  case (processed req s r s')
  obtain r1 s1 t t1 where "process P req s = (r1, s1)"
    and n: "process (processor_on (replay M d) P) req t = (r1, t1)" "db_of t = []"
    and d: "db_of s1 = fold (execute M) (db_of t1) d"
    using replay_run [OF replayed_process [of P "d" req] processed(1) [symmetric]] assms(3) by metis
  moreover have "\<forall>c \<in> set (db_of t1). service_command S P c"
    using service_command.processing [OF n(1) [unfolded replay_def] n(2)] by blast
  ultimately show ?thesis using processed by auto
qed

subsection \<open>Every interleaving is safe\<close>

text \<open>A change of the documents that loses no request, takes none back to Accepted, and keeps Succeeded ones finished.\<close>

definition safe_change :: "documents \<Rightarrow> documents \<Rightarrow> bool" where
  "safe_change D D' \<longleftrightarrow>
    (\<forall>i r. D i = Some r \<longrightarrow> (\<exists>r'. D' i = Some r' \<and> (rq_status r' = ACCEPTED \<longrightarrow> rq_status r = ACCEPTED))) \<and>
    ((\<forall>i r. D i = Some r \<longrightarrow> finished_doc r) \<longrightarrow> (\<forall>i r. D' i = Some r \<longrightarrow> finished_doc r))"

lemma safe_change_refl: "safe_change D D"
  by (simp add: safe_change_def)

lemma safe_change_trans: "safe_change D D1 \<Longrightarrow> safe_change D1 D2 \<Longrightarrow> safe_change D D2"
  unfolding safe_change_def by metis

lemma doc_step_status_kept:
  "doc_step D D' \<Longrightarrow> D i = Some r \<Longrightarrow> \<exists>r'. D' i = Some r' \<and> (rq_status r' = ACCEPTED \<longrightarrow> rq_status r = ACCEPTED)"
  by (induction rule: doc_step.induct) (auto simp: apply_patch_status request_defaults_status)

lemma doc_step_safe: "doc_step D D' \<Longrightarrow> safe_change D D'"
  using doc_step_status_kept doc_step_finished unfolding safe_change_def by blast

lemma doc_steps_safe: "doc_step\<^sup>*\<^sup>* D D' \<Longrightarrow> safe_change D D'"
  by (induction rule: rtranclp_induct) (auto intro: safe_change_refl safe_change_trans doc_step_safe)

text \<open>Completing a request is safe whatever its status has become meanwhile.\<close>

lemma completed_safe:
  assumes "D i = Some x" and "complete processed"
  shows "safe_change D (D(i \<mapsto> apply_patch \<lparr>up_status = Some SUCCEEDED, up_message = Some (status_message SUCCEEDED),
    up_products = Some (output_docs processed)\<rparr> x))"
proof -
  let ?r = "apply_patch \<lparr>up_status = Some SUCCEEDED, up_message = Some (status_message SUCCEEDED),
    up_products = Some (output_docs processed)\<rparr> x"
  have "rq_products ?r = output_docs processed"
    using output_docs_defaults by (simp add: apply_patch_products)
  then have "finished_doc ?r"
    using assms(2) by (auto simp: complete_def list_all_iff finished_doc_def finished_entry_def output_docs_def output_doc_def)
  then show ?thesis using assms(1) by (simp add: safe_change_def apply_patch_status)
qed

lemma execute_update: "execute M (Update i u) d = snd (update_request M i u d)"
  by (auto simp: update_request_def found_or_404_def split: prod.splits sum.splits option.splits)

lemma execute_complete_safe:
  assumes "write_laws M docs" and "complete processed"
  shows "safe_change (docs d) (docs (execute M (complete_command i processed) d))"
proof -
  let ?u = "\<lparr>up_status = Some SUCCEEDED, up_message = Some (status_message SUCCEEDED),
    up_products = Some (output_docs processed)\<rparr>"
  obtain x d' where u: "update_request M i ?u d = (x, d')" by (cases "update_request M i ?u d")
  then have e: "execute M (complete_command i processed) d = d'"
    by (simp add: complete_command_def execute_update del: execute.simps)
  show ?thesis
  proof (cases rule: any_update [OF assms(1) u, case_names unchanged written])
    case unchanged
    then show ?thesis using e by (simp add: safe_change_refl)
  next
    case (written z)
    then show ?thesis using completed_safe [of "docs d", OF _ assms(2)] e by simp
  qed
qed

lemma execute_status_safe:
  assumes "write_laws M docs" and "st = PROCESSING \<or> st = FAILED"
  shows "safe_change (docs d) (docs (execute M (status_command i st msg) d))"
proof -
  obtain x d' where u: "update_status M i st msg d = (x, d')" by (cases "update_status M i st msg d")
  then have "execute M (status_command i st msg) d = d'"
    by (simp add: status_command_def execute_update update_status_request del: execute.simps)
  then show ?thesis using doc_steps_safe [OF update_status_steps [OF assms(1) u assms(2)]] by simp
qed

lemma execute_create_safe:
  assumes "write_laws M docs" and "rq_status r = ACCEPTED"
  shows "safe_change (docs d) (docs (execute M (Create r) d))"
proof -
  obtain x d' where "create_request M r d = (x, d')" by (cases "create_request M r d")
  then show ?thesis
    using doc_steps_safe [OF create_steps [OF assms(1) _ assms(2)], of d x d'] by (simp add: create_request_def)
qed

lemma service_command_cases:
  assumes "service_command S P c"
  obtains (create) r where "c = Create r" "rq_status r = ACCEPTED"
    | (status) i st msg where "c = status_command i st msg" "st = PROCESSING \<or> st = FAILED"
    | (finish) i processed where "c = complete_command i processed" "complete processed"
  using assms
proof cases
  case (scheduling created found uuid ps u s r s')
  then show thesis using schedule_commands [OF scheduling(1)] create by (simp add: accepted_request_def)
next
  case (processing created found req s r s')
  obtain finished failed where
    "db_of s' = db_of s @ [status_command (pr_requestId req) PROCESSING (status_message PROCESSING)] @ finished @ failed"
    "finished = [] \<or> (\<exists>processed. finished = [complete_command (pr_requestId req) processed] \<and> complete processed)"
    "failed = [] \<or> (\<exists>e. failed = [status_command (pr_requestId req) FAILED (failure_message e)])"
    using process_commands [OF processing(1)] by blast
  then show thesis using status finish processing(2,3) by auto
qed

lemma execute_safe:
  assumes "write_laws M docs" and "service_command S P c"
  shows "safe_change (docs d) (docs (execute M c d))"
  using assms(2)
  by (cases rule: service_command_cases)
    (auto simp del: execute.simps intro: execute_create_safe execute_status_safe execute_complete_safe assms(1))

lemma interleaving_safe:
  "write_laws M docs \<Longrightarrow> list_all (service_command S P) cs \<Longrightarrow> safe_change (docs d) (docs (fold (execute M) cs d))"
proof (induction cs arbitrary: d)
  case Nil
  then show ?case by (simp add: safe_change_refl)
next
  case (Cons c cs)
  then show ?case using execute_safe [of M docs S P c d] safe_change_trans by (simp del: execute.simps)
qed

text \<open>
  C14: The commands of any number of schedulings and processings -- of different requests or of the same one, each interrupted
  anywhere and the rest of it run under any answers -- interleave safely in any order: no stored request is lost or
  becomes Accepted again, and a request stored as Succeeded has as many output urls as input urls for every product.
\<close>

theorem interleaved_requests:
  assumes "write_laws M docs" and "list_all (service_command S P) cs"
    and "docs (fold (execute M) cs d) = D'"
  shows "(\<forall>i r. docs d i = Some r \<longrightarrow> (\<exists>r'. D' i = Some r' \<and> (rq_status r' = ACCEPTED \<longrightarrow> rq_status r = ACCEPTED))) \<and>
    ((\<forall>i r. docs d i = Some r \<longrightarrow> finished_doc r) \<longrightarrow>
      (\<forall>i r. D' i = Some r \<and> rq_status r = SUCCEEDED \<longrightarrow> (\<forall>(k, p) \<in> set (rq_products r). finished_entry p)))"
  using interleaving_safe [OF assms(1,2), of d] assms(3) unfolding safe_change_def finished_doc_def by blast

subsection \<open>The statement in a concrete world\<close>

text \<open>Two consumers process the same message in lockstep: each command of the one is followed by the same one of the other.\<close>

definition sample_start :: "(db_command list \<times> nat) rt" where
  "sample_start = \<lparr>world = ([], snd (world sample_run)), files = files sample_run, log_lines = [], apm_events = []\<rparr>"

definition sample_commands :: "db_command list" where
  "sample_commands = db_of (snd (process (processor_on (replay memory_model sample_db) sample_processor)
    (sample_job ''hook'' [''a'', ''b'']) sample_start))"

lemma sample_commands_issued:
  assumes "c \<in> set sample_commands"
  shows "service_command sample_api sample_processor c"
proof -
  obtain r t where t: "process (processor_on (replay memory_model sample_db) sample_processor)
      (sample_job ''hook'' [''a'', ''b'']) sample_start = (r, t)" by fastforce
  have "db_of sample_start = []" by (simp add: db_of_def sample_start_def)
  moreover have "c \<in> set (db_of t)" using assms t by (simp add: sample_commands_def)
  ultimately show ?thesis using service_command.processing [OF t [unfolded replay_def]] by blast
qed

theorem interleaved_requests_witness:
  "let d = fold (execute memory_model) (concat (map (\<lambda>c. [c, c]) sample_commands)) sample_db
   in length sample_commands = 2 \<and> (\<exists>r. d ''r1'' = Some r \<and> rq_status r = SUCCEEDED \<and>
        list_all (\<lambda>(k, p). finished_entry p) (rq_products r))"
proof -
  let ?cs = "concat (map (\<lambda>c. [c, c]) sample_commands)"
  let ?d = "fold (execute memory_model) ?cs sample_db"
  have issued: "list_all (service_command sample_api sample_processor) ?cs"
    using sample_commands_issued by (auto simp: list_all_iff)
  have start: "\<forall>i r. id sample_db i = Some r \<longrightarrow> finished_doc r"
    by (simp add: sample_db_def sample_request_def finished_doc_def)
  have "length sample_commands = 2 \<and> map_option rq_status (?d ''r1'') = Some SUCCEEDED" by code_simp
  with interleaved_requests [OF memory_writes issued, of sample_db "id ?d"] start show ?thesis
    by (auto simp: list_all_iff Let_def)
qed

end
