(* ===== verification/CsvTypes.thy ===== *)
theory CsvTypes
  imports CsvRefine
begin

text \<open>
  The type of what the reader returns: the invariant of the dictionary of products, kept by every step of the
  reader, that the later stages of a request rely on.
\<close>

subsection \<open>Well-formed dictionaries\<close>

definition well_formed_urls :: "string list \<Rightarrow> bool" where
  "well_formed_urls us \<longleftrightarrow> us \<noteq> [] \<and> (\<forall>u \<in> set us. trim u = u \<and> COMMA \<notin> set u)"

definition well_formed_products :: "csv_product js_object \<Rightarrow> bool" where
  "well_formed_products ps \<longleftrightarrow>
    js_wf ps \<and> (\<forall>(k, p) \<in> set ps. name p = k \<and> k \<notin> set proto_names \<and> well_formed_urls (inputImageUrls p))"

lemma well_formed_Nil: "well_formed_products []"
  by (simp add: well_formed_products_def)

lemma well_formed_put:
  assumes "well_formed_products ps" and "name p \<notin> set proto_names" and "well_formed_urls (inputImageUrls p)"
  shows "well_formed_products (js_put (name p) p ps)"
proof -
  have "set (js_put (name p) p ps) \<subseteq> insert (name p, p) (set ps)"
    using set_js_replace [of "name p" p ps] set_js_insert_index [of _ "name p" p ps]
    by (auto simp: js_put_def split: option.split)
  then show ?thesis using assms by (auto simp: well_formed_products_def js_wf_put)
qed

lemma well_formed_own:
  "well_formed_products ps \<Longrightarrow> js_own ps k = Some p \<Longrightarrow>
    name p = k \<and> k \<notin> set proto_names \<and> well_formed_urls (inputImageUrls p)"
  by (auto simp: well_formed_products_def dest: js_own_in_entries)

lemma well_formed_no_proto: "well_formed_products ps \<Longrightarrow> ''__proto__'' \<notin> set (js_keys ps)"
  by (auto simp: well_formed_products_def js_keys_def proto_names_def)

subsection \<open>The steps of the reader\<close>

lemma set_trim: "set (trim s) \<subseteq> set s"
proof -
  have "set (trim s) \<subseteq> set (dropWhile is_ws s)" using set_dropWhileD by (fastforce simp: trim_def)
  also have "\<dots> \<subseteq> set s" using set_dropWhileD by fast
  finally show ?thesis .
qed

lemma get_product_urls:
  assumes "get_product_from_row cols = Inr p"
  shows "well_formed_urls (inputImageUrls p)"
proof -
  have "COMMA \<notin> set (trim w)" if "w \<in> set (split_on COMMA (trim (cols ! 2)))" for w
    using split_on_parts [OF that] set_trim by blast
  then show ?thesis
    using assms by (auto simp: get_product_from_row_def well_formed_urls_def split: sum.splits)
qed

lemma merge_well_formed:
  assumes "merge_products_data data p = Inr data'" and "well_formed_products (products data)"
    and "well_formed_urls (inputImageUrls p)"
  shows "well_formed_products (products data')"
proof (cases "js_own (products data) (name p)")
  case None
  then show ?thesis
    using assms by (auto simp: merge_products_data_def js_read_def well_formed_put split: if_splits)
next
  case (Some q)
  note q = well_formed_own [OF assms(2) Some]
  let ?q = "q\<lparr>inputImageUrls := dedup (inputImageUrls q @ inputImageUrls p)\<rparr>"
  have "well_formed_urls (inputImageUrls ?q)"
    using q assms(3) by (auto simp: well_formed_urls_def)
  then show ?thesis
    using assms(1) Some q well_formed_put [OF assms(2), of ?q] by (auto simp: merge_products_data_def js_read_def)
qed

lemma data_row_well_formed:
  "data_row V data cols = Inr data' \<Longrightarrow> well_formed_products (products data) \<Longrightarrow> well_formed_products (products data')"
  by (auto simp: data_row_def split: sum.splits dest: get_product_urls intro: merge_well_formed)

lemma process_row_well_formed:
  "process_row V st row = Inr st' \<Longrightarrow> well_formed_products (products (rdata st)) \<Longrightarrow>
    well_formed_products (products (rdata st'))"
  by (auto simp: process_row_def split: sum.splits if_splits dest: data_row_well_formed)

lemma process_chunk_well_formed:
  "process_chunk V dec sp ch = Inr sp' \<Longrightarrow> well_formed_products (products (rdata (fst sp))) \<Longrightarrow>
    well_formed_products (products (rdata (fst sp')))"
  by (auto simp: process_chunk_def Let_def split: prod.splits
      elim!: fold_result_invariant [where P = "\<lambda>st. well_formed_products (products (rdata st))"]
      dest: process_row_well_formed)

lemma process_last_row_well_formed:
  "process_last_row V sp = Inr data \<Longrightarrow> well_formed_products (products (rdata (fst sp))) \<Longrightarrow>
    well_formed_products (products data)"
  by (auto simp: process_last_row_def split: prod.splits sum.splits if_splits dest: data_row_well_formed)

lemma parse_data_well_formed:
  assumes "parse_data V dec csvFile = Inr data"
  shows "well_formed_products (products data)"
proof -
  from assms obtain sp where sp: "fold_result (process_chunk V dec) (empty_reader, []) (chunks csvFile) = Inr sp"
    and last: "process_last_row V sp = Inr data"
    by (auto simp: parse_data_def split: sum.splits option.splits)
  have "well_formed_products (products (rdata (fst sp)))"
    by (rule fold_result_invariant [OF sp]) (auto simp: empty_reader_def well_formed_Nil process_chunk_well_formed)
  then show ?thesis by (rule process_last_row_well_formed [OF last])
qed

lemma validate_and_parse_well_formed:
  "validate_and_parse V dec csvFile mimeType = Inr data \<Longrightarrow> well_formed_products (products data)"
  by (auto simp: validate_and_parse_def split: sum.splits intro: parse_data_well_formed)

text \<open>
  C5: The type of an accepted file: its dictionary has distinct keys in JavaScript's property order, every entry is a
  product that carries its key as its name, no key is the name of a property that every object inherits, and every
  product has at least one url, each without surrounding white space and without a comma.
\<close>

theorem accepted_file_is_well_formed:
  assumes "validate_and_parse V dec csvFile mimeType = Inr data"
  shows "js_wf (products data) \<and>
    (\<forall>(k, p) \<in> set (products data). name p = k \<and> k \<notin> set proto_names \<and> inputImageUrls p \<noteq> [] \<and>
      (\<forall>u \<in> set (inputImageUrls p). trim u = u \<and> COMMA \<notin> set u))"
  using validate_and_parse_well_formed [OF assms] by (auto simp: well_formed_products_def well_formed_urls_def)

theorem accepted_file_is_well_formed_witness:
  "validate_and_parse sample_validator id sample_file ''text/csv'' = Inr sample_data \<and>
    list_all (\<lambda>(k, p). name p = k \<and> inputImageUrls p \<noteq> []) (products sample_data)"
proof -
  have v: "validate_and_parse sample_validator id sample_file ''text/csv'' = Inr sample_data"
    using sample_parse by (simp add: validate_and_parse_def validate_mime_type_def ALLOWED_MIME_TYPE_def)
  from accepted_file_is_well_formed [OF v] v show ?thesis by (auto simp: list_all_iff)
qed

end
