(* ===== verification/EndToEnd.thy ===== *)
theory EndToEnd
  imports Lifecycle CsvTypes
begin

text \<open>
  The consumer process put together (\<open>apps/consumer/consumer-app-lifecycle.service.ts\<close>): its subscription hands the value
  of a message to the image processor. Kafka, Redis and the registry act on the second component of a world whose first
  is the database, so that a message, its processing and its offset run over one state. The property is that of a whole
  request: from an accepted file to a final status.
\<close>

subsection \<open>Services beside a database\<close>

definition beside :: "('h, 'a) call \<Rightarrow> ('d \<times> 'h, 'a) call" where
  "beside c w = (case c (snd w) of (r, h) \<Rightarrow> (r, (fst w, h)))"

definition redis_beside :: "'h ioredis \<Rightarrow> ('d \<times> 'h) ioredis" where
  "redis_beside R =
    \<lparr>rd_get = (\<lambda>k. beside (rd_get R k)), rd_set = (\<lambda>args. beside (rd_set R args)),
     rd_keys = (\<lambda>p. beside (rd_keys R p)), rd_disconnect = beside (rd_disconnect R),
     rd_setname = (\<lambda>n. beside (rd_setname R n))\<rparr>"

definition producer_beside :: "('h, 'b) kafka_producer \<Rightarrow> ('d \<times> 'h, 'b) kafka_producer" where
  "producer_beside K =
    \<lparr>kp_connect = beside (kp_connect K), kp_disconnect = beside (kp_disconnect K),
     kp_send = (\<lambda>t m. beside (kp_send K t m)),
     kp_registry = map_option (\<lambda>r. \<lparr>re_latest = (\<lambda>t. beside (re_latest r t)),
                                    re_encode = (\<lambda>i v. beside (re_encode r i v))\<rparr>) (kp_registry K)\<rparr>"

definition client_beside :: "('h, 'c) kafka_client \<Rightarrow> ('d \<times> 'h, 'c) kafka_client" where
  "client_beside L =
    \<lparr>kl_consumer = (\<lambda>v. beside (kl_consumer L v)), kl_connect = (\<lambda>c. beside (kl_connect L c)),
     kl_subscribe = (\<lambda>c t. beside (kl_subscribe L c t)), kl_run = (\<lambda>c. beside (kl_run L c)),
     kl_disconnect = (\<lambda>c. beside (kl_disconnect L c))\<rparr>"

definition consumer_beside :: "('h, 'b, 'c) kafka_consumer_service \<Rightarrow> ('d \<times> 'h, 'b, 'c) kafka_consumer_service" where
  "consumer_beside C =
    \<lparr>kc_client = client_beside (kc_client C), kc_producer = producer_beside (kc_producer C),
     kc_decoder = map_option (\<lambda>dec b. beside (dec b)) (kc_decoder C),
     kc_cache = map_option (\<lambda>(R, A). (redis_beside R, A)) (kc_cache C),
     kc_apm = kc_apm C, kc_text = kc_text C, kc_json = kc_json C, kc_error_json = kc_error_json C\<rparr>"

lemma fst_beside [simp]: "fst (snd (beside c w)) = fst w"
  by (simp add: beside_def split: prod.split)

lemma snd_beside [simp]: "snd (snd (beside c w)) = snd (c (snd w))"
  by (simp add: beside_def split: prod.split)

text \<open>The steps around the processor act on the second component only, as they would on it alone.\<close>

lemma decoded_beside:
  "decoded_to (consumer_beside C) message se w = beside (decoded_to C message se) w"
  by (auto simp: decoded_to_def consumer_beside_def beside_def Let_def split: option.split prod.split)

lemma heartbeat_beside: "after_heartbeat (beside hb) (d, h) = (d, after_heartbeat hb h)"
  by (simp add: after_heartbeat_def beside_def split: prod.split)

lemma offset_new_beside:
  "offset_new (consumer_beside C) topic g part n (d, h) = offset_new C topic g part n h"
  by (auto simp: offset_new_def consumer_beside_def redis_beside_def beside_def split: option.split prod.split)

lemma after_check_beside:
  "after_check (consumer_beside C) topic g part (d, h) = (d, after_check C topic g part h)"
  by (auto simp: after_check_def consumer_beside_def redis_beside_def beside_def split: option.split prod.split)

lemma stored_beside:
  "(case kc_cache (consumer_beside C) of None \<Rightarrow> w | Some (R, A) \<Rightarrow> snd (rd_set R args w)) =
    (fst w, case kc_cache C of None \<Rightarrow> snd w | Some (R, A) \<Rightarrow> snd (rd_set R args (snd w)))"
  by (auto simp: consumer_beside_def redis_beside_def beside_def split: option.split prod.split)

lemma sent_beside:
  "snd (kp_send (kc_producer (consumer_beside C)) t m w) = (fst w, snd (kp_send (kc_producer C) t m (snd w)))"
  by (simp add: consumer_beside_def producer_beside_def beside_def split: prod.split)

lemma dlq_out_beside: "dlq_out (consumer_beside C) dm message body err = dlq_out C dm message body err"
  by (simp add: dlq_out_def dlq_key_def consumer_beside_def split: option.split)

subsection \<open>The handler of the subscription\<close>

text \<open>What a message's value is read as, at the type the handler declares for it.\<close>

fun strings_of :: "jv list \<Rightarrow> string list option" where
  "strings_of [] = Some []"
| "strings_of (JStr s # vs) = map_option ((#) s) (strings_of vs)"
| "strings_of (v # vs) = None"

fun product_of :: "jv \<Rightarrow> csv_product option" where
  "product_of v =
    (case (jv_get v ''name'', jv_get v ''inputImageUrls'') of
       (JStr n, JArr us) \<Rightarrow> map_option (\<lambda>us. \<lparr>name = n, inputImageUrls = us\<rparr>) (strings_of us)
     | _ \<Rightarrow> None)"

fun products_of :: "(string \<times> jv) list \<Rightarrow> csv_product js_object option" where
  "products_of [] = Some []"
| "products_of ((k, v) # ps) =
     (case (product_of v, products_of ps) of (Some p, Some qs) \<Rightarrow> Some ((k, p) # qs) | _ \<Rightarrow> None)"

definition request_of :: "jv \<Rightarrow> processing_request option" where
  "request_of v =
    (case (jv_get v ''requestId'', jv_get v ''webhookUrl'', jv_get v ''products'') of
       (JStr i, JStr u, JObj ps) \<Rightarrow>
         map_option (\<lambda>qs. \<lparr>pr_requestId = i, pr_webhookUrl = u, pr_products = qs\<rparr>) (products_of ps)
     | _ \<Rightarrow> None)"

text \<open>
  \<open>imageProcessor.process.bind(imageProcessor)\<close> as the handler; \<open>other\<close> is what it does on a value of another shape, which
  TypeScript's types exclude.
\<close>

definition processing_handler ::
  "('d, 'h) image_processor \<Rightarrow> (jv \<Rightarrow> ('d \<times> 'h, unit) act) \<Rightarrow> jv \<Rightarrow> ('d \<times> 'h, unit) act" where
  "processing_handler P other v = (case request_of v of Some req \<Rightarrow> process P req | None \<Rightarrow> other v)"

text \<open>\<open>consume\<close>: the promise of the subscription is dropped; its outcome is the action's result, and no error is thrown.\<close>

definition consume ::
  "('w, 'b, 'c) kafka_consumer_service \<Rightarrow> 'c list \<Rightarrow> messaging_config \<Rightarrow> ('w, exn + 'c list) act" where
  "consume C consumers cfg = attempt (messaging_subscribe C consumers cfg)"

text \<open>The function that Kafka calls for each message of the application's subscription.\<close>

definition on_processing_message ::
  "('h, 'b, 'c) kafka_consumer_service \<Rightarrow> messaging_config \<Rightarrow> ('d, 'h) image_processor \<Rightarrow>
   (jv \<Rightarrow> ('d \<times> 'h, unit) act) \<Rightarrow> nat \<Rightarrow> ('h, unit) call \<Rightarrow> 'b kafka_message \<Rightarrow> ('d \<times> 'h, unit) act" where
  "on_processing_message C cfg P other part hb message =
    each_message (consumer_beside C) (mc_group cfg)
      \<lparr>sb_topics = [mc_topic cfg], sb_fromBeginning = None, sb_dlqRequired = True, sb_schemaEnabled = True\<rparr>
      (messaging_processor (processing_handler P other)) (mc_topic cfg) part (beside hb) message"

subsection \<open>What is published is what is read\<close>

lemma strings_of_strs: "strings_of (map JStr ss) = Some ss"
  by (induction ss) simp_all

lemma product_of_jv: "product_of (product_jv p) = Some p"
  by (simp add: product_jv_def js_own_def jv_strings_def strings_of_strs)

lemma products_of_jv: "products_of (map (\<lambda>(k, p). (k, product_jv p)) ps) = Some ps"
  by (induction ps) (auto simp: product_of_jv simp del: product_of.simps)

lemma request_of_message:
  "request_of (qm_value (processing_message i ps url)) =
    Some \<lparr>pr_requestId = i, pr_webhookUrl = url, pr_products = ps\<rparr>"
  by (simp add: processing_message_def request_of_def js_own_def products_jv_def products_of_jv)

lemma first_file_well_formed:
  "first_file V dec ps fl = Inr (Some data) \<Longrightarrow> well_formed_products (products data)"
  by (induction V dec ps fl rule: first_file.induct) (auto dest: validate_and_parse_well_formed)

subsection \<open>From a file to a final status\<close>

text \<open>A request has come to an end: it is Succeeded with all its outputs, or Failed, and left no file behind.\<close>

definition settled ::
  "('d, 'h) image_processor \<Rightarrow> ('d \<Rightarrow> string \<Rightarrow> request_doc option) \<Rightarrow> string \<Rightarrow> csv_product js_object \<Rightarrow>
   ('d \<times> 'h) rt \<Rightarrow> bool" where
  "settled P docs i ps s \<longleftrightarrow>
    no_temp_files P i (files s) \<and>
    (\<exists>r. docs (db_of s) i = Some r \<and>
      (rq_status r = FAILED \<or>
       rq_status r = SUCCEEDED \<and>
         (\<exists>processed. list_all2 (completed_entry P i) ps processed \<and> rq_products r = output_docs processed)))"

lemma process_settles:
  assumes "collection_laws (ip_model P) docs" and "well_formed_products (pr_products req)"
    and "process P req s = (Inr (), s')"
  shows "settled P docs (pr_requestId req) (pr_products req) s'"
  using process_final [OF assms(1,3)] assms(2) well_formed_no_proto [OF assms(2)]
  by (auto simp: settled_def succeeded_with_def well_formed_products_def)

text \<open>The handler on the message of a request, with a new offset: one run of the processor, between the services' own calls.\<close>

lemma processing_message_run:
  assumes "decoded_to C message True (queue_of s) = (Inr dm, h1)"
    and "dm_value dm = qm_value (processing_message i ps url)" and "dm_value_text dm = Inr body"
    and "offset_new C (mc_topic cfg) (mc_group cfg) part (parse_int (km_offset message)) (after_heartbeat hb h1)"
  obtains t r t' s' where "process P \<lparr>pr_requestId = i, pr_webhookUrl = url, pr_products = ps\<rparr> t = (r, t')"
    and "on_processing_message C cfg P other part hb message s = (Inr (), s')"
    and "db_of t = db_of s" and "files t = files s" and "db_of s' = db_of t'" and "files s' = files t'"
    and "queue_of t = after_check C (mc_topic cfg) (mc_group cfg) part (after_heartbeat hb h1)"
    and "queue_of s' = (case r of
       Inr _ \<Rightarrow> (case kc_cache C of None \<Rightarrow> queue_of t'
         | Some (R, A) \<Rightarrow> snd (rd_set R [JStr (offset_key (mc_topic cfg) (mc_group cfg) part), JStr (km_offset message)]
             (queue_of t')))
     | Inl e \<Rightarrow> snd (kp_send (kc_producer C) (mc_topic cfg @ ''.DLQ'')
         (dlq_out C (Some dm) message body (run_error (mc_topic cfg) ''Error running message processor'' e)) (queue_of t')))"
proof -
  let ?sub = "\<lparr>sb_topics = [mc_topic cfg], sb_fromBeginning = None, sb_dlqRequired = True, sb_schemaEnabled = True\<rparr>"
  let ?req = "\<lparr>pr_requestId = i, pr_webhookUrl = url, pr_products = ps\<rparr>"
  have d: "decoded_to (consumer_beside C) message (sb_schemaEnabled ?sub) (world s) = (Inr dm, (db_of s, h1))"
    using assms(1) by (simp add: decoded_beside beside_def db_of_def queue_of_def)
  have n: "offset_new (consumer_beside C) (mc_topic cfg) (mc_group cfg) part (parse_int (km_offset message))
      (after_heartbeat (beside hb) (db_of s, h1))"
    using assms(4) by (simp add: heartbeat_beside offset_new_beside)
  have required: "sb_dlqRequired ?sub" by simp
  have handler: "messaging_processor (processing_handler P other) dm = process P ?req"
    using assms(2) by (simp add: messaging_processor_def processing_handler_def request_of_message)
  from each_message_new [OF d n required assms(3), of "messaging_processor (processing_handler P other)"]
  obtain t r t' s' where t: "world t = after_check (consumer_beside C) (mc_topic cfg) (mc_group cfg) part
        (after_heartbeat (beside hb) (db_of s, h1))" "files t = files s"
    and run: "process P ?req t = (r, t')" and each: "on_processing_message C cfg P other part hb message s = (Inr (), s')"
    and files: "files s' = files t'"
    and w: "world s' = (case r of
       Inr _ \<Rightarrow> (fst (world t'), case kc_cache C of None \<Rightarrow> snd (world t')
         | Some (R, A) \<Rightarrow> snd (rd_set R [JStr (offset_key (mc_topic cfg) (mc_group cfg) part), JStr (km_offset message)]
             (snd (world t'))))
     | Inl e \<Rightarrow> (fst (world t'), snd (kp_send (kc_producer C) (mc_topic cfg @ ''.DLQ'')
         (dlq_out C (Some dm) message body (run_error (mc_topic cfg) ''Error running message processor'' e))
         (snd (world t')))))"
    unfolding handler on_processing_message_def [symmetric] stored_beside sent_beside dlq_out_beside by blast
  have "db_of t = db_of s" "db_of s' = db_of t'"
    "queue_of t = after_check C (mc_topic cfg) (mc_group cfg) part (after_heartbeat hb h1)"
    using t(1) w by (auto simp: db_of_def queue_of_def heartbeat_beside after_check_beside split: sum.splits)
  from that [OF run each this(1) t(2) this(2) files this(3)] show thesis
    using w [folded queue_of_def] by (cases r) (simp_all add: queue_of_def [of s'])
qed

lemma processing_message_new:
  assumes "decoded_to C message True (queue_of s) = (Inr dm, h1)"
    and "dm_value dm = qm_value (processing_message i ps url)" and "dm_value_text dm = Inr body"
    and "offset_new C (mc_topic cfg) (mc_group cfg) part (parse_int (km_offset message)) (after_heartbeat hb h1)"
  obtains t r t' s' where "process P \<lparr>pr_requestId = i, pr_webhookUrl = url, pr_products = ps\<rparr> t = (r, t')"
    and "on_processing_message C cfg P other part hb message s = (Inr (), s')"
    and "db_of t = db_of s" and "files t = files s" and "db_of s' = db_of t'" and "files s' = files t'"
    and "queue_of s' = (case r of
       Inr _ \<Rightarrow> (case kc_cache C of None \<Rightarrow> queue_of t'
         | Some (R, A) \<Rightarrow> snd (rd_set R [JStr (offset_key (mc_topic cfg) (mc_group cfg) part), JStr (km_offset message)]
             (queue_of t')))
     | Inl e \<Rightarrow> snd (kp_send (kc_producer C) (mc_topic cfg @ ''.DLQ'')
         (dlq_out C (Some dm) message body (run_error (mc_topic cfg) ''Error running message processor'' e)) (queue_of t')))"
  using that by (rule processing_message_run [OF assms, of P other])

text \<open>
  An accepted file comes to an end. Let the message published for it arrive with an offset that is new for the consumer. Then
  the handler returns, and the image processor has run once, on the request as it was uploaded and on the database as it was.
  If the processor returned, the request is settled and its offset is stored; if it threw, the message is in the dead
  letter queue, the offset is not stored, and the database is what the processor left.
\<close>

theorem uploaded_request_settles:
  assumes "first_file V dec (mp_parts upload) (mp_failure upload) = Inr (Some data)"
    and "decoded_to C message True (queue_of s) = (Inr dm, h1)"
    and "dm_value dm = qm_value (processing_message i (products data) url)" and "dm_value_text dm = Inr body"
    and "offset_new C (mc_topic cfg) (mc_group cfg) part (parse_int (km_offset message)) (after_heartbeat hb h1)"
    and "collection_laws (ip_model P) docs"
  shows "\<exists>t r t' s'. on_processing_message C cfg P other part hb message s = (Inr (), s') \<and>
    process P \<lparr>pr_requestId = i, pr_webhookUrl = url, pr_products = products data\<rparr> t = (r, t') \<and>
    db_of t = db_of s \<and> files t = files s \<and> db_of s' = db_of t' \<and> files s' = files t' \<and>
    (case r of
       Inr _ \<Rightarrow> settled P docs i (products data) s' \<and>
         queue_of s' = (case kc_cache C of None \<Rightarrow> queue_of t'
           | Some (R, A) \<Rightarrow> snd (rd_set R [JStr (offset_key (mc_topic cfg) (mc_group cfg) part), JStr (km_offset message)]
               (queue_of t')))
     | Inl e \<Rightarrow> queue_of s' = snd (kp_send (kc_producer C) (mc_topic cfg @ ''.DLQ'')
         (dlq_out C (Some dm) message body (run_error (mc_topic cfg) ''Error running message processor'' e)) (queue_of t')))"
proof -
  have wf: "well_formed_products (products data)" using first_file_well_formed [OF assms(1)] by simp
  from processing_message_new [OF assms(2-5), of P other]
  obtain t r t' s' where run: "process P \<lparr>pr_requestId = i, pr_webhookUrl = url, pr_products = products data\<rparr> t = (r, t')"
    and each: "on_processing_message C cfg P other part hb message s = (Inr (), s')"
    and eqs: "db_of t = db_of s" "files t = files s" "db_of s' = db_of t'" "files s' = files t'"
    and q: "queue_of s' = (case r of
       Inr _ \<Rightarrow> (case kc_cache C of None \<Rightarrow> queue_of t'
         | Some (R, A) \<Rightarrow> snd (rd_set R [JStr (offset_key (mc_topic cfg) (mc_group cfg) part), JStr (km_offset message)]
             (queue_of t')))
     | Inl e \<Rightarrow> snd (kp_send (kc_producer C) (mc_topic cfg @ ''.DLQ'')
         (dlq_out C (Some dm) message body (run_error (mc_topic cfg) ''Error running message processor'' e)) (queue_of t')))"
    by blast
  have "settled P docs i (products data) s'" if "r = Inr ()"
    using process_settles [OF assms(6), of "\<lparr>pr_requestId = i, pr_webhookUrl = url, pr_products = products data\<rparr>" t t']
      wf run that eqs by (simp add: settled_def)
  then show ?thesis using run each eqs q by (cases r) (force split: option.splits)+
qed

subsection \<open>The statements in a concrete world\<close>

text \<open>A network beside the consumer's Redis and broker; it always draws the same file name.\<close>

definition app_net :: "sample_world net_lib" where
  "app_net =
    \<lparr>net_get = (\<lambda>url h. (Inr \<lparr>hs_content_type = Some ''image/png'', hs_body = [1, 2, 3], hs_failure = None\<rparr>, h)),
     net_put = (\<lambda>url b hs h. (Inr \<lparr>ur_download_url = ''cdn:'' @ url\<rparr>, h)),
     net_post = (\<lambda>url csv hs h. (Inr (), h)), net_uuid = (\<lambda>h. (''u'', h))\<rparr>"

definition app_processor :: "(string \<Rightarrow> request_doc option, sample_world) image_processor" where
  "app_processor =
    \<lparr>ip_model = memory_model, ip_http = app_net, ip_sharp = sample_sharp, ip_mime_extension = (\<lambda>t. Some ''png''),
     ip_tmpdir = ''/tmp'', ip_base_url = ''up'', ip_author = ''bot'', ip_email = ''bot@x'',
     ip_branch = ''main'', ip_token = ''t''\<rparr>"

definition app_value :: jv where
  "app_value = qm_value (processing_message ''r1'' (products sample_data) ''hook'')"

definition app_service :: "(sample_world, string, nat) kafka_consumer_service" where
  "app_service = (sample_service True)\<lparr>kc_decoder := Some (\<lambda>b w. (Inr (app_value, value_text app_value), w))\<rparr>"

definition app_run :: "((string \<Rightarrow> request_doc option) \<times> sample_world) rt" where
  "app_run =
    \<lparr>world = (sample_db, (Map.empty, [], [])),
     files = \<lparr>is_dir = (\<lambda>q. q = [] \<or> q = [''tmp'']), file_at = Map.empty\<rparr>, log_lines = [], apm_events = []\<rparr>"

definition app_decoded :: decoded_msg where
  "app_decoded = \<lparr>dm_key = ''k'', dm_value = app_value, dm_value_text = value_text app_value, dm_headers = []\<rparr>"

lemma app_decodes:
  "decoded_to app_service (sample_message ''k'' ''v'' 9) True (queue_of app_run) = (Inr app_decoded, queue_of app_run)"
  by (simp add: decoded_to_def app_service_def sample_service_def sample_message_def app_decoded_def
      parse_message_headers_def Let_def)

lemma app_new:
  "offset_new app_service (mc_topic sample_messaging) (mc_group sample_messaging) 0
    (parse_int (km_offset (sample_message ''k'' ''v'' 9))) (after_heartbeat no_heartbeat (queue_of app_run))"
  by code_simp

lemma app_no_dead_letter:
  "fst (snd (queue_of (snd (on_processing_message app_service sample_messaging app_processor (\<lambda>v. returning ()) 0
    no_heartbeat (sample_message ''k'' ''v'' 9) app_run)))) = []"
  by code_simp

theorem uploaded_request_settles_witness:
  "\<exists>s'. on_processing_message app_service sample_messaging app_processor (\<lambda>v. returning ()) 0 no_heartbeat
      (sample_message ''k'' ''v'' 9) app_run = (Inr (), s') \<and>
    settled app_processor id ''r1'' (products sample_data) s'"
proof -
  let ?m = "sample_message ''k'' ''v'' 9"
  let ?run = "on_processing_message app_service sample_messaging app_processor (\<lambda>v. returning ()) 0 no_heartbeat ?m app_run"
  have shape: "dm_value app_decoded = qm_value (processing_message ''r1'' (products sample_data) ''hook'')"
    and body: "dm_value_text app_decoded = Inr (JStr ''[object Object]'')"
    by (simp add: app_decoded_def app_value_def) code_simp
  have laws: "collection_laws (ip_model app_processor) id" using memory_model_laws by (simp add: app_processor_def)
  have send: "fst (snd (snd (kp_send (kc_producer app_service) tp om h))) \<noteq> []" for tp om h
    by (cases h) (simp add: app_service_def sample_service_def sample_producer_def)
  from uploaded_request_settles [where other = "\<lambda>v. returning ()",
    OF sample_first_file app_decodes shape body app_new laws]
  obtain s' where "?run = (Inr (), s')"
    and "settled app_processor id ''r1'' (products sample_data) s' \<or> fst (snd (queue_of s')) \<noteq> []"
    by clarify (fastforce simp: send split: sum.splits)
  then show ?thesis using app_no_dead_letter by auto
qed

end
