(* ===== verification/DbService.thy ===== *)
theory DbService
  imports Effects
begin

text \<open>
  \<open>packages/db-service\<close>: the connection life of the MongoDB, SQL and Elasticsearch services (\<open>mongo-service.ts\<close>,
  \<open>sql-service.ts\<close>, \<open>elasticsearch.ts\<close>), the set-up of their models, and the switch over the database
  types (\<open>db-service.ts\<close>); \<open>repository.service.ts\<close> of the application on top. The three client
  libraries are parameters.
\<close>

subsection \<open>Reporting an error\<close>

definition wrap_error :: "sink \<Rightarrow> apm_conf \<Rightarrow> (exn option \<Rightarrow> exn) \<Rightarrow> exn \<Rightarrow> ('w, 'a) act" where
  "wrap_error k A mk e = (let err = mk (Some e) in thenDo (report k A err) (raise err))"

subsection \<open>MongoDB\<close>

text \<open>
  The functions of mongoose that are called: \<open>connect\<close> (the connection of what it resolves with, if that is truthy),
  a connection's ready state, the models it already has and the compilation of a new one, and the list of
  all connections with their \<open>close\<close>. \<open>mo_hooks\<close> is the function the service was configured with.
\<close>

record ('w, 'c, 's, 'm) mongoose =
  mo_connect :: "('w, 'c option) call"
  mo_ready :: "'c \<Rightarrow> 'w \<Rightarrow> int"
  mo_compiled :: "'c \<Rightarrow> string \<Rightarrow> 'w \<Rightarrow> 'm option"
  mo_compile :: "'c \<Rightarrow> string \<Rightarrow> 's \<Rightarrow> ('w, 'm) call"
  mo_connections :: "'w \<Rightarrow> 'c list"
  mo_close :: "'c \<Rightarrow> ('w, unit) call"
  mo_hooks :: "('w, unit) call"

text \<open>The service's own state: the connection, \<open>models\<close>, and the models set as properties of the service itself.\<close>

record ('c, 'm) mongo_service =
  ms_connection :: "'c option"
  ms_models :: "'m js_object"
  ms_props :: "'m js_object"

definition mongo_initiate_connection :: "('w, 'c, 's, 'm) mongoose \<Rightarrow> apm_conf \<Rightarrow> ('w, 'c) act" where
  "mongo_initiate_connection M A =
    andThen
      (tryCatch
        (andThen (external (mo_connect M)) (\<lambda>conn.
          case conn of
            Some c \<Rightarrow> thenDo (log_to AppLogger LLog ''Successfully connected to mongoose!!'' []) (returning (Some c))
          | None \<Rightarrow> returning None))
        (wrap_error AppLogger A (MongoServiceError ''Error connecting to mongoose'')))
      (\<lambda>conn. case conn of
          Some c \<Rightarrow> returning c
        | None \<Rightarrow> raise (MongoServiceError ''Error connecting to mongoose!!'' None))"

text \<open>\<open>connection.models[name] ?? connection.model(name, schema)\<close>\<close>

definition mongo_model :: "('w, 'c, 's, 'm) mongoose \<Rightarrow> 'c \<Rightarrow> string \<Rightarrow> 's \<Rightarrow> ('w, 'm) call" where
  "mongo_model M c n schema w =
    (case mo_compiled M c n w of Some m \<Rightarrow> (Inr m, w) | None \<Rightarrow> mo_compile M c n schema w)"

fun mongo_models ::
  "('w, 'c, 's, 'm) mongoose \<Rightarrow> 'c \<Rightarrow> (string \<times> 's) list \<Rightarrow> ('c, 'm) mongo_service \<Rightarrow>
   ('w, ('c, 'm) mongo_service) act" where
  "mongo_models M c [] S = returning S"
| "mongo_models M c ((n, schema) # rest) S =
     andThen (external (mongo_model M c n schema)) (\<lambda>m.
       mongo_models M c rest
         (S\<lparr>ms_models := assign_entry n m (ms_models S), ms_props := assign_entry n m (ms_props S)\<rparr>))"

definition mongo_setup_models ::
  "('w, 'c, 's, 'm) mongoose \<Rightarrow> apm_conf \<Rightarrow> 's js_object \<Rightarrow> 'c \<Rightarrow> ('c, 'm) mongo_service \<Rightarrow>
   ('w, ('c, 'm) mongo_service) act" where
  "mongo_setup_models M A schemas c S =
    tryCatch (thenDo (external (mo_hooks M)) (mongo_models M c schemas S))
      (wrap_error AppLogger A (MongoServiceError ''Error setting up models''))"

definition mongo_connect ::
  "('w, 'c, 's, 'm) mongoose \<Rightarrow> apm_conf \<Rightarrow> 's js_object \<Rightarrow> ('c, 'm) mongo_service \<Rightarrow>
   ('w, ('c, 'm) mongo_service) act" where
  "mongo_connect M A schemas S =
    andThen (mongo_initiate_connection M A) (\<lambda>c.
      mongo_setup_models M A schemas c (S\<lparr>ms_connection := Some c\<rparr>))"

definition mongo_close_connection :: "('w, 'c, 's, 'm) mongoose \<Rightarrow> apm_conf \<Rightarrow> ('w, unit) act" where
  "mongo_close_connection M A =
    tryCatch
      (thenDo (external (\<lambda>w. all_calls (mo_close M) (mo_connections M w) w))
        (log_to AppLogger LLog ''Mongoose connection closed!!'' []))
      (wrap_error AppLogger A (MongoServiceError ''Error closing mongoose connection''))"

text \<open>Before \<open>connect\<close> there is no connection whose state could be read.\<close>

definition mongo_is_connected ::
  "('w, 'c, 's, 'm) mongoose \<Rightarrow> ('c, 'm) mongo_service \<Rightarrow> ('w, bool) act" where
  "mongo_is_connected M S s =
    (case ms_connection S of
       None \<Rightarrow> (Inl (new_TypeError ''Cannot read properties of undefined (reading 'readyState')''), s)
     | Some c \<Rightarrow> (Inr (mo_ready M c (world s) = 1), s))"

text \<open>\<open>RepositoryService.connectionStatus\<close>\<close>

definition connection_status :: "('w, 'c, 's, 'm) mongoose \<Rightarrow> ('c, 'm) mongo_service \<Rightarrow> ('w, string) act" where
  "connection_status M S =
    andThen (mongo_is_connected M S) (\<lambda>up. returning (if up then ''success'' else ''failure''))"

subsection \<open>SQL\<close>

text \<open>
  Sequelize: the constructor, \<open>authenticate\<close>, \<open>close\<close> and \<open>sync\<close>; a model factory gives a model, and a model may have
  an \<open>associate\<close> function, which is handed the models that are set up by then.
\<close>

record ('w, 'c, 'm) sequelize =
  sq_new :: "('w, 'c) call"
  sq_authenticate :: "'c \<Rightarrow> ('w, unit) call"
  sq_close :: "'c \<Rightarrow> ('w, unit) call"
  sq_sync :: "'c \<Rightarrow> ('w, 'c) call"
  sq_associate :: "'m \<Rightarrow> ('m js_object \<Rightarrow> ('w, unit) call) option"

definition sql_initiate_connection :: "('w, 'c, 'm) sequelize \<Rightarrow> apm_conf \<Rightarrow> ('w, 'c) act" where
  "sql_initiate_connection Q A =
    tryCatch
      (andThen (external (sq_new Q)) (\<lambda>c.
        thenDo (log_to AppLogger LLog ''Successfully Connected to Sequelize!!'' []) (returning c)))
      (wrap_error AppLogger A (SqlServiceError ''Error connecting to sequelize''))"

fun sql_setup_models ::
  "('w, 'c, 'm) sequelize \<Rightarrow> 'c \<Rightarrow> (string \<times> ('c \<Rightarrow> ('w, 'm) call)) list \<Rightarrow> 'm js_object \<Rightarrow> ('w, 'm js_object) act" where
  "sql_setup_models Q c [] models = returning models"
| "sql_setup_models Q c ((n, factory) # rest) models =
     andThen (external (factory c)) (\<lambda>m.
       let models' = assign_entry n m models
       in thenDo (case sq_associate Q m of None \<Rightarrow> returning () | Some assoc \<Rightarrow> external (assoc models'))
            (sql_setup_models Q c rest models'))"

definition sql_connect ::
  "('w, 'c, 'm) sequelize \<Rightarrow> apm_conf \<Rightarrow> ('c \<Rightarrow> ('w, 'm) call) js_object \<Rightarrow> ('w, 'c \<times> 'm js_object) act" where
  "sql_connect Q A modelsRef =
    andThen (sql_initiate_connection Q A) (\<lambda>c.
      andThen (sql_setup_models Q c modelsRef []) (\<lambda>models. returning (c, models)))"

definition sql_is_connected :: "('w, 'c, 'm) sequelize \<Rightarrow> apm_conf \<Rightarrow> 'c \<Rightarrow> ('w, bool) act" where
  "sql_is_connected Q A c =
    tryCatch (thenDo (external (sq_authenticate Q c)) (returning True))
      (\<lambda>e. thenDo (report TxnLogger A (SqlServiceError ''Error authenticating to sequelize'' (Some e)))
             (returning False))"

definition sql_close_connection :: "('w, 'c, 'm) sequelize \<Rightarrow> apm_conf \<Rightarrow> 'c \<Rightarrow> ('w, unit) act" where
  "sql_close_connection Q A c =
    tryCatch
      (thenDo (external (sq_close Q c)) (log_to AppLogger LLog ''Sequelize connection closed!!'' []))
      (wrap_error AppLogger A (SqlServiceError ''Error closing sequelize connection''))"

definition sql_sync_db :: "('w, 'c, 'm) sequelize \<Rightarrow> apm_conf \<Rightarrow> 'c \<Rightarrow> ('w, 'c) act" where
  "sql_sync_db Q A c =
    tryCatch (external (sq_sync Q c))
      (wrap_error TxnLogger A (SqlServiceError ''Error syncing sequelize connection''))"

subsection \<open>Elasticsearch\<close>

record ('w, 'c) elastic =
  el_new :: "('w, 'c) call"
  el_ping :: "'c \<Rightarrow> ('w, jv) call"
  el_close :: "'c \<Rightarrow> ('w, unit) call"

definition elastic_connect :: "('w, 'c) elastic \<Rightarrow> apm_conf \<Rightarrow> ('w, 'c) act" where
  "elastic_connect E A =
    tryCatch
      (andThen (external (el_new E)) (\<lambda>c.
        thenDo (log_to AppLogger LLog ''Successfully connected to Elasticsearch!!'' []) (returning c)))
      (wrap_error AppLogger A (ElasticsearchServiceError ''Error connecting to Elasticsearch''))"

definition elastic_is_connected :: "('w, 'c) elastic \<Rightarrow> apm_conf \<Rightarrow> 'c \<Rightarrow> ('w, bool) act" where
  "elastic_is_connected E A c =
    tryCatch (andThen (external (el_ping E c)) (\<lambda>r.
        if nullish r then raise (new_TypeError (''Cannot read properties of '' @ jv_string r @ '' (reading 'body')''))
        else returning (truthy (jv_get r ''body''))))
      (\<lambda>e. thenDo (report TxnLogger A (ElasticsearchServiceError ''Error pinging Elasticsearch'' (Some e)))
             (returning False))"

definition elastic_close_connection :: "('w, 'c) elastic \<Rightarrow> apm_conf \<Rightarrow> 'c \<Rightarrow> ('w, unit) act" where
  "elastic_close_connection E A c =
    tryCatch
      (thenDo (external (el_close E c)) (log_to AppLogger LLog ''Elasticsearch connection closed!!'' []))
      (wrap_error AppLogger A (ElasticsearchServiceError ''Error closing connection to Elasticsearch''))"

subsection \<open>The switch over the database types\<close>

datatype db_kind = Mongo_db | Sql_db | Elastic_db

text \<open>
  \<open>new DBService(config)\<close>: which service is built. The arguments say whether the configuration has schemas, models and client
  options; a missing one is reported to the agent only, an unknown type is logged as well.
\<close>

definition db_service :: "apm_conf \<Rightarrow> string \<Rightarrow> bool \<Rightarrow> bool \<Rightarrow> bool \<Rightarrow> ('w, db_kind) act" where
  "db_service A type schemas models clientOptions =
    (let refuse = (\<lambda>m. let err = DBServiceError m None in thenDo (capture_error A err) (raise err))
     in if type = ''mongodb'' then
          (if schemas then returning Mongo_db else refuse ''Schemas are required for MongoDB connection'')
        else if type = ''sql'' then
          (if models then returning Sql_db else refuse ''Models are required for SQL connection'')
        else if type = ''elasticsearch'' then
          (if clientOptions then returning Elastic_db
           else refuse ''Client options are required for Elasticsearch connection'')
        else let err = DBServiceError (''DB type not supported: '' @ type) None
             in thenDo (report AppLogger A err) (raise err))"

subsection \<open>The operations meet the contract of a wrapped call\<close>

lemmas db_simps = tryCatch_def thenDo_def andThen_def external_def log_to_def report_eq raise_eq returning_eq
  wrap_error_def Let_def

definition db_logged :: "string \<Rightarrow> 'w rt \<Rightarrow> 'w rt" where
  "db_logged t s = s\<lparr>log_lines := log_lines s @ [Log_line AppLogger LLog t []]\<rparr>"

lemma db_logged_sel [simp]: "world (db_logged t s) = world s" "files (db_logged t s) = files s"
  by (simp_all add: db_logged_def)

interpretation mongo_close: wrapped_call
  "\<lambda>_ :: unit. mongo_close_connection M A" "\<lambda>_ w. all_calls (mo_close M) (mo_connections M w) w" "\<lambda>_ r. r"
  "\<lambda>_ e. MongoServiceError ''Error closing mongoose connection'' (Some e)"
  AppLogger A "\<lambda>_ s. s" "\<lambda>_ _. db_logged ''Mongoose connection closed!!''"
  for M A
  by unfold_locales (auto simp: mongo_close_connection_def db_logged_def db_simps)

interpretation sql_new: wrapped_call
  "\<lambda>_ :: unit. sql_initiate_connection Q A" "\<lambda>_. sq_new Q" "\<lambda>_ r. r"
  "\<lambda>_ e. SqlServiceError ''Error connecting to sequelize'' (Some e)"
  AppLogger A "\<lambda>_ s. s" "\<lambda>_ _. db_logged ''Successfully Connected to Sequelize!!''"
  for Q A
  by unfold_locales (auto simp: sql_initiate_connection_def db_logged_def db_simps)

interpretation sql_close: wrapped_call
  "sql_close_connection Q A" "sq_close Q" "\<lambda>_ r. r"
  "\<lambda>_ e. SqlServiceError ''Error closing sequelize connection'' (Some e)"
  AppLogger A "\<lambda>_ s. s" "\<lambda>_ _. db_logged ''Sequelize connection closed!!''"
  for Q A
  by unfold_locales (auto simp: sql_close_connection_def db_logged_def db_simps)

interpretation sql_sync: wrapped_call
  "sql_sync_db Q A" "sq_sync Q" "\<lambda>_ r. r"
  "\<lambda>_ e. SqlServiceError ''Error syncing sequelize connection'' (Some e)"
  TxnLogger A "\<lambda>_ s. s" "\<lambda>_ _ s. s"
  for Q A
  by unfold_locales (auto simp: sql_sync_db_def db_simps)

interpretation elastic_conn: wrapped_call
  "\<lambda>_ :: unit. elastic_connect E A" "\<lambda>_. el_new E" "\<lambda>_ r. r"
  "\<lambda>_ e. ElasticsearchServiceError ''Error connecting to Elasticsearch'' (Some e)"
  AppLogger A "\<lambda>_ s. s" "\<lambda>_ _. db_logged ''Successfully connected to Elasticsearch!!''"
  for E A
  by unfold_locales (auto simp: elastic_connect_def db_logged_def db_simps)

interpretation elastic_close: wrapped_call
  "elastic_close_connection E A" "el_close E" "\<lambda>_ r. r"
  "\<lambda>_ e. ElasticsearchServiceError ''Error closing connection to Elasticsearch'' (Some e)"
  AppLogger A "\<lambda>_ s. s" "\<lambda>_ _. db_logged ''Elasticsearch connection closed!!''"
  for E A
  by unfold_locales (auto simp: elastic_close_connection_def db_logged_def db_simps)

subsection \<open>Connecting to MongoDB\<close>

lemma mongo_initiate_result:
  "mongo_initiate_connection M A s = (Inr c, s') \<Longrightarrow> \<exists>w. mo_connect M (world s) = (Inr (Some c), w) \<and> world s' = w"
  by (auto simp: mongo_initiate_connection_def db_simps split: prod.splits sum.splits option.splits)

text \<open>The models the loop leaves: one per schema, the same as the service's property of its name, and those from before.\<close>

definition models_set_up :: "string set \<Rightarrow> ('c, 'm) mongo_service \<Rightarrow> ('c, 'm) mongo_service \<Rightarrow> bool" where
  "models_set_up ns S S' \<longleftrightarrow> ms_connection S' = ms_connection S \<and>
    (\<forall>n. if n \<in> ns then \<exists>m. js_own (ms_models S') n = Some m \<and> js_own (ms_props S') n = Some m
         else js_own (ms_models S') n = js_own (ms_models S) n \<and> js_own (ms_props S') n = js_own (ms_props S) n)"

lemma mongo_models_set_up:
  "mongo_models M c schemas S s = (Inr S', s') \<Longrightarrow> ''__proto__'' \<notin> set (js_keys schemas) \<Longrightarrow>
    models_set_up (set (js_keys schemas)) S S'"
proof (induction M c schemas S arbitrary: s rule: mongo_models.induct)
  case (1 M c S)
  then show ?case by (simp add: returning_eq models_set_up_def js_keys_def)
next
  case (2 M c k schema rest S)
  from "2.prems" obtain m s1 where "mongo_models M c rest
      (S\<lparr>ms_models := assign_entry k m (ms_models S), ms_props := assign_entry k m (ms_props S)\<rparr>) s1 = (Inr S', s')"
    by (auto simp: andThen_result)
  from "2.IH" [OF this] "2.prems" show ?case
    by (auto simp: models_set_up_def js_keys_def js_own_assign_entry split: if_splits)
qed

text \<open>
  Connecting to MongoDB returns only with a connection, and with the models in place: one for each schema of the
  configuration, reachable both as \<open>models[name]\<close> and as the service's own property, and nothing else has been set.
\<close>

theorem mongo_connect_sets_up_models:
  assumes "mongo_connect M A schemas S s = (Inr S', s')" and "''__proto__'' \<notin> set (js_keys schemas)"
  shows "\<exists>c w. mo_connect M (world s) = (Inr (Some c), w) \<and> ms_connection S' = Some c \<and>
    (\<forall>n. if n \<in> set (js_keys schemas)
         then \<exists>m. js_own (ms_models S') n = Some m \<and> js_own (ms_props S') n = Some m
         else js_own (ms_models S') n = js_own (ms_models S) n \<and> js_own (ms_props S') n = js_own (ms_props S) n)"
proof -
  from assms(1) obtain c s1 s2 where 1: "mongo_initiate_connection M A s = (Inr c, s1)"
    and 2: "mongo_models M c schemas (S\<lparr>ms_connection := Some c\<rparr>) s2 = (Inr S', s')"
    by (auto simp: mongo_connect_def mongo_setup_models_def db_simps split: prod.splits sum.splits)
  from mongo_models_set_up [OF 2 assms(2)] mongo_initiate_result [OF 1] show ?thesis
    by (auto simp: models_set_up_def)
qed

text \<open>
  Connecting fails only with a \<open>MongoServiceError\<close>, whatever the library or the configured hook throws.
\<close>

theorem mongo_connect_errors:
  assumes "mongo_connect M A schemas S s = (Inl e, s')"
  shows "instance_of e C_MongoServiceError \<and> instance_of e C_DBServiceError"
proof -
  have "\<exists>m d. e = MongoServiceError m d"
    using assms
    by (auto simp: mongo_connect_def mongo_initiate_connection_def mongo_setup_models_def db_simps
        split: prod.splits sum.splits option.splits)
  then show ?thesis using instance_of_MongoServiceError by blast
qed

subsection \<open>The statements in a concrete world\<close>

definition sample_mongoose :: "(nat, nat, nat, nat) mongoose" where
  "sample_mongoose =
    \<lparr>mo_connect = (\<lambda>w. (Inr (Some 7), Suc w)), mo_ready = (\<lambda>c w. 1), mo_compiled = (\<lambda>c n w. None),
     mo_compile = (\<lambda>c n schema w. (if schema = 0 then Inl (new_Error ''no schema'') else Inr (schema + 1), w)),
     mo_connections = (\<lambda>w. [7]), mo_close = (\<lambda>c w. (Inr (), w)), mo_hooks = (\<lambda>w. (Inr (), w))\<rparr>"

definition fresh_mongo :: "(nat, nat) mongo_service" where
  "fresh_mongo = \<lparr>ms_connection = None, ms_models = [], ms_props = []\<rparr>"

definition db_run :: "nat rt" where
  "db_run = \<lparr>world = 0, files = \<lparr>is_dir = (\<lambda>q. q = []), file_at = Map.empty\<rparr>, log_lines = [], apm_events = []\<rparr>"

definition db_apm :: apm_conf where
  "db_apm = \<lparr>apm_on = True, apm_txn = None\<rparr>"

theorem mongo_connect_sets_up_models_witness:
  "\<exists>S' s' m. mongo_connect sample_mongoose db_apm [(''Request'', 4)] fresh_mongo db_run = (Inr S', s') \<and>
    ms_connection S' = Some 7 \<and> js_own (ms_models S') ''Request'' = Some m \<and> js_own (ms_props S') ''Request'' = Some m"
proof -
  let ?run = "mongo_connect sample_mongoose db_apm [(''Request'', 4)] fresh_mongo db_run"
  have "\<exists>S'. fst ?run = Inr S'"
    by (simp add: mongo_connect_def mongo_initiate_connection_def mongo_setup_models_def mongo_model_def db_simps
        sample_mongoose_def)
  then obtain S' where run: "?run = (Inr S', snd ?run)" by (metis prod.collapse)
  have "''__proto__'' \<notin> set (js_keys [(''Request'', 4 :: nat)])" by (simp add: js_keys_def)
  from mongo_connect_sets_up_models [OF run this] run show ?thesis
    by (fastforce simp: sample_mongoose_def js_keys_def dest: spec [of _ "''Request''"])
qed

theorem mongo_connect_errors_witness:
  "\<exists>e s'. mongo_connect sample_mongoose db_apm [(''Request'', 0)] fresh_mongo db_run = (Inl e, s') \<and>
    instance_of e C_MongoServiceError"
proof -
  let ?run = "mongo_connect sample_mongoose db_apm [(''Request'', 0)] fresh_mongo db_run"
  have "\<exists>e. fst ?run = Inl e"
    by (simp add: mongo_connect_def mongo_initiate_connection_def mongo_setup_models_def mongo_model_def db_simps
        sample_mongoose_def)
  then obtain e where run: "?run = (Inl e, snd ?run)" by (metis prod.collapse)
  from mongo_connect_errors [OF run] run show ?thesis by blast
qed

end
