(* ===== verification/ErrorResponse.thy ===== *)
theory ErrorResponse
  imports AppConfig DbService CsvRefine
begin

text \<open>
  What a client of the API is answered: the exception filter (\<open>filters/http-exception.filter.ts\<close>), the response
  interceptor (\<open>interceptors/request-response.interceptor.ts\<close>), and the health check
  (\<open>modules/health-check/health-check.service.ts\<close>, \<open>health-check.controller.ts\<close>). The health-check library
  is a parameter.
\<close>

subsection \<open>The exception filter\<close>

text \<open>\<open>code.CODE == status\<close>: the status may be a number or its decimal text.\<close>

definition loosely_equals :: "nat \<Rightarrow> jv \<Rightarrow> bool" where
  "loosely_equals n v =
    (case v of
       JNum i \<Rightarrow> i = int n
     | JStr s \<Rightarrow> list_all is_digit (trim s) \<and> trim s \<noteq> [] \<and> read_digits (trim s) = n
     | _ \<Rightarrow> False)"

definition http_codes :: "http_code list" where
  "http_codes =
    [ACCEPTED_CODE, BAD_REQUEST, UNAUTHORIZED, FORBIDDEN, NOT_FOUND, PAYLOAD_TOO_LARGE, UNPROCESSABLE_ENTITY,
     DEPENDENCY_FAILED, PRECONDITION_REQUIRED, INTERNAL_SERVER_ERROR]"

definition code_jv :: "http_code \<Rightarrow> jv" where
  "code_jv c = JObj [(''CODE'', JNum (int (code_of c))), (''MESSAGE'', JStr (code_message c))]"

text \<open>The body of an error response: its message, and its details when there are some.\<close>

record http_error =
  he_message :: jv
  he_details :: "jv option"

definition error_code_resp :: "exn \<Rightarrow> jv \<Rightarrow> http_error" where
  "error_code_resp e status =
    (let statusMessage = (case find (\<lambda>c. loosely_equals (code_of c) status) http_codes of
           Some c \<Rightarrow> code_jv c | None \<Rightarrow> JUndef);
         resp = exn_get e ''response''
     in \<lparr>he_message = coalesce [exn_get e ''message'', jv_get resp ''error'', statusMessage]
            (JStr (code_message INTERNAL_SERVER_ERROR)),
         he_details = (if truthy (jv_get resp ''message'') then Some (jv_get resp ''message'') else None)\<rparr>)"

text \<open>
  \<open>config.HEALTH_CHECKS\<close> in the order of its keys, with name and message of \<open>config.HEALTH_CHECK_ERRORS\<close>, which has no
  entry for the last.
\<close>

definition health_checks :: "(string \<times> (string \<times> string) option) list" where
  "health_checks =
    [(''no_shutdown_mode'', Some (''ShutdownModeError'', ''Shutdown mode is enabled'')),
     (''db_status'', Some (''DbHealthCheckError'', ''DB is down'')),
     (''readiness'', None)]"

definition check_is_down :: "exn \<Rightarrow> string \<Rightarrow> bool" where
  "check_is_down e k \<longleftrightarrow>
    jv_get (jv_get (jv_get (exn_get e ''response'') ''error'') k) ''status'' = JStr ''down''"

fun renamed :: "exn \<Rightarrow> string \<Rightarrow> string \<Rightarrow> exn" where
  "renamed (Exn c n m d fs) n' m' = Exn c n' m' d fs"
| "renamed (Thrown (JObj ps)) n' m' =
    Thrown (JObj (js_put ''message'' (JStr m') (js_put ''name'' (JStr n') ps)))"
| "renamed (Thrown v) n' m' = Thrown v"

definition health_check_error_resp :: "apm_conf \<Rightarrow> exn \<Rightarrow> jv \<Rightarrow> ('w, http_error) act" where
  "health_check_error_resp A e status =
    (let r = error_code_resp e status;
         answer = (\<lambda>e'. thenDo (capture_error A e')
           (returning (r\<lparr>he_details := Some (jv_get (exn_get e ''response'') ''error'')\<rparr>)))
     in case find (\<lambda>(k, _). check_is_down e k) health_checks of
          None \<Rightarrow> answer e
        | Some (_, Some (n, m)) \<Rightarrow> answer (renamed e n m)
        | Some (_, None) \<Rightarrow> raise (new_TypeError ''Cannot read properties of undefined (reading 'NAME')''))"

definition http_error_jv :: "http_error \<Rightarrow> jv" where
  "http_error_jv r =
    JObj [(''success'', JBool False),
          (''error'', JObj ((''message'', he_message r) #
            (case he_details r of None \<Rightarrow> [] | Some d \<Rightarrow> [(''details'', d)])))]"

text \<open>\<open>catch\<close>: the status and the body that are sent.\<close>

definition exception_filter :: "apm_conf \<Rightarrow> exn \<Rightarrow> ('w, jv \<times> http_error) act" where
  "exception_filter A e =
    (let status = coalesce [exn_get e ''status''] (JNum (int (code_of INTERNAL_SERVER_ERROR)))
     in andThen
         (if exn_get e ''name'' = JStr ''ServiceUnavailableException''
          then health_check_error_resp A e status
          else thenDo (capture_error A e) (returning (error_code_resp e status)))
         (\<lambda>error. thenDo (log_to ApmLogger LError [] [http_error_jv error]) (returning (status, error))))"

subsection \<open>The response interceptor\<close>

definition starts_with :: "string \<Rightarrow> string \<Rightarrow> bool" where
  "starts_with s p \<longleftrightarrow> take (length p) s = p"

definition intercept :: "string \<Rightarrow> ('w, jv) act \<Rightarrow> ('w, jv) act" where
  "intercept url handler =
    thenDo (if starts_with url ''/api/health-check'' then returning ()
            else log_to TxnLogger LLog [] [JObj [(''msg'', JStr ''Request received'')]])
      (andThen handler (\<lambda>d. returning (JObj [(''success'', JBool True), (''data'', d)])))"

text \<open>A request is answered by the interceptor's value, with the status the handler left, or by the filter.\<close>

definition respond :: "apm_conf \<Rightarrow> string \<Rightarrow> nat \<Rightarrow> ('w, jv) act \<Rightarrow> ('w, jv \<times> jv) act" where
  "respond A url ok handler =
    tryCatch (andThen (intercept url handler) (\<lambda>body. returning (JNum (int ok), body)))
      (\<lambda>e. andThen (exception_filter A e) (\<lambda>(st, err). returning (st, http_error_jv err)))"

subsection \<open>Health checks\<close>

text \<open>
  The library: the check over the outcomes of the indicators, the status object of a key, and the error an indicator throws.
\<close>

record terminus =
  tm_check :: "(exn + jv) list \<Rightarrow> exn + jv"
  tm_status :: "string \<Rightarrow> bool \<Rightarrow> jv"
  tm_error :: "string \<Rightarrow> jv \<Rightarrow> exn"

record health_check =
  shutdownMode :: bool

definition db_indicator :: "terminus \<Rightarrow> string \<Rightarrow> exn + jv" where
  "db_indicator T db_status =
    (if db_status \<noteq> ''success'' then Inl (tm_error T ''db_status'' (tm_status T ''db_status'' False))
     else Inr (tm_status T ''db_status'' (db_status = ''success'')))"

definition get_db_statuses :: "terminus \<Rightarrow> ('w, string) act \<Rightarrow> ('w, (exn + jv) list) act" where
  "get_db_statuses T connectionStatus = andThen connectionStatus (\<lambda>st. returning [db_indicator T st])"

definition get_shutdown_mode_status :: "terminus \<Rightarrow> health_check \<Rightarrow> exn + jv" where
  "get_shutdown_mode_status T H =
    (if shutdownMode H then Inl (tm_error T ''no_shutdown_mode'' (tm_status T ''no_shutdown_mode'' False))
     else Inr (tm_status T ''readiness'' True))"

definition liveness :: "terminus \<Rightarrow> ('w, string) act \<Rightarrow> ('w, jv) act" where
  "liveness T connectionStatus =
    andThen (get_db_statuses T connectionStatus) (\<lambda>dbs. pure_result (tm_check T dbs))"

definition readiness :: "terminus \<Rightarrow> health_check \<Rightarrow> ('w, string) act \<Rightarrow> ('w, jv) act" where
  "readiness T H connectionStatus =
    andThen (get_db_statuses T connectionStatus) (\<lambda>dbs.
      pure_result (tm_check T (dbs @ [get_shutdown_mode_status T H])))"

definition on_shutdown_event :: "health_check \<Rightarrow> health_check" where
  "on_shutdown_event H = H\<lparr>shutdownMode := True\<rparr>"

text \<open>The events and requests a health-check service sees.\<close>

datatype health_event = Shutdown_event | Liveness_request | Readiness_request

fun health_state :: "health_event list \<Rightarrow> health_check \<Rightarrow> health_check" where
  "health_state [] H = H"
| "health_state (Shutdown_event # es) H = health_state es (on_shutdown_event H)"
| "health_state (_ # es) H = health_state es H"

definition new_health_check :: health_check where
  "new_health_check = \<lparr>shutdownMode = False\<rparr>"

lemma health_state_shutdown: "shutdownMode (health_state es H) \<longleftrightarrow> shutdownMode H \<or> Shutdown_event \<in> set es"
  by (induction es H rule: health_state.induct) (auto simp: on_shutdown_event_def)

text \<open>The documented behaviour of the library's check: it returns exactly when every indicator did.\<close>

definition check_laws :: "terminus \<Rightarrow> bool" where
  "check_laws T \<longleftrightarrow> (\<forall>rs. (\<exists>v. tm_check T rs = Inr v) \<longleftrightarrow> (\<forall>r \<in> set rs. \<exists>v. r = Inr v))"

text \<open>
  The service is reported ready exactly when the database is connected and no shutdown event was ever seen; it is
  reported alive exactly when the database is connected, whatever events there were.
\<close>

theorem readiness_until_shutdown:
  assumes "check_laws T" and "connection_status M S s = (Inr st, s')"
  shows "((\<exists>v. readiness T (health_state es new_health_check) (connection_status M S) s = (Inr v, s')) \<longleftrightarrow>
      st = ''success'' \<and> Shutdown_event \<notin> set es) \<and>
    ((\<exists>v. liveness T (connection_status M S) s = (Inr v, s')) \<longleftrightarrow> st = ''success'')"
proof -
  have check: "(\<exists>v. tm_check T rs = Inr v) \<longleftrightarrow> (\<forall>r \<in> set rs. \<exists>v. r = Inr v)" for rs
    using assms(1) by (simp add: check_laws_def)
  have "(\<exists>v. readiness T (health_state es new_health_check) (connection_status M S) s = (Inr v, s')) \<longleftrightarrow>
      (\<exists>v. tm_check T [db_indicator T st, get_shutdown_mode_status T (health_state es new_health_check)] = Inr v)"
    using assms(2) by (simp add: readiness_def get_db_statuses_def andThen_def returning_eq pure_result_def)
  moreover have "(\<exists>v. liveness T (connection_status M S) s = (Inr v, s')) \<longleftrightarrow> (\<exists>v. tm_check T [db_indicator T st] = Inr v)"
    using assms(2) by (simp add: liveness_def get_db_statuses_def andThen_def returning_eq pure_result_def)
  ultimately show ?thesis
    unfolding check by (auto simp: db_indicator_def get_shutdown_mode_status_def health_state_shutdown new_health_check_def)
qed

subsection \<open>How the reader's errors are answered\<close>

lemma filter_HttpException:
  "\<exists>s'. exception_filter A (HttpException m code) s =
    (Inr (JNum (int code), \<lparr>he_message = JStr m, he_details = None\<rparr>), s')"
  by (simp add: exception_filter_def HttpException_def error_code_resp_def Let_def act_simps nullish_def js_own_def
      andThen_def)

lemma filter_TypeError:
  "\<exists>s'. exception_filter A (new_TypeError m) s = (Inr (JNum 500, \<lparr>he_message = JStr m, he_details = None\<rparr>), s')"
  by (simp add: exception_filter_def new_TypeError_def error_code_resp_def Let_def act_simps nullish_def andThen_def)

lemma filter_other:
  "exn_get e ''name'' \<noteq> JStr ''ServiceUnavailableException'' \<Longrightarrow>
    \<exists>s'. exception_filter A e s =
      (Inr (coalesce [exn_get e ''status''] (JNum 500), error_code_resp e (coalesce [exn_get e ''status''] (JNum 500))), s')"
  by (simp add: exception_filter_def Let_def act_simps andThen_def)

lemma refused_file_errors:
  assumes "validate_and_parse V dec f mimeType = Inl e"
  shows "(\<exists>m. e = HttpException m 422) \<or> e = inherited_name_error \<or>
    mimeType = ALLOWED_MIME_TYPE \<and> failure f = Some e"
proof (cases "validate_mime_type mimeType")
  case (Inl e')
  then have "e = e'" using assms by (simp add: validate_and_parse_def)
  then show ?thesis using Inl
    by (auto simp: validate_mime_type_def csv_error_def csv_failure_code_def split: if_splits)
next
  case (Inr u)
  then have "parse_data V dec f = Inl e" "mimeType = ALLOWED_MIME_TYPE"
    using assms by (auto simp: validate_and_parse_def validate_mime_type_def split: if_splits)
  with parse_data_only_errors [OF this(1)] show ?thesis by blast
qed

text \<open>
  C34: What the client of a refused file is answered, for every file. Either the answer has code 422 and the text of the
  check that failed; or a product has the name of an inherited property, and the answer is an internal error, code 500,
  with the text of the \<open>TypeError\<close>; or the stream of the file broke off, and the answer has the status its error carries, and
  500 when it carries none.
\<close>

theorem refused_file_answers:
  assumes "validate_and_parse V dec f mimeType = Inl e"
  shows "(\<exists>m s'. e = HttpException m 422 \<and>
      exception_filter A e s = (Inr (JNum 422, \<lparr>he_message = JStr m, he_details = None\<rparr>), s')) \<or>
    e = inherited_name_error \<and>
      (\<exists>s'. exception_filter A e s =
        (Inr (JNum 500, \<lparr>he_message = JStr ''data.products[product.name].inputImageUrls is not iterable'', he_details = None\<rparr>), s')) \<or>
    mimeType = ALLOWED_MIME_TYPE \<and> failure f = Some e \<and>
      (exn_get e ''name'' \<noteq> JStr ''ServiceUnavailableException'' \<longrightarrow>
        (\<exists>err s'. exception_filter A e s = (Inr (coalesce [exn_get e ''status''] (JNum 500), err), s')))"
proof -
  consider (check) m where "e = HttpException m 422" | (name) "e = inherited_name_error"
    | (stream) "mimeType = ALLOWED_MIME_TYPE" "failure f = Some e"
    using refused_file_errors [OF assms] by blast
  then show ?thesis
  proof cases
    case check
    with filter_HttpException [of A m 422 s] show ?thesis by auto
  next
    case name
    with filter_TypeError [of A _ s] show ?thesis unfolding inherited_name_error_def by blast
  next
    case stream
    with filter_other [of e A s] show ?thesis by blast
  qed
qed

subsection \<open>The statements in a concrete world\<close>

definition sample_terminus :: terminus where
  "sample_terminus =
    \<lparr>tm_check = (\<lambda>rs. if list_all (\<lambda>r. case r of Inr v \<Rightarrow> True | Inl e \<Rightarrow> False) rs
       then Inr (JObj [(''status'', JStr ''ok'')])
       else Inl (Exn C_HttpException ''ServiceUnavailableException'' ''Service Unavailable Exception'' None
         [(''status'', JNum 503)])),
     tm_status = (\<lambda>k b. JObj [(k, JObj [(''status'', JStr (if b then ''up'' else ''down''))])]),
     tm_error = (\<lambda>m causes. Exn C_LibraryError ''HealthCheckError'' m None [(''causes'', causes)])\<rparr>"

lemma sample_check_laws: "check_laws sample_terminus"
proof -
  have "(case r of Inr v \<Rightarrow> True | Inl e \<Rightarrow> False) \<longleftrightarrow> (\<exists>v. r = Inr v)" for r :: "exn + jv" by (cases r) simp_all
  then show ?thesis by (simp add: check_laws_def sample_terminus_def list_all_iff)
qed

theorem readiness_until_shutdown_witness:
  "\<exists>S e. connection_status sample_mongoose S db_run = (Inr ''success'', db_run) \<and>
    (\<exists>v. readiness sample_terminus (health_state [Liveness_request] new_health_check)
       (connection_status sample_mongoose S) db_run = (Inr v, db_run)) \<and>
    readiness sample_terminus (health_state [Liveness_request, Shutdown_event, Readiness_request] new_health_check)
       (connection_status sample_mongoose S) db_run = (Inl e, db_run)"
proof -
  let ?S = "fresh_mongo\<lparr>ms_connection := Some 7\<rparr>"
  have c: "connection_status sample_mongoose ?S db_run = (Inr ''success'', db_run)"
    by (simp add: connection_status_def mongo_is_connected_def andThen_def returning_eq sample_mongoose_def)
  note r = readiness_until_shutdown [OF sample_check_laws c]
  let ?r = "readiness sample_terminus (health_state [Liveness_request, Shutdown_event, Readiness_request] new_health_check)
       (connection_status sample_mongoose ?S) db_run"
  have "snd ?r = db_run"
    using c by (simp add: readiness_def get_db_statuses_def andThen_def returning_eq pure_result_def)
  then obtain x where x: "?r = (x, db_run)" by (metis prod.collapse)
  with r [of "[Liveness_request, Shutdown_event, Readiness_request]"] obtain e where "x = Inl e" by (cases x) auto
  with x c r [of "[Liveness_request]"] show ?thesis by auto
qed

theorem refused_file_answers_witness:
  "\<exists>e m s'. validate_and_parse sample_validator id headless_file ''text/csv'' = Inl e \<and>
    exception_filter db_apm e db_run = (Inr (JNum 422, \<lparr>he_message = JStr m, he_details = None\<rparr>), s')"
proof -
  let ?r = "validate_and_parse sample_validator id headless_file ''text/csv''"
  have "error_of ?r \<noteq> None" "error_of ?r \<noteq> Some inherited_name_error" by code_simp+
  then obtain e where e: "?r = Inl e" "e \<noteq> inherited_name_error" by (cases ?r) (auto simp: error_of_def)
  have "failure headless_file = None" by (simp add: headless_file_def)
  with refused_file_answers [OF e(1), of db_apm db_run] e show ?thesis by auto
qed

end
