(* ===== verification/ServiceBus.thy ===== *)
theory ServiceBus
  imports Effects
begin

text \<open>
  The Azure Service Bus side of \<open>packages/queue-service\<close> (\<open>asb-producer-service.ts\<close>, \<open>asb-consumer-service.ts\<close>,
  \<open>asb-service.ts\<close>): sending, scheduling and cancelling messages, the handlers of a subscription, and
  settling a received message. The client of \<open>@azure/service-bus\<close> is a parameter. A message is a JavaScript
  object; dates are their JSON text.
\<close>

subsection \<open>The client and the agent\<close>

record ('w, 'k, 'r) service_bus =
  az_sender :: "string \<Rightarrow> ('w, 'k) call"
  az_send :: "'k \<Rightarrow> jv \<Rightarrow> ('w, unit) call"
  az_schedule :: "'k \<Rightarrow> jv \<Rightarrow> jv \<Rightarrow> ('w, jv list) call"
  az_cancel :: "'k \<Rightarrow> jv \<Rightarrow> ('w, unit) call"
  az_close_sender :: "'k \<Rightarrow> ('w, unit) call"
  az_receiver :: "jv list \<Rightarrow> ('w, 'r) call"
  az_subscribe :: "'r \<Rightarrow> jv \<Rightarrow> ('w, unit) call"
  az_complete :: "'r \<Rightarrow> jv \<Rightarrow> ('w, unit) call"
  az_abandon :: "'r \<Rightarrow> jv \<Rightarrow> ('w, unit) call"
  az_dead_letter :: "'r \<Rightarrow> jv \<Rightarrow> ('w, unit) call"
  az_close_receiver :: "'r \<Rightarrow> ('w, unit) call"

text \<open>
  The agent: whether \<open>startSpan\<close> gives a span (it does inside a transaction only), and the two properties that
  are read, \<open>undefined\<close> when unset.
\<close>

record apm_agent =
  ag_conf :: apm_conf
  ag_spans :: bool
  ag_traceparent :: jv
  ag_trace_ids :: jv

definition agent_event :: "bool \<Rightarrow> apm_event \<Rightarrow> ('w, unit) act" where
  "agent_event there ev s = (Inr (), if there then s\<lparr>apm_events := apm_events s @ [ev]\<rparr> else s)"

definition span_event :: "apm_agent \<Rightarrow> apm_event \<Rightarrow> ('w, unit) act" where
  "span_event G = agent_event (apm_on (ag_conf G) \<and> ag_spans G)"

text \<open>\<open>startSpan(name, \<dots>)\<close> with \<open>setServiceTarget\<close> and \<open>setType\<close>.\<close>

definition start_span :: "apm_agent \<Rightarrow> string \<Rightarrow> ('w, unit) act" where
  "start_span G n =
    thenDo (agent_event (apm_on (ag_conf G)) (Span_start n (JObj ([(''exitSpan'', JBool True)] @
              (if truthy (ag_traceparent G) then [(''childOf'', ag_traceparent G)] else [])))))
      (thenDo (span_event G (Span_target ''Message Queue'' ''ASB''))
        (span_event G (Span_type ''messaging'')))"

text \<open>\<open>try { await c.close() } catch {}\<close>, then \<open>span?.end()\<close>.\<close>

definition close_quietly :: "apm_agent \<Rightarrow> ('w, unit) call \<Rightarrow> ('w, unit) act" where
  "close_quietly G c =
    thenDo (tryCatch (external c) (\<lambda>_. returning ())) (span_event G Span_end)"

subsection \<open>The producer\<close>

type_synonym asb_message = "(string \<times> jv) list"

definition asb_message_data :: "apm_agent \<Rightarrow> asb_message \<Rightarrow> jv" where
  "asb_message_data G m =
    (let get = jv_get (JObj m);
         tp = (if apm_on (ag_conf G) then ag_traceparent G else JUndef);
         ids = (if apm_on (ag_conf G) then ag_trace_ids G else JUndef)
     in JObj (
       (if truthy (get ''messageId'') then [(''messageId'', get ''messageId'')] else []) @
       (if truthy (get ''scheduleTimeUtc'') then [(''scheduledEnqueueTimeUtc'', get ''scheduleTimeUtc'')] else []) @
       [(''subject'', get ''subject''), (''body'', get ''body''), (''contentType'', JStr ''application/json''),
        (''applicationProperties'', JObj (
          (if truthy (get ''sourceRequestId'') then [(''sourceRequestId'', get ''sourceRequestId'')] else []) @
          (if truthy tp then [(''traceparent'', tp)] else []) @
          (if truthy ids
           then [(''traceId'', jv_get ids ''trace.id''), (''transactionId'', jv_get ids ''transaction.id'')]
           else []) @
          [(''isScheduledMessage'', JBool (truthy (get ''scheduleTimeUtc'')))]))]))"

definition asb_send_message ::
  "('w, 'k, 'r) service_bus \<Rightarrow> apm_agent \<Rightarrow> 'k \<Rightarrow> asb_message \<Rightarrow> ('w, jv) act" where
  "asb_send_message B G sender m =
    tryCatch
      (if ''scheduleTimeUtc'' \<in> set (js_keys m) then
         (if \<not> truthy (jv_get (JObj m) ''scheduleTimeUtc'')
          then raise (new_Error ''scheduleTimeUtc is required for scheduled messages'')
          else andThen (external (az_schedule B sender (asb_message_data G m) (jv_get (JObj m) ''scheduleTimeUtc'')))
                 (\<lambda>seqs. returning (case seqs of [] \<Rightarrow> JUndef | n # _ \<Rightarrow> n)))
       else thenDo (external (az_send B sender (asb_message_data G m))) (returning JUndef))
      (\<lambda>e. let err = ASBProducerServiceError ''Error sending message to ASB'' (Some e)
           in thenDo (report TxnLogger (ag_conf G) err) (raise err))"

definition asb_publish ::
  "('w, 'k, 'r) service_bus \<Rightarrow> apm_agent \<Rightarrow> string \<Rightarrow> asb_message \<Rightarrow> ('w, jv) act" where
  "asb_publish B G queueName m =
    thenDo (set_label (ag_conf G) ''asb_producer_queue'' (JStr queueName))
     (thenDo (start_span G (''ASB SEND to '' @ queueName))
       (thenDo (log_to TxnLogger LLog
                 (''[ASBProducerService] Publishing message to '' @ queueName @ '': '' @ json_text (JObj m)) [])
         (andThen (external (az_sender B queueName)) (\<lambda>sender.
           tryFinally
             (tryCatch
               (andThen (asb_send_message B G sender m) (\<lambda>res.
                 thenDo (log_to TxnLogger LLog (''[ASBProducerService] Published message to '' @ queueName) [])
                   (thenDo (span_event G (Span_outcome ''success'')) (returning res))))
               (\<lambda>e. thenDo (span_event G (Span_outcome ''failure'')) (raise e)))
             (close_quietly G (az_close_sender B sender))))))"

definition asb_cancel_scheduled_message ::
  "('w, 'k, 'r) service_bus \<Rightarrow> apm_agent \<Rightarrow> string \<Rightarrow> jv \<Rightarrow> ('w, unit) act" where
  "asb_cancel_scheduled_message B G queueName sequenceNo =
    thenDo (start_span G (''ASB Cancel Scheduled Message: queueName: '' @ queueName @ '', sequenceNo: '' @ jv_string sequenceNo))
     (thenDo (span_event G (Span_label ''asb_cancel_scheduled_message_queue'' (JStr queueName)))
       (thenDo (span_event G (Span_label ''asb_cancel_scheduled_message'' (JStr (jv_string sequenceNo))))
         (andThen (external (az_sender B queueName)) (\<lambda>sender.
           tryFinally
             (tryCatch
               (thenDo (external (az_cancel B sender sequenceNo))
                 (thenDo (log_to TxnLogger LLog (''[ASBProducerService] Cancelled scheduled message in '' @ queueName) [])
                   (span_event G (Span_outcome ''success''))))
               (\<lambda>e. let err = ASBProducerServiceError (''Error cancelling scheduled message in ASB('' @ queueName @
                              '') for sequenceNo: '' @ jv_string sequenceNo) (Some e)
                    in thenDo (report TxnLogger (ag_conf G) err)
                         (thenDo (span_event G (Span_outcome ''failure'')) (raise err))))
             (close_quietly G (az_close_sender B sender))))))"

subsection \<open>Settling a message\<close>

definition or_empty :: "jv \<Rightarrow> jv" where
  "or_empty v = (if truthy v then v else JStr [])"

text \<open>
  \<open>deleteMessage\<close>, \<open>abandonMessage\<close> and \<open>deadLetterMessage\<close> are the same method up to the receiver's
  function and the texts: span name, label prefix, what is logged and the error's text.
\<close>

definition settle_message ::
  "string \<Rightarrow> string \<Rightarrow> string \<Rightarrow> string \<Rightarrow> ('r \<Rightarrow> jv \<Rightarrow> ('w, unit) call) \<Rightarrow> ('w, 'k, 'r) service_bus \<Rightarrow> apm_agent \<Rightarrow>
   string \<Rightarrow> asb_message \<Rightarrow> ('w, unit) act" where
  "settle_message span_name label done_text error_text settle B G queueName m =
    (let get = jv_get (JObj m);
         mark = (\<lambda>k v. span_event G (Span_label (label @ k) v))
     in thenDo (start_span G (span_name @ ''('' @ queueName @ '')''))
         (thenDo (mark ''_queue'' (JStr queueName))
          (thenDo (mark ''_headers'' (or_empty (json_stringify (get ''applicationProperties''))))
           (thenDo (mark ''_id'' (if nullish (get ''messageId'') then JStr [] else JStr (jv_string (get ''messageId''))))
            (thenDo (mark ''_subject'' (or_empty (get ''subject'')))
             (thenDo (mark ''_body'' (or_empty (json_stringify (get ''body''))))
              (andThen (external (az_receiver B [JStr queueName])) (\<lambda>receiver.
                tryFinally
                  (tryCatch
                    (thenDo (external (settle receiver (JObj m)))
                      (thenDo (log_to TxnLogger LLog (''[ASBConsumerService] '' @ done_text @ ''('' @ queueName @ '')'') [])
                        (span_event G (Span_outcome ''success''))))
                    (\<lambda>e. let err = ASBConsumerServiceError (error_text @ ''('' @ queueName @ '')'') (Some e)
                         in thenDo (report TxnLogger (ag_conf G) err)
                              (thenDo (span_event G (Span_outcome ''failure'')) (raise err))))
                  (close_quietly G (az_close_receiver B receiver))))))))))"

definition asb_delete_message ::
  "('w, 'k, 'r) service_bus \<Rightarrow> apm_agent \<Rightarrow> string \<Rightarrow> asb_message \<Rightarrow> ('w, unit) act" where
  "asb_delete_message B =
    settle_message ''ASB Delete Message from Queue'' ''asb_delete_message'' ''Message Deleted from Queue''
      ''Error deleting message from ASB Queue'' (az_complete B) B"

definition asb_abandon_message ::
  "('w, 'k, 'r) service_bus \<Rightarrow> apm_agent \<Rightarrow> string \<Rightarrow> asb_message \<Rightarrow> ('w, unit) act" where
  "asb_abandon_message B =
    settle_message ''ASB Delete Message from Queue'' ''asb_abandon_message'' ''Message Abandoned from Queue''
      ''Error abandoning message from ASB Queue'' (az_abandon B) B"

definition asb_dead_letter_message ::
  "('w, 'k, 'r) service_bus \<Rightarrow> apm_agent \<Rightarrow> string \<Rightarrow> asb_message \<Rightarrow> ('w, unit) act" where
  "asb_dead_letter_message B =
    settle_message ''ASB Move Message to DLQ Queue'' ''asb_dlq_message'' ''Message Moved to DLQ from Queue''
      ''Error moving message to dlq from ASB Queue'' (az_dead_letter B) B"

subsection \<open>Subscriptions\<close>

datatype asb_source = Queue_source string jv | Topic_source string string jv

fun source_queue :: "asb_source \<Rightarrow> string" where
  "source_queue (Queue_source q opts) = q"
| "source_queue (Topic_source t sub opts) = t"

fun source_title :: "asb_source \<Rightarrow> string" where
  "source_title (Queue_source q opts) = q"
| "source_title (Topic_source t sub opts) = ''topicName: '' @ t @ '', subscriptionName: '' @ sub"

fun source_args :: "asb_source \<Rightarrow> jv list" where
  "source_args (Queue_source q opts) = [JStr q, opts]"
| "source_args (Topic_source t sub opts) = [JStr t, JStr sub, opts]"

definition transaction_event :: "apm_agent \<Rightarrow> apm_event \<Rightarrow> ('w, unit) act" where
  "transaction_event G = agent_event (apm_on (ag_conf G))"

definition setup_transaction :: "apm_agent \<Rightarrow> asb_source \<Rightarrow> asb_message \<Rightarrow> ('w, unit) act" where
  "setup_transaction G src m =
    (let t = jv_get (jv_get (JObj m) ''applicationProperties'') ''traceparent'';
         own = (if nullish t then JUndef else JStr (jv_string t));
         now = (if nullish (ag_traceparent G) then JUndef else JStr (jv_string (ag_traceparent G)))
     in thenDo (transaction_event G (Transaction_start (''ASB Consumer - '' @ source_title src) ''messaging''
                  (JObj [(''childOf'', if truthy own then own else now)])))
         (thenDo (transaction_event G (Transaction_label ''asb_consumer_queue'' (JStr (source_queue src))))
           (transaction_event G (Transaction_label ''asb_consumer_message_subject'' (jv_get (JObj m) ''subject'')))))"

definition asb_process_message ::
  "apm_agent \<Rightarrow> asb_source \<Rightarrow> (asb_message \<Rightarrow> ('w, unit) act) \<Rightarrow> asb_message \<Rightarrow> ('w, unit) act" where
  "asb_process_message G src processor m =
    (let get = jv_get (JObj m)
     in thenDo (setup_transaction G src m)
         (thenDo (log_to TxnLogger LLog (''[ASBConsumerService] [ConsumerRun - '' @ source_queue src @ ''] -----  '' @
              json_text (JObj [(''queue'', JStr (source_queue src)), (''messageId'', get ''messageId''),
                (''subject'', get ''subject''), (''contentType'', get ''contentType''),
                (''corelationId'', get ''correlationId''), (''partitionKey'', get ''partitionKey''),
                (''applicationProperties'', get ''applicationProperties''), (''message'', get ''body'')])) [])
           (tryFinally
             (tryCatch (processor m)
               (\<lambda>e. thenDo (log_to TxnLogger LError ''[ASBConsumerService] Error while processing message'' []) (raise e)))
             (transaction_event G Transaction_end))))"

text \<open>What \<open>processError\<close> is told, and the error it makes of it: an exception, whose property \<open>error\<close> is the cause.\<close>

record asb_error_args =
  ea_error :: exn
  ea_source :: string
  ea_path :: string
  ea_namespace :: string

record asb_processor_error =
  pe_exn :: exn
  pe_error :: exn

definition ASBConsumerProcessorError ::
  "string \<Rightarrow> string \<Rightarrow> string \<Rightarrow> string \<Rightarrow> string \<Rightarrow> exn \<Rightarrow> asb_processor_error" where
  "ASBConsumerProcessorError m queueName errorSource entityPath ns error =
    \<lparr>pe_exn =
       (case ASBConsumerServiceError (with_data m (Some error)) None of
          Exn c n m' d fs \<Rightarrow> Exn C_ASBConsumerProcessorError ''ASBConsumerProcessorError'' m' d
            [(''queueName'', JStr queueName), (''errorSource'', JStr errorSource),
             (''entityPath'', JStr entityPath), (''namespace'', JStr ns)]
        | Thrown v \<Rightarrow> Thrown v),
     pe_error = error\<rparr>"

definition asb_process_error ::
  "apm_agent \<Rightarrow> asb_source \<Rightarrow> (asb_processor_error \<Rightarrow> ('w, unit) act) \<Rightarrow> asb_error_args \<Rightarrow> ('w, unit) act" where
  "asb_process_error G src errorProcessor a =
    (let err = ASBConsumerProcessorError
           (''Error while processing Queue('' @ source_title src @ ''),errorSource('' @ ea_source a @ ''), entityPath('' @
            ea_path a @ ''), namespace('' @ ea_namespace a @ ''): '' @ exn_text (ea_error a) @ ''}'')
           (source_title src) (ea_source a) (ea_path a) (ea_namespace a) (ea_error a)
     in thenDo (capture_error (ag_conf G) (pe_exn err))
         (thenDo (log_to TxnLogger LError (exn_text (pe_exn err)) []) (errorProcessor err)))"

text \<open>
  \<open>defaultErrorProcessor\<close> reads \<open>this\<close>, and \<open>subscribe\<close> takes it as the default of a parameter without binding it: called by
  \<open>processError\<close> as a plain function, it has no \<open>this\<close>.
\<close>

definition default_error_processor :: "(exn \<Rightarrow> jv) \<Rightarrow> bool \<Rightarrow> asb_processor_error \<Rightarrow> ('w, unit) act" where
  "default_error_processor lib bound err =
    (if bound then log_to TxnLogger LError
       (''[ASBConsumerErrorProcessor] Error Occurred in ASB Consumer '' @ json_text (lib (pe_exn err))) []
     else raise (new_TypeError ''Cannot read properties of undefined (reading '_transactionLogger')''))"

definition unbound_error_processor :: "(exn \<Rightarrow> jv) \<Rightarrow> asb_processor_error \<Rightarrow> ('w, unit) act" where
  "unbound_error_processor lib = default_error_processor lib False"

text \<open>\<open>subscribe\<close>: the receiver is created and started with the two handlers, and remembered.\<close>

definition asb_subscribe ::
  "('w, 'k, 'r) service_bus \<Rightarrow> 'r list \<Rightarrow> asb_source \<Rightarrow> jv \<Rightarrow> ('w, 'r list) act" where
  "asb_subscribe B consumers src subscriptionConfig =
    andThen (external (az_receiver B (source_args src))) (\<lambda>r.
      thenDo (external (az_subscribe B r subscriptionConfig))
        (thenDo (log_to TxnLogger LLog (''[ASBConsumerService] Subscribed To ASB QUEUE: '' @ source_queue src) [])
          (returning (consumers @ [r]))))"

definition asb_consumers_disconnect ::
  "('w, 'k, 'r) service_bus \<Rightarrow> apm_agent \<Rightarrow> 'r list \<Rightarrow> ('w, unit) act" where
  "asb_consumers_disconnect B G consumers =
    tryCatch
      (thenDo (external (all_calls (az_close_receiver B) consumers))
        (log_to AppLogger LLog ''[ASBConsumer] ASB Consumers Disconnected!!'' []))
      (\<lambda>e. let err = ASBConsumerServiceError ''Error disconnecting from ASB Consumers'' (Some e)
           in thenDo (report AppLogger (ag_conf G) err) (raise err))"

definition asb_disconnect :: "('w, 'k, 'r) service_bus \<Rightarrow> apm_agent \<Rightarrow> 'r list \<Rightarrow> ('w, unit) act" where
  "asb_disconnect B G consumers =
    thenDo (asb_consumers_disconnect B G consumers)
      (log_to AppLogger LLog ''[ASBService] ASB Service Disconnected!!'' [])"

text \<open>\<open>new ASBService(config)\<close>: the client's arguments.\<close>

datatype asb_config = Connection_string string | Namespace string jv | Invalid_config

definition asb_service :: "apm_conf \<Rightarrow> asb_config \<Rightarrow> ('w, jv list) act" where
  "asb_service A cfg =
    (case cfg of
       Connection_string c \<Rightarrow>
         thenDo (log_to AppLogger LLog ''ASBService Successfully initialized'' []) (returning [JStr c])
     | Namespace n cred \<Rightarrow>
         thenDo (log_to AppLogger LLog ''ASBService Successfully initialized'' []) (returning [JStr n, cred])
     | Invalid_config \<Rightarrow>
         (let err = ASBServiceError ''Invalid ASB Service Config'' None
          in thenDo (report AppLogger A err) (raise err)))"

end
