(* ===== verification/Startup.thy ===== *)
theory Startup
  imports EndToEnd ErrorResponse ServiceBus
begin

text \<open>
  Starting and running the two processes: \<open>main.ts\<close>, the life-cycle services of \<open>apps/api\<close> and \<open>apps/consumer\<close>, and the
  factories of the \<open>packages/nestjs-*\<close> providers. Creating a Nest application and listening are calls of the framework,
  parameters here.
\<close>

subsection \<open>The liveness file of the consumer\<close>

definition write_liveness_file :: "(exn \<Rightarrow> jv) \<Rightarrow> string \<Rightarrow> string \<Rightarrow> ('w, unit) act" where
  "write_liveness_file lib filepath timestamp =
    tryCatch
      (thenDo (on_files (fs_mkdir (path_dirname filepath)))
        (on_files (fs_write_stream filepath (map of_char timestamp) None)))
      (\<lambda>e. log_to TxnLogger LError (''Failed to write liveness file: '' @ exn_string e) [lib e])"

definition check_liveness ::
  "(exn \<Rightarrow> jv) \<Rightarrow> ('w, string) act \<Rightarrow> string \<Rightarrow> string \<Rightarrow> ('w, unit) act" where
  "check_liveness lib connectionStatus filepath timestamp =
    andThen connectionStatus (\<lambda>db_status.
      if db_status \<noteq> ''success'' then log_to TxnLogger LError ''Database connection failed'' []
      else write_liveness_file lib filepath timestamp)"

subsection \<open>Starting the API\<close>

definition api_bootstrap ::
  "('w, 'b, 'c) kafka_service \<Rightarrow> messaging_config \<Rightarrow> exn + string list \<Rightarrow> ('w, unit) act" where
  "api_bootstrap K cfg listing = thenDo (register_schemas K cfg listing) (initialize_topics K cfg)"

text \<open>The handler of \<open>SIGUSR1\<close> in both processes; the health check listens to the event.\<close>

definition on_sigusr1 :: "health_check \<Rightarrow> ('w, health_check) act" where
  "on_sigusr1 H =
    thenDo (log_to AppLogger LLog ''SIGUSR1 signal received.'' []) (returning (on_shutdown_event H))"

definition on_application_shutdown :: "string option \<Rightarrow> ('w, unit) act" where
  "on_application_shutdown signal =
    log_to AppLogger LLog (''App Shutdown Signal Received: '' @
      (case signal of None \<Rightarrow> ''undefined'' | Some t \<Rightarrow> t)) []"

subsection \<open>The providers\<close>

text \<open>\<open>queueServiceFactory\<close>: only the Kafka service has a method \<open>connect\<close>; both have \<open>disconnect\<close>.\<close>

definition queue_service_factory :: "apm_conf \<Rightarrow> string \<Rightarrow> ('w, 'b, 'c) kafka_service \<Rightarrow> ('w, queue_kind) act" where
  "queue_service_factory A type K =
    andThen (queue_service A type) (\<lambda>kind.
      thenDo (case kind of Kafka_queue \<Rightarrow> service_connect K | Service_bus_queue \<Rightarrow> returning ()) (returning kind))"

text \<open>The shutdown hook it adds to the service.\<close>

definition queue_service_shutdown ::
  "('w, 'b, 'c) kafka_service \<Rightarrow> 'c list \<Rightarrow> ('w, 'k, 'r) service_bus \<Rightarrow> apm_agent \<Rightarrow> 'r list \<Rightarrow> queue_kind \<Rightarrow>
   ('w, unit) act" where
  "queue_service_shutdown K consumers B G receivers kind =
    (case kind of
       Kafka_queue \<Rightarrow> service_disconnect K consumers
     | Service_bus_queue \<Rightarrow> asb_disconnect B G receivers)"

text \<open>\<open>dbServiceFactory\<close>, with the instance's \<open>connect\<close> by its kind.\<close>

definition db_service_factory ::
  "apm_conf \<Rightarrow> string \<Rightarrow> bool \<Rightarrow> bool \<Rightarrow> bool \<Rightarrow> (db_kind \<Rightarrow> ('w, 'i) act) \<Rightarrow> ('w, 'i) act" where
  "db_service_factory A type schemas models clientOptions connect =
    andThen (db_service A type schemas models clientOptions) connect"

text \<open>\<open>cachingServiceFactory\<close>: the Redis service has no \<open>connect\<close>; its \<open>disconnect\<close> runs on shutdown.\<close>

definition caching_service_factory :: "apm_conf \<Rightarrow> string \<Rightarrow> redis_config \<Rightarrow> ('w, jv list) act" where
  "caching_service_factory A type config = caching_service A type config"

definition caching_service_shutdown :: "'w ioredis \<Rightarrow> apm_conf \<Rightarrow> ('w, unit) act" where
  "caching_service_shutdown R A = redis_disconnect R A"

subsection \<open>The entry point\<close>

text \<open>
  \<open>bootstrap()\<close>: the framework's calls are \<open>create\<close>, \<open>listen\<close> and \<open>create_context\<close>. Creating an application also runs the
  factories of its \<open>providers\<close>; the hook that runs when it is initialised is \<open>on_bootstrap\<close>, and both processes get what they need from
  the providers. The result says whether shutdown hooks are enabled: in the consumer's branch the variable \<open>app\<close> that is
  tested in the end is not the one that was assigned.
\<close>

definition API_APP :: string where
  "API_APP = ''api-app''"

definition CONSUMER_APP :: string where
  "CONSUMER_APP = ''consumer-app''"

record 'w framework =
  fw_create :: "('w, unit) call"
  fw_listen :: "('w, unit) call"
  fw_context :: "('w, unit) call"

definition start_app ::
  "'w framework \<Rightarrow> string \<Rightarrow> ('w, 'p) act \<Rightarrow> ('p \<Rightarrow> ('w, unit) act) \<Rightarrow> ('p \<Rightarrow> ('w, exn + 'c list) act) \<Rightarrow> string \<Rightarrow>
   ('w, bool) act" where
  "start_app F port providers on_bootstrap subscription appName =
    thenDo (log_to ApmLogger LLog (''Initializing startApp '' @ appName) [])
      (if appName = API_APP then
         thenDo (external (fw_create F))
           (andThen providers (\<lambda>p.
             thenDo (on_bootstrap p)
               (thenDo (external (fw_listen F))
                 (thenDo (log_to ApmLogger LLog (''App Started on Port: '' @ port) []) (returning True)))))
       else if appName = CONSUMER_APP then
         thenDo (external (fw_context F))
           (andThen providers (\<lambda>p. thenDo (subscription p) (returning False)))
       else let errorMessage = ''Invalid app name '' @ appName
            in thenDo (log_to ApmLogger LError errorMessage []) (raise (new_Error errorMessage)))"

subsection \<open>The liveness file follows the database\<close>

lemma mkdir_free:
  assumes "\<forall>x \<in> set ks. plain_seg x" and "\<forall>q. prefix q ks \<longrightarrow> file_at f q = None"
  shows "fs_mkdir (key_path ks) f = (Inr (), f\<lparr>is_dir := (\<lambda>q. is_dir f q \<or> prefix q ks)\<rparr>)"
proof -
  have "\<not> list_ex (\<lambda>q. file_at f q \<noteq> None) (prefixes ks)"
    using assms(2) in_set_prefixes by (auto simp: list_ex_iff)
  then show ?thesis using assms by (simp add: fs_mkdir_def path_key_key_path)
qed

lemma write_liveness_free:
  assumes "\<forall>x \<in> set (ks @ [w]). plain_seg x" and "\<forall>q. prefix q ks \<longrightarrow> file_at (files s) q = None"
    and "\<not> is_dir (files s) (ks @ [w])"
  shows "\<exists>s'. write_liveness_file lib (key_path (ks @ [w])) ts s = (Inr (), s') \<and> log_lines s' = log_lines s \<and>
    file_at (files s') = (file_at (files s))(ks @ [w] \<mapsto> map of_char ts)"
proof -
  let ?f = "(files s)\<lparr>is_dir := (\<lambda>q. is_dir (files s) q \<or> prefix q ks)\<rparr>"
  have "path_dirname (key_path (ks @ [w])) = key_path ks" by (rule path_dirname_key_path [OF assms(1)])
  moreover have "fs_mkdir (key_path ks) (files s) = (Inr (), ?f)" using mkdir_free [of ks] assms(1,2) by simp
  moreover have "path_key (key_path (ks @ [w])) = ks @ [w]" by (rule path_key_key_path [OF assms(1)])
  ultimately show ?thesis
    using assms(3)
    by (auto simp: write_liveness_file_def tryCatch_def thenDo_def andThen_def on_files_def fs_write_stream_def)
qed

text \<open>
  C36: The liveness check never throws while there is a connection object to ask. With the database down it leaves all
  files alone, so the last time stamp grows old; with the database up, and no file or directory in the way, the file holds the new
  time stamp, its directories having been made, and no other file has changed.
\<close>

theorem liveness_file_follows_database:
  assumes "ms_connection S = Some c"
    and "\<forall>x \<in> set (ks @ [w]). plain_seg x" and "\<forall>q. prefix q ks \<longrightarrow> file_at (files s) q = None"
    and "\<not> is_dir (files s) (ks @ [w])"
  shows "\<exists>s'. check_liveness lib (connection_status M S) (key_path (ks @ [w])) ts s = (Inr (), s') \<and>
    file_at (files s') = (if mo_ready M c (world s) = 1 then (file_at (files s))(ks @ [w] \<mapsto> map of_char ts)
                          else file_at (files s))"
proof -
  have "connection_status M S s = (Inr (if mo_ready M c (world s) = 1 then ''success'' else ''failure''), s)"
    using assms(1) by (simp add: connection_status_def mongo_is_connected_def andThen_def returning_eq)
  then show ?thesis
    using write_liveness_free [OF assms(2-4)] by (auto simp: check_liveness_def andThen_def log_to_def)
qed

text \<open>A consumer is never told to shut down: its hooks are not enabled.\<close>

lemma consumer_has_no_shutdown_hooks:
  "start_app F port providers on_bootstrap subscription CONSUMER_APP s = (Inr hooks, s') \<Longrightarrow> \<not> hooks"
  by (auto simp: start_app_def API_APP_def CONSUMER_APP_def thenDo_result andThen_result returning_eq)

subsection \<open>The statements in a concrete world\<close>

theorem liveness_file_follows_database_witness:
  "\<exists>s'. check_liveness (\<lambda>e. JObj []) (connection_status sample_mongoose (fresh_mongo\<lparr>ms_connection := Some 7\<rparr>))
      (key_path [''tmp'', ''alive'', ''now'']) ''2024'' db_run = (Inr (), s') \<and>
    file_at (files s') [''tmp'', ''alive'', ''now''] = Some (map of_char ''2024'')"
proof -
  let ?S = "fresh_mongo\<lparr>ms_connection := Some 7\<rparr>"
  have c: "ms_connection ?S = Some 7" by simp
  have plain: "\<forall>x \<in> set ([''tmp'', ''alive''] @ [''now'']). plain_seg x" by code_simp
  have free: "\<forall>q. prefix q [''tmp'', ''alive''] \<longrightarrow> file_at (files db_run) q = None"
    "\<not> is_dir (files db_run) ([''tmp'', ''alive''] @ [''now''])"
    by (simp_all add: db_run_def)
  from liveness_file_follows_database [OF c plain free, of "\<lambda>e. JObj []" sample_mongoose "''2024''"]
  show ?thesis by (auto simp: sample_mongoose_def)
qed

end
