(* ===== verification/KafkaSetup.thy ===== *)
theory KafkaSetup
  imports EndToEnd
begin

text \<open>
  How \<open>kafka-service.ts\<close> builds its parts from a configuration, and the configuration that the application gives it
  (\<open>util/queue/kafka.config.ts\<close>). That one has no \<open>redisServiceConfig\<close>, so its consumer has no cache: offsets are neither
  stored nor looked up. The constructors of kafkajs, the registry and ioredis are parameters.
\<close>

subsection \<open>The libraries' constructors\<close>

record ('w, 'b) producer_client =
  pl_connect :: "('w, unit) call"
  pl_disconnect :: "('w, unit) call"
  pl_send :: "string \<Rightarrow> 'b out_message \<Rightarrow> ('w, jv) call"

text \<open>A registry as its users see it: schemas for the service, encoding for the producer, decoding for the consumer.\<close>

record ('w, 'b) registry_client =
  rg_schemas :: "'w schema_registry"
  rg_encoder :: "('w, 'b) registry_encoder"
  rg_decode :: "'b \<Rightarrow> ('w, jv \<times> (exn + jv)) call"

text \<open>\<open>new Kafka(cfg)\<close> with its \<open>admin\<close> and \<open>producer\<close>, \<open>new SchemaRegistry(args, options)\<close>, and \<open>new Redis(...args)\<close>.\<close>

record ('w, 'b, 'c) kafka_libraries =
  kb_kafka :: "jv \<Rightarrow> ('w, 'c) kafka_client"
  kb_admin :: "jv \<Rightarrow> jv \<Rightarrow> 'w kafka_admin"
  kb_producer :: "jv \<Rightarrow> (string \<times> jv) list \<Rightarrow> ('w, 'b) producer_client"
  kb_registry :: "jv \<Rightarrow> jv \<Rightarrow> ('w, 'b) registry_client"
  kb_redis :: "jv list \<Rightarrow> 'w ioredis"
  kb_text :: "'b \<Rightarrow> string"
  kb_json :: json_reader
  kb_error_json :: "exn \<Rightarrow> jv"
  kb_partitioner :: jv

subsection \<open>The constructors of the package\<close>

text \<open>The loggers of the configuration are the sinks of the model; \<open>kg_apm\<close> says whether there is an agent.\<close>

record kafka_service_config =
  kg_kafkaConfig :: jv
  kg_adminConfig :: "jv option"
  kg_producerConfig :: "(string \<times> jv) list option"
  kg_schemaRegistryConfig :: "(jv \<times> jv) option"
  kg_apm :: apm_conf
  kg_redisServiceConfig :: "(redis_config \<times> apm_conf) option"

text \<open>\<open>{ createPartitioner: Partitioners.DefaultPartitioner, ...config }\<close>\<close>

definition new_kafka_producer ::
  "('w, 'b, 'c) kafka_libraries \<Rightarrow> jv \<Rightarrow> ('w, 'b) registry_client option \<Rightarrow> (string \<times> jv) list option \<Rightarrow>
   ('w, 'b) kafka_producer" where
  "new_kafka_producer L kafkaConfig registry config =
    (let p = kb_producer L kafkaConfig
       (fold (\<lambda>(k, v) o'. js_put k v o') (case config of None \<Rightarrow> [] | Some c \<Rightarrow> c) [(''createPartitioner'', kb_partitioner L)])
     in \<lparr>kp_connect = pl_connect p, kp_disconnect = pl_disconnect p, kp_send = pl_send p,
         kp_registry = map_option rg_encoder registry\<rparr>)"

definition new_kafka_consumer ::
  "('w, 'b, 'c) kafka_libraries \<Rightarrow> jv \<Rightarrow> ('w, 'b) kafka_producer \<Rightarrow> ('w, 'b) registry_client option \<Rightarrow>
   ('w ioredis \<times> apm_conf) option \<Rightarrow> apm_conf \<Rightarrow> ('w, 'b, 'c) kafka_consumer_service" where
  "new_kafka_consumer L kafkaConfig producer registry cache A =
    \<lparr>kc_client = kb_kafka L kafkaConfig, kc_producer = producer, kc_decoder = map_option rg_decode registry,
     kc_cache = cache, kc_apm = A, kc_text = kb_text L, kc_json = kb_json L, kc_error_json = kb_error_json L\<rparr>"

text \<open>The caching service is the switch of \<open>caching-service.ts\<close>, asked for Redis.\<close>

definition new_kafka_cache ::
  "('w, 'b, 'c) kafka_libraries \<Rightarrow> (redis_config \<times> apm_conf) option \<Rightarrow> ('w, ('w ioredis \<times> apm_conf) option) act" where
  "new_kafka_cache L redisServiceConfig =
    (case redisServiceConfig of
       None \<Rightarrow> returning None
     | Some (config, A) \<Rightarrow>
         andThen (caching_service A ''redis'' config) (\<lambda>args. returning (Some (kb_redis L args, A))))"

definition new_kafka_service ::
  "('w, 'b, 'c) kafka_libraries \<Rightarrow> kafka_service_config \<Rightarrow> ('w, ('w, 'b, 'c) kafka_service) act" where
  "new_kafka_service L config =
    (let registry = map_option (\<lambda>(args, options). kb_registry L args options) (kg_schemaRegistryConfig config);
         producer = new_kafka_producer L (kg_kafkaConfig config) registry (kg_producerConfig config)
     in andThen (new_kafka_cache L (kg_redisServiceConfig config)) (\<lambda>cache.
          returning
            \<lparr>ks_admin = kb_admin L (kg_kafkaConfig config) (case kg_adminConfig config of None \<Rightarrow> JObj [] | Some c \<Rightarrow> c),
             ks_registry = map_option rg_schemas registry,
             ks_consumer = new_kafka_consumer L (kg_kafkaConfig config) producer registry cache (kg_apm config),
             ks_apm = kg_apm config\<rparr>))"

subsection \<open>The configuration of the application\<close>

definition kafka_queue_config :: "string \<Rightarrow> string list \<Rightarrow> string \<Rightarrow> apm_conf \<Rightarrow> kafka_service_config" where
  "kafka_queue_config clientId brokers registryHost A =
    \<lparr>kg_kafkaConfig = JObj [(''clientId'', JStr clientId), (''brokers'', jv_strings brokers)],
     kg_adminConfig = Some (JObj []),
     kg_producerConfig = Some [(''allowAutoTopicCreation'', JBool True)],
     kg_schemaRegistryConfig = Some (JObj [(''host'', JStr registryHost)], JUndef),
     kg_apm = A,
     kg_redisServiceConfig = None\<rparr>"

subsection \<open>What the constructor passes on\<close>

lemma new_kafka_service_cache:
  assumes "new_kafka_service L config s = (Inr K, s')"
  shows "kc_cache (ks_consumer K) = (case kg_redisServiceConfig config of None \<Rightarrow> None
    | Some (rc, A) \<Rightarrow> Some (kb_redis L (redis_client_args rc), A))"
  using assms
  by (auto simp: new_kafka_service_def new_kafka_cache_def new_kafka_consumer_def caching_service_def Let_def
      andThen_def returning_eq split: option.splits)

lemma new_kafka_service_decoder:
  assumes "new_kafka_service L config s = (Inr K, s')"
  shows "kc_decoder (ks_consumer K) =
      map_option (\<lambda>(args, options). rg_decode (kb_registry L args options)) (kg_schemaRegistryConfig config)"
    and "kc_text (ks_consumer K) = kb_text L"
  using assms
  by (auto simp: new_kafka_service_def new_kafka_cache_def new_kafka_consumer_def caching_service_def Let_def
      andThen_def returning_eq option.map_comp comp_def split_def split: option.splits)

lemma new_kafka_service_returns: "\<exists>K. new_kafka_service L config s = (Inr K, s)"
  by (auto simp: new_kafka_service_def new_kafka_cache_def caching_service_def Let_def andThen_def returning_eq
      split: option.split)

text \<open>
  C28: The application's consumer forgets what it has processed. Its configuration names no Redis, so whenever the message of a
  request is delivered -- for the first time or again, with any offset -- the processor runs on it, and nothing is stored
  afterwards that could stop the next delivery.
\<close>

theorem application_reprocesses_redelivered_message:
  assumes "new_kafka_service L (kafka_queue_config clientId brokers host A) s0 = (Inr K, s1)"
    and "decoded_to (ks_consumer K) message True (queue_of s) = (Inr dm, h1)"
    and "dm_value dm = qm_value (processing_message i ps url)" and "dm_value_text dm = Inr body"
  shows "\<exists>t r t' s'. on_processing_message (ks_consumer K) cfg P other part hb message s = (Inr (), s') \<and>
    process P \<lparr>pr_requestId = i, pr_webhookUrl = url, pr_products = ps\<rparr> t = (r, t') \<and>
    db_of t = db_of s \<and> files t = files s \<and> db_of s' = db_of t' \<and> files s' = files t' \<and>
    queue_of s' = (case r of Inr _ \<Rightarrow> queue_of t'
     | Inl e \<Rightarrow> snd (kp_send (kc_producer (ks_consumer K)) (mc_topic cfg @ ''.DLQ'')
         (dlq_out (ks_consumer K) (Some dm) message body (run_error (mc_topic cfg) ''Error running message processor'' e))
         (queue_of t')))"
proof -
  have cache: "kc_cache (ks_consumer K) = None"
    using new_kafka_service_cache [OF assms(1)] by (simp add: kafka_queue_config_def)
  then have "offset_new (ks_consumer K) (mc_topic cfg) (mc_group cfg) part n h" for n h
    by (simp add: offset_new_def)
  from processing_message_new [where P = P and other = other and hb = hb, OF assms(2-4) this]
  obtain t r t' s' where "process P \<lparr>pr_requestId = i, pr_webhookUrl = url, pr_products = ps\<rparr> t = (r, t')"
    "on_processing_message (ks_consumer K) cfg P other part hb message s = (Inr (), s')"
    "db_of t = db_of s" "files t = files s" "db_of s' = db_of t'" "files s' = files t'"
    "queue_of s' = (case r of Inr _ \<Rightarrow> queue_of t'
     | Inl e \<Rightarrow> snd (kp_send (kc_producer (ks_consumer K)) (mc_topic cfg @ ''.DLQ'')
         (dlq_out (ks_consumer K) (Some dm) message body (run_error (mc_topic cfg) ''Error running message processor'' e))
         (queue_of t')))"
    unfolding cache option.case by blast
  then show ?thesis by blast
qed

subsection \<open>The statement in a concrete world\<close>

text \<open>Libraries whose consumer, with a cache or without, is the one of the samples.\<close>

definition app_libraries :: "(sample_world, string, nat) kafka_libraries" where
  "app_libraries =
    \<lparr>kb_kafka = (\<lambda>cfg. kc_client (sample_service True)),
     kb_admin = (\<lambda>cfg a. \<lparr>ad_connect = (\<lambda>w. (Inr (), w)), ad_disconnect = (\<lambda>w. (Inr (), w)),
       ad_listTopics = (\<lambda>w. (Inr [], w)), ad_createTopics = (\<lambda>t w. (Inr True, w)), ad_deleteTopics = (\<lambda>t w. (Inr (), w))\<rparr>),
     kb_producer = (\<lambda>cfg p. \<lparr>pl_connect = kp_connect sample_producer, pl_disconnect = kp_disconnect sample_producer,
       pl_send = kp_send sample_producer\<rparr>),
     kb_registry = (\<lambda>args opts. \<lparr>rg_schemas = \<lparr>sr_register = (\<lambda>v os w. (Inr 1, w)), sr_readAVSC = (\<lambda>p w. (Inr JUndef, w))\<rparr>,
       rg_encoder = \<lparr>re_latest = (\<lambda>t w. (Inr 1, w)), re_encode = (\<lambda>i v w. (Inr (json_text v), w))\<rparr>,
       rg_decode = (\<lambda>b w. (Inr (app_value, value_text app_value), w))\<rparr>),
     kb_redis = (\<lambda>args. sample_redis True), kb_text = (\<lambda>t. t), kb_json = sample_json, kb_error_json = (\<lambda>e. JObj []),
     kb_partitioner = JUndef\<rparr>"

lemma app_setup_decodes:
  assumes "new_kafka_service app_libraries (kafka_queue_config c bs h A) s0 = (Inr K, s1)"
  shows "decoded_to (ks_consumer K) (sample_message ''k'' ''v'' 9) True w = (Inr app_decoded, w)"
  using new_kafka_service_decoder [OF assms]
  by (simp add: kafka_queue_config_def app_libraries_def decoded_to_def sample_message_def app_decoded_def
      parse_message_headers_def Let_def)

text \<open>The same message, offset and all, a second time.\<close>

theorem application_reprocesses_redelivered_message_witness:
  "\<exists>K t r t' s'.
    fst (new_kafka_service app_libraries (kafka_queue_config ''app'' [''k:9092''] ''reg'' quiet_apm) (sample_consumer_run stored_seven)) = Inr K \<and>
    (let deliver = on_processing_message (ks_consumer K) sample_messaging app_processor (\<lambda>v. returning ()) 0 no_heartbeat
       (sample_message ''k'' ''v'' 9); first = snd (deliver app_run)
     in deliver first = (Inr (), s') \<and> db_of t = db_of first \<and>
       process app_processor \<lparr>pr_requestId = ''r1'', pr_webhookUrl = ''hook'', pr_products = products sample_data\<rparr> t = (r, t'))"
proof -
  obtain K where K: "new_kafka_service app_libraries (kafka_queue_config ''app'' [''k:9092''] ''reg'' quiet_apm)
      (sample_consumer_run stored_seven) = (Inr K, sample_consumer_run stored_seven)"
    using new_kafka_service_returns by blast
  have shape: "dm_value app_decoded = qm_value (processing_message ''r1'' (products sample_data) ''hook'')"
    and body: "dm_value_text app_decoded = Inr (JStr ''[object Object]'')"
    by (simp add: app_decoded_def app_value_def) code_simp
  define deliver where "deliver = on_processing_message (ks_consumer K) sample_messaging app_processor (\<lambda>v. returning ()) 0
    no_heartbeat (sample_message ''k'' ''v'' 9)"
  from application_reprocesses_redelivered_message [where P = app_processor and other = "\<lambda>v. returning ()" and s = "snd (deliver app_run)"
      and hb = no_heartbeat and part = 0 and cfg = sample_messaging, OF K app_setup_decodes [OF K] shape body]
  obtain t r t' s' where "deliver (snd (deliver app_run)) = (Inr (), s')" "db_of t = db_of (snd (deliver app_run))"
    "process app_processor \<lparr>pr_requestId = ''r1'', pr_webhookUrl = ''hook'', pr_products = products sample_data\<rparr> t = (r, t')"
    unfolding deliver_def by blast
  then show ?thesis using K unfolding deliver_def Let_def by (intro exI [of _ K]) auto
qed

end
