(* ===== verification/HttpClient.thy ===== *)
theory HttpClient
  imports Effects
begin

text \<open>
  \<open>app/src/services/http-client-service/services/axios-client/axios-client.service.ts\<close>: the client's interceptors --
  adding, ejecting and clearing them, with the two logging interceptors of the constructor, which stay -- and what
  the logging interceptors do. The axios instance is a parameter.
\<close>

subsection \<open>Interceptors\<close>

datatype 'f request_handler = Request_logging | Custom_request 'f
datatype 'g response_handler = Response_logging bool | Custom_response 'g

text \<open>\<open>interceptors.request.use\<close> and \<open>eject\<close> of the instance, and the same of \<open>interceptors.response\<close>.\<close>

record ('w, 'f, 'g) axios_instance =
  ax_use_request :: "'f request_handler \<Rightarrow> 'w \<Rightarrow> nat \<times> 'w"
  ax_use_response :: "'g response_handler \<Rightarrow> 'w \<Rightarrow> nat \<times> 'w"
  ax_eject_request :: "nat \<Rightarrow> 'w \<Rightarrow> 'w"
  ax_eject_response :: "nat \<Rightarrow> 'w \<Rightarrow> 'w"

record http_client =
  requestInterceptors :: "nat list"
  responseInterceptors :: "nat list"
  requestLoggingInterceptorId :: "nat option"
  responseLoggingInterceptorId :: "nat option"

type_synonym 'w client_state = "http_client \<times> 'w"

definition add_request_interceptor ::
  "('w, 'f, 'g) axios_instance \<Rightarrow> 'f request_handler \<Rightarrow> 'w client_state \<Rightarrow> nat \<times> 'w client_state" where
  "add_request_interceptor X onFulfilled st =
    (case st of (C, w) \<Rightarrow>
       (case ax_use_request X onFulfilled w of (i, w') \<Rightarrow>
          (i, (C\<lparr>requestInterceptors := requestInterceptors C @ [i]\<rparr>, w'))))"

definition add_response_interceptor ::
  "('w, 'f, 'g) axios_instance \<Rightarrow> 'g response_handler \<Rightarrow> 'w client_state \<Rightarrow> nat \<times> 'w client_state" where
  "add_response_interceptor X handlers st =
    (case st of (C, w) \<Rightarrow>
       (case ax_use_response X handlers w of (i, w') \<Rightarrow>
          (i, (C\<lparr>responseInterceptors := responseInterceptors C @ [i]\<rparr>, w'))))"

definition eject_request_interceptor ::
  "('w, 'f, 'g) axios_instance \<Rightarrow> nat \<Rightarrow> 'w client_state \<Rightarrow> 'w client_state" where
  "eject_request_interceptor X i st =
    (case st of (C, w) \<Rightarrow>
       if requestLoggingInterceptorId C = Some i then (C, w)
       else (C\<lparr>requestInterceptors := filter (\<lambda>j. j \<noteq> i) (requestInterceptors C)\<rparr>, ax_eject_request X i w))"

definition eject_response_interceptor ::
  "('w, 'f, 'g) axios_instance \<Rightarrow> nat \<Rightarrow> 'w client_state \<Rightarrow> 'w client_state" where
  "eject_response_interceptor X i st =
    (case st of (C, w) \<Rightarrow>
       if responseLoggingInterceptorId C = Some i then (C, w)
       else (C\<lparr>responseInterceptors := filter (\<lambda>j. j \<noteq> i) (responseInterceptors C)\<rparr>, ax_eject_response X i w))"

text \<open>\<open>forEach\<close> runs over the array the property held at the call; ejecting assigns a new one.\<close>

definition clear_request_interceptors :: "('w, 'f, 'g) axios_instance \<Rightarrow> 'w client_state \<Rightarrow> 'w client_state" where
  "clear_request_interceptors X st = fold (eject_request_interceptor X) (requestInterceptors (fst st)) st"

definition clear_response_interceptors :: "('w, 'f, 'g) axios_instance \<Rightarrow> 'w client_state \<Rightarrow> 'w client_state" where
  "clear_response_interceptors X st = fold (eject_response_interceptor X) (responseInterceptors (fst st)) st"

definition add_request_logging_interceptor ::
  "('w, 'f, 'g) axios_instance \<Rightarrow> 'w client_state \<Rightarrow> nat \<times> 'w client_state" where
  "add_request_logging_interceptor X = add_request_interceptor X Request_logging"

definition add_response_logging_interceptor ::
  "('w, 'f, 'g) axios_instance \<Rightarrow> bool \<Rightarrow> 'w client_state \<Rightarrow> nat \<times> 'w client_state" where
  "add_response_logging_interceptor X successResponseLogging =
    add_response_interceptor X (Response_logging successResponseLogging)"

text \<open>The constructor, on the state of the fresh instance.\<close>

definition new_http_client :: "('w, 'f, 'g) axios_instance \<Rightarrow> bool \<Rightarrow> 'w \<Rightarrow> 'w client_state" where
  "new_http_client X successResponseLogging w =
    (let C0 = \<lparr>requestInterceptors = [], responseInterceptors = [],
               requestLoggingInterceptorId = None, responseLoggingInterceptorId = None\<rparr>
     in case add_request_logging_interceptor X (C0, w) of (i, (C1, w1)) \<Rightarrow>
        (case add_response_logging_interceptor X successResponseLogging
                (C1\<lparr>requestLoggingInterceptorId := Some i\<rparr>, w1) of
           (j, (C2, w2)) \<Rightarrow> (C2\<lparr>responseLoggingInterceptorId := Some j\<rparr>, w2)))"

subsection \<open>The logging interceptors\<close>

text \<open>\<open>toUpperCase\<close>, as far as the result is in the range of the type \<open>char\<close>.\<close>

definition upper_char :: "char \<Rightarrow> string" where
  "upper_char c =
    (let n = (of_char c :: nat)
     in if (97 \<le> n \<and> n \<le> 122) \<or> (224 \<le> n \<and> n \<le> 254 \<and> n \<noteq> 247) then [char_of (n - 32)]
        else if n = 223 then ''SS'' else [c])"

definition upper :: "string \<Rightarrow> string" where
  "upper s = concat (map upper_char s)"

text \<open>\<open>[${config.method?.toUpperCase()}] ${config.baseURL ?? ''}${config.url ?? ''}\<close>\<close>

definition request_title :: "jv \<Rightarrow> string" where
  "request_title cfg =
    ''(['' @ (case jv_get cfg ''method'' of JStr m \<Rightarrow> upper m | _ \<Rightarrow> ''undefined'') @ ''] '' @
    jv_string (coalesce [jv_get cfg ''baseURL''] (JStr [])) @ jv_string (coalesce [jv_get cfg ''url''] (JStr [])) @ '')''"

definition log_request :: "jv \<Rightarrow> ('w, jv) act" where
  "log_request cfg =
    thenDo (log_to TxnLogger LLog (''Sending AXIOS Request'' @ request_title cfg)
        [JObj [(''method'', jv_get cfg ''method''), (''baseURL'', jv_get cfg ''baseURL''),
               (''url'', jv_get cfg ''url''), (''params'', jv_get cfg ''params'')]])
      (returning cfg)"

definition log_response :: "bool \<Rightarrow> jv \<Rightarrow> ('w, jv) act" where
  "log_response successResponseLogging res =
    thenDo (log_to TxnLogger LLog (''Received AXIOS Response'' @ request_title (jv_get res ''config'') @ '': '' @
          json_text (JObj [(''status'', jv_get res ''status'')]))
        [JObj [(''status'', jv_get res ''status''),
               (''data'', if successResponseLogging then jv_get res ''data'' else JUndef)]])
      (returning res)"

text \<open>
  The handler of a rejected response. Reading \<open>responseType\<close> of a missing \<open>config\<close> throws; \<open>lib\<close> is what the logger
  is handed of the error object.
\<close>

definition log_response_error :: "(exn \<Rightarrow> jv) \<Rightarrow> exn \<Rightarrow> ('w, jv) act" where
  "log_response_error lib e =
    (let cfg = exn_get e ''config''; body = jv_get (exn_get e ''response'') ''data''
     in if nullish cfg then raise (new_TypeError
            (''Cannot read properties of '' @ jv_string cfg @ '' (reading 'responseType')''))
        else thenDo
          (if jv_get cfg ''responseType'' \<noteq> JStr ''stream''
           then log_to TxnLogger LError (''Received Axios Error'' @ request_title cfg @ '': '' @
                  json_text (if truthy body then body else JObj [])) [lib e]
           else log_to TxnLogger LError (''Received Axios Error'' @ request_title cfg) [lib e])
          (raise e))"

subsection \<open>The interceptors over the life of a client\<close>

text \<open>
  What is documented of axios's interceptor manager, \<open>active\<close> being its handlers by id: a new handler gets an id that
  no handler has, and ejecting removes the handler of its id.
\<close>

definition manager_laws ::
  "('h \<Rightarrow> 'w \<Rightarrow> nat \<times> 'w) \<Rightarrow> (nat \<Rightarrow> 'w \<Rightarrow> 'w) \<Rightarrow> ('w \<Rightarrow> nat \<Rightarrow> 'h option) \<Rightarrow> bool" where
  "manager_laws use eject active \<longleftrightarrow>
    (\<forall>h w i w'. use h w = (i, w') \<longrightarrow> active w i = None \<and> active w' = (active w)(i \<mapsto> h)) \<and>
    (\<forall>i w. active (eject i w) = (active w)(i := None))"

text \<open>The request and the response manager do not touch each other's handlers.\<close>

definition axios_laws ::
  "('w, 'f, 'g) axios_instance \<Rightarrow> ('w \<Rightarrow> nat \<Rightarrow> 'f request_handler option) \<Rightarrow>
   ('w \<Rightarrow> nat \<Rightarrow> 'g response_handler option) \<Rightarrow> bool" where
  "axios_laws X reqs resps \<longleftrightarrow>
    manager_laws (ax_use_request X) (ax_eject_request X) reqs \<and>
    manager_laws (ax_use_response X) (ax_eject_response X) resps \<and>
    (\<forall>h w. resps (snd (ax_use_request X h w)) = resps w) \<and> (\<forall>i w. resps (ax_eject_request X i w) = resps w) \<and>
    (\<forall>h w. reqs (snd (ax_use_response X h w)) = reqs w) \<and> (\<forall>i w. reqs (ax_eject_response X i w) = reqs w)"

text \<open>The operations a user of the client has.\<close>

datatype ('f, 'g) client_op =
    Add_request 'f | Add_response 'g | Eject_request nat | Eject_response nat | Clear_request | Clear_response

fun run_client_op ::
  "('w, 'f, 'g) axios_instance \<Rightarrow> ('f, 'g) client_op \<Rightarrow> 'w client_state \<Rightarrow> 'w client_state" where
  "run_client_op X (Add_request f) st = snd (add_request_interceptor X (Custom_request f) st)"
| "run_client_op X (Add_response g) st = snd (add_response_interceptor X (Custom_response g) st)"
| "run_client_op X (Eject_request i) st = eject_request_interceptor X i st"
| "run_client_op X (Eject_response i) st = eject_response_interceptor X i st"
| "run_client_op X Clear_request st = clear_request_interceptors X st"
| "run_client_op X Clear_response st = clear_response_interceptors X st"

text \<open>The client's invariant: its lists are the ids of the active handlers, the logging handlers among them.\<close>

definition client_inv ::
  "('w \<Rightarrow> nat \<Rightarrow> 'f request_handler option) \<Rightarrow> ('w \<Rightarrow> nat \<Rightarrow> 'g response_handler option) \<Rightarrow> bool \<Rightarrow>
   'w client_state \<Rightarrow> bool" where
  "client_inv reqs resps b st \<longleftrightarrow>
    (case st of (C, w) \<Rightarrow>
      set (requestInterceptors C) = dom (reqs w) \<and> set (responseInterceptors C) = dom (resps w) \<and>
      (\<exists>i. requestLoggingInterceptorId C = Some i \<and> reqs w i = Some Request_logging) \<and>
      (\<exists>j. responseLoggingInterceptorId C = Some j \<and> resps w j = Some (Response_logging b)))"

lemma new_client_inv:
  assumes "axios_laws X reqs resps" and "reqs w = Map.empty" and "resps w = Map.empty"
  shows "client_inv reqs resps b (new_http_client X b w)"
proof -
  obtain i w1 where 1: "ax_use_request X Request_logging w = (i, w1)" by fastforce
  obtain j w2 where 2: "ax_use_response X (Response_logging b) w1 = (j, w2)" by fastforce
  have "reqs w1 = [i \<mapsto> Request_logging]" "resps w1 = Map.empty"
    using assms 1 unfolding axios_laws_def manager_laws_def by (metis snd_conv)+
  moreover from this have "resps w2 = [j \<mapsto> Response_logging b]" "reqs w2 = reqs w1"
    using assms 2 unfolding axios_laws_def manager_laws_def by (metis snd_conv)+
  ultimately show ?thesis
    using 1 2 by (simp add: new_http_client_def add_request_logging_interceptor_def add_request_interceptor_def
        add_response_logging_interceptor_def add_response_interceptor_def client_inv_def)
qed

lemma add_request_inv:
  assumes "axios_laws X reqs resps" and "client_inv reqs resps b st"
  shows "client_inv reqs resps b (snd (add_request_interceptor X h st))"
proof -
  obtain C w where st: "st = (C, w)" by (cases st)
  obtain i w1 where 1: "ax_use_request X h w = (i, w1)" by fastforce
  have "reqs w i = None" "reqs w1 = (reqs w)(i \<mapsto> h)" "resps w1 = resps w"
    using assms(1) 1 unfolding axios_laws_def manager_laws_def by (metis snd_conv)+
  then show ?thesis using assms(2) st 1 by (auto simp: add_request_interceptor_def client_inv_def)
qed

lemma add_response_inv:
  assumes "axios_laws X reqs resps" and "client_inv reqs resps b st"
  shows "client_inv reqs resps b (snd (add_response_interceptor X h st))"
proof -
  obtain C w where st: "st = (C, w)" by (cases st)
  obtain i w1 where 1: "ax_use_response X h w = (i, w1)" by fastforce
  have "resps w i = None" "resps w1 = (resps w)(i \<mapsto> h)" "reqs w1 = reqs w"
    using assms(1) 1 unfolding axios_laws_def manager_laws_def by (metis snd_conv)+
  then show ?thesis using assms(2) st 1 by (auto simp: add_response_interceptor_def client_inv_def)
qed

lemma eject_request_inv:
  assumes "axios_laws X reqs resps" and "client_inv reqs resps b st"
  shows "client_inv reqs resps b (eject_request_interceptor X i st)"
  using assms by (cases st) (auto simp: eject_request_interceptor_def client_inv_def axios_laws_def manager_laws_def)

lemma eject_response_inv:
  assumes "axios_laws X reqs resps" and "client_inv reqs resps b st"
  shows "client_inv reqs resps b (eject_response_interceptor X i st)"
  using assms by (cases st) (auto simp: eject_response_interceptor_def client_inv_def axios_laws_def manager_laws_def)

lemma client_op_inv:
  assumes "axios_laws X reqs resps" and "client_inv reqs resps b st"
  shows "client_inv reqs resps b (run_client_op X x st)"
  using assms
  by (cases x) (auto simp: clear_request_interceptors_def clear_response_interceptors_def add_request_inv
      add_response_inv eject_request_inv eject_response_inv intro!: fold_inv [where I = "client_inv reqs resps b"])

text \<open>
  C38: Over any sequence of additions, ejections (of any ids) and clearings, the client keeps both logging interceptors
  active, and its lists name exactly the handlers that axios would run.
\<close>

theorem logging_interceptors_survive:
  assumes "axios_laws X reqs resps" and "reqs w = Map.empty" and "resps w = Map.empty"
    and "fold (run_client_op X) ops (new_http_client X b w) = (C, w')"
  shows "set (requestInterceptors C) = dom (reqs w') \<and> set (responseInterceptors C) = dom (resps w') \<and>
    (\<exists>i. requestLoggingInterceptorId C = Some i \<and> reqs w' i = Some Request_logging) \<and>
    (\<exists>j. responseLoggingInterceptorId C = Some j \<and> resps w' j = Some (Response_logging b))"
proof -
  have "client_inv reqs resps b (fold (run_client_op X) ops (new_http_client X b w))"
    by (rule fold_inv) (auto intro: client_op_inv [OF assms(1)] new_client_inv [OF assms(1-3)])
  then show ?thesis using assms(4) by (simp add: client_inv_def)
qed

lemma eject_request_drops:
  "requestLoggingInterceptorId (fst (eject_request_interceptor X i st)) = requestLoggingInterceptorId (fst st)"
  "set (requestInterceptors (fst (eject_request_interceptor X i st))) =
    (if requestLoggingInterceptorId (fst st) = Some i then set (requestInterceptors (fst st))
     else set (requestInterceptors (fst st)) - {i})"
  by (cases st, auto simp: eject_request_interceptor_def)+

lemma fold_eject_request:
  "requestLoggingInterceptorId (fst st) = Some k \<Longrightarrow>
    set (requestInterceptors (fst (fold (eject_request_interceptor X) is st))) =
      set (requestInterceptors (fst st)) - (set is - {k})"
  by (induction "is" arbitrary: st) (auto simp: eject_request_drops)

text \<open>
  Clearing the request interceptors removes every handler but the logging one.
\<close>

theorem clear_leaves_logging:
  assumes "axios_laws X reqs resps" and "client_inv reqs resps b st"
    and "clear_request_interceptors X st = (C, w)"
  shows "\<exists>i. requestLoggingInterceptorId C = Some i \<and> set (requestInterceptors C) = {i} \<and>
    reqs w = [i \<mapsto> Request_logging]"
proof -
  have inv: "client_inv reqs resps b (C, w)"
    using client_op_inv [OF assms(1,2), of Clear_request] assms(3) by simp
  obtain C0 w0 k where st: "st = (C0, w0)" and k: "requestLoggingInterceptorId C0 = Some k" "reqs w0 k = Some Request_logging"
    using assms(2) by (cases st) (auto simp: client_inv_def)
  have "k \<in> set (requestInterceptors C0)" using assms(2) st k by (auto simp: client_inv_def)
  then have "set (requestInterceptors C) = {k}"
    using fold_eject_request [of st k X "requestInterceptors C0"] assms(3) st k
    by (auto simp: clear_request_interceptors_def)
  moreover from inv obtain i where i: "requestLoggingInterceptorId C = Some i" "reqs w i = Some Request_logging"
    "set (requestInterceptors C) = dom (reqs w)"
    by (auto simp: client_inv_def)
  ultimately have "dom (reqs w) = {i}" by auto
  then have "reqs w = [i \<mapsto> Request_logging]" using i(2) by (auto simp: fun_eq_iff dom_def)
  then show ?thesis using i \<open>dom (reqs w) = {i}\<close> by simp
qed

text \<open>
  The error interceptor never swallows: it rethrows the error it was given, after one error line; an error
  without a \<open>config\<close> -- one that axios did not make -- is replaced by a \<open>TypeError\<close>, and nothing is logged.
\<close>

theorem error_interceptor_rethrows:
  "if nullish (exn_get e ''config'')
   then \<exists>m. log_response_error lib e s = (Inl (new_TypeError m), s)
   else \<exists>l s'. log_response_error lib e s = (Inl e, s') \<and> world s' = world s \<and> log_lines s' = log_lines s @ [l]"
  by (auto simp: log_response_error_def Let_def raise_eq act_simps)

subsection \<open>The statements in a concrete world\<close>

text \<open>An instance in memory: the handlers of each kind in an array, ejecting one sets its entry to null.\<close>

type_synonym sample_axios = "unit request_handler option list \<times> unit response_handler option list"

definition array_active :: "'h option list \<Rightarrow> nat \<Rightarrow> 'h option" where
  "array_active hs i = (if i < length hs then hs ! i else None)"

definition array_eject :: "nat \<Rightarrow> 'h option list \<Rightarrow> 'h option list" where
  "array_eject i hs = hs[i := None]"

definition sample_instance :: "(sample_axios, unit, unit) axios_instance" where
  "sample_instance =
    \<lparr>ax_use_request = (\<lambda>h (q, r). (length q, (q @ [Some h], r))),
     ax_use_response = (\<lambda>h (q, r). (length r, (q, r @ [Some h]))),
     ax_eject_request = (\<lambda>i (q, r). (array_eject i q, r)),
     ax_eject_response = (\<lambda>i (q, r). (q, array_eject i r))\<rparr>"

lemma array_active_use: "array_active (hs @ [Some h]) = (array_active hs)(length hs \<mapsto> h)"
  by (rule ext) (simp add: array_active_def nth_append)

lemma array_active_eject: "array_active (array_eject i hs) = (array_active hs)(i := None)"
  by (rule ext) (simp add: array_active_def array_eject_def nth_list_update)

lemma sample_axios_laws: "axios_laws sample_instance (\<lambda>w. array_active (fst w)) (\<lambda>w. array_active (snd w))"
  by (auto simp: axios_laws_def manager_laws_def sample_instance_def array_active_use array_active_eject)
    (simp_all add: array_active_def)

lemma sample_axios_fresh: "array_active (fst ([], [])) = Map.empty" "array_active (snd ([], [])) = Map.empty"
  by (simp_all add: array_active_def fun_eq_iff)

theorem logging_interceptors_survive_witness:
  "\<exists>C w'. fold (run_client_op sample_instance) [Add_request (), Eject_request 0, Clear_request, Eject_response 0]
      (new_http_client sample_instance True ([], [])) = (C, w') \<and>
    (\<exists>i. requestLoggingInterceptorId C = Some i \<and> array_active (fst w') i = Some Request_logging)"
proof -
  let ?run = "fold (run_client_op sample_instance) [Add_request (), Eject_request 0, Clear_request, Eject_response 0]
      (new_http_client sample_instance True ([], []))"
  obtain C w' where run: "?run = (C, w')" by (cases ?run)
  from logging_interceptors_survive [OF sample_axios_laws sample_axios_fresh run] run show ?thesis by blast
qed

theorem clear_leaves_logging_witness:
  "\<exists>C w i. clear_request_interceptors sample_instance
      (snd (add_request_interceptor sample_instance (Custom_request ())
        (new_http_client sample_instance True ([], [])))) = (C, w) \<and>
    requestLoggingInterceptorId C = Some i \<and> set (requestInterceptors C) = {i}"
proof -
  let ?st = "snd (add_request_interceptor sample_instance (Custom_request ())
        (new_http_client sample_instance True ([], [])))"
  have inv: "client_inv (\<lambda>w. array_active (fst w)) (\<lambda>w. array_active (snd w)) True ?st"
    by (intro add_request_inv [OF sample_axios_laws] new_client_inv [OF sample_axios_laws] sample_axios_fresh)
  obtain C w where run: "clear_request_interceptors sample_instance ?st = (C, w)"
    by (cases "clear_request_interceptors sample_instance ?st")
  from clear_leaves_logging [OF sample_axios_laws inv run] run show ?thesis by blast
qed

end
