(* ===== verification/Wiring.thy ===== *)
theory Wiring
  imports Startup KafkaSetup HttpClient
begin

text \<open>
  The modules of the application and what they inject: every \<open>*.module.ts\<close> of \<open>app/\<close>, the modules and provider declarations of the
  \<open>packages/nestjs-*\<close>, and the constructor parameters of the classes they provide. A module sees its own providers, what the modules
  that it imports export, and what global modules export. The modules of other packages are a parameter.
\<close>

subsection \<open>Modules and providers\<close>

text \<open>A token of the injector: a string, or a class.\<close>

datatype token = Named string | Class_token string

text \<open>Something the injector creates, and the tokens of the parameters it is created with.\<close>

record provider =
  pv_provide :: token
  pv_needs :: "token list"

datatype nest_module = Nest_module
  (md_name: string) (md_global: bool) (md_imports: "nest_module list")
  (md_controllers: "provider list") (md_providers: "provider list") (md_exports: "token list")

fun all_modules :: "nest_module \<Rightarrow> nest_module list" where
  "all_modules (Nest_module n g ms cs ps es) = Nest_module n g ms cs ps es # concat (map all_modules ms)"

text \<open>What the injector of Nest documents about visibility.\<close>

definition visible :: "nest_module \<Rightarrow> nest_module \<Rightarrow> token list" where
  "visible app m =
    map pv_provide (md_providers m) @ concat (map md_exports (md_imports m)) @
    concat (map md_exports (filter md_global (all_modules app)))"

definition created_by :: "nest_module \<Rightarrow> provider list" where
  "created_by m = md_providers m @ md_controllers m"

definition module_wired :: "nest_module \<Rightarrow> nest_module \<Rightarrow> bool" where
  "module_wired app m \<longleftrightarrow>
    list_all (\<lambda>p. set (pv_needs p) \<subseteq> set (visible app m)) (created_by m) \<and>
    set (md_exports m) \<subseteq> set (map pv_provide (md_providers m))"

definition well_wired :: "nest_module \<Rightarrow> bool" where
  "well_wired app \<longleftrightarrow> list_all (module_wired app) (all_modules app)"

text \<open>What can be created, one after the other: there is no cycle among the needs.\<close>

inductive creatable :: "nest_module \<Rightarrow> token \<Rightarrow> bool" for app where
  create: "m \<in> set (all_modules app) \<Longrightarrow> p \<in> set (md_providers m) \<Longrightarrow>
    (\<And>t. t \<in> set (pv_needs p) \<Longrightarrow> creatable app t) \<Longrightarrow> creatable app (pv_provide p)"

subsection \<open>Tokens\<close>

definition CONFIGURATION_TOKEN :: token where "CONFIGURATION_TOKEN = Named ''CONFIGURATION_SERVICE''"
definition LOGGER_TOKEN :: token where "LOGGER_TOKEN = Named ''LOGGER_SERVICE''"
definition DB_TOKEN :: token where "DB_TOKEN = Named ''DB_SERVICE''"
definition REPOSITORY_TOKEN :: token where "REPOSITORY_TOKEN = Named ''REPOSITORY_SERVICE''"
definition QUEUE_TOKEN :: token where "QUEUE_TOKEN = Named ''QUEUE_SERVICE''"
definition REQUEST_TOKEN :: token where "REQUEST_TOKEN = Named ''REQUESTS_REPOSITORY''"
definition CSV_TOKEN :: token where "CSV_TOKEN = Named ''CSV_ENTITY''"
definition MESSAGING_TOKEN :: token where "MESSAGING_TOKEN = Named ''MESSAGING_ENTITY''"
definition IMAGE_MESSAGING_TOKEN :: token where "IMAGE_MESSAGING_TOKEN = Named ''IMAGE_PROCESSING_MESSAGING_ENTITY''"
definition IMAGE_PROCESSOR_TOKEN :: token where "IMAGE_PROCESSOR_TOKEN = Named ''IMAGE_PROCESSOR_SERVICE''"
definition SCHEDULING_TOKEN :: token where "SCHEDULING_TOKEN = Named ''IMAGE_PROCESSING_SCHEDULING_SERVICE''"
definition STATUS_TOKEN :: token where "STATUS_TOKEN = Named ''IMAGE_PROCESSING_STATUS_SERVICE''"
definition HTTP_CLIENT_TOKEN :: token where "HTTP_CLIENT_TOKEN = Named ''IMAGE_PROCESSING_HTTP_CLIENT''"
definition HEALTH_CHECK_TOKEN :: token where "HEALTH_CHECK_TOKEN = Named ''HEALTH_CHECK_SERVICE''"

text \<open>Classes of other packages that are injected by their type, and the two hooks of Nest.\<close>

definition PINO_LOGGER :: token where "PINO_LOGGER = Class_token ''Logger''"
definition EVENT_EMITTER :: token where "EVENT_EMITTER = Class_token ''EventEmitter2''"
definition TERMINUS_HEALTH :: token where "TERMINUS_HEALTH = Class_token ''HealthCheckService''"
definition APP_INTERCEPTOR :: token where "APP_INTERCEPTOR = Named ''APP_INTERCEPTOR''"
definition APP_FILTER :: token where "APP_FILTER = Named ''APP_FILTER''"

subsection \<open>The packages' modules\<close>

text \<open>The tokens a factory injects: the logger, when the service is to log its transactions with it.\<close>

definition logger_inject :: "bool \<Rightarrow> string option \<Rightarrow> token list" where
  "logger_inject withTransactionLogger loggerToken =
    (if withTransactionLogger
     then [case loggerToken of Some t \<Rightarrow> if t = [] then PINO_LOGGER else Named t | None \<Rightarrow> PINO_LOGGER]
     else [])"

text \<open>\<open>QueueConfig\<close>, and the configurations of the other two, as far as the modules read them.\<close>

record module_config =
  mo_providerName :: string
  mo_global :: "bool option"
  mo_withTransactionLogger :: bool
  mo_loggerToken :: "string option"

definition config_provider :: "module_config \<Rightarrow> provider" where
  "config_provider c =
    \<lparr>pv_provide = Named (mo_providerName c), pv_needs = logger_inject (mo_withTransactionLogger c) (mo_loggerToken c)\<rparr>"

definition queue_module :: "module_config \<Rightarrow> nest_module" where
  "queue_module c = Nest_module ''QueueModule'' (case mo_global c of None \<Rightarrow> True | Some g \<Rightarrow> g) [] []
    [config_provider c] [Named (mo_providerName c)]"

definition caching_module :: "module_config \<Rightarrow> nest_module" where
  "caching_module c = Nest_module ''CachingServiceModule'' (case mo_global c of None \<Rightarrow> True | Some g \<Rightarrow> g) [] []
    [config_provider c] [Named (mo_providerName c)]"

definition db_module :: "module_config list \<Rightarrow> nest_module" where
  "db_module cs = Nest_module ''DBModule'' True [] [] (map config_provider cs) (map (\<lambda>c. Named (mo_providerName c)) cs)"

subsection \<open>The repositories\<close>

text \<open>The file and the class that a repository of \<open>providers.REPOSITORIES\<close> is looked up under.\<close>

definition repository_path :: "string \<Rightarrow> string" where
  "repository_path n = ''repositories/'' @ lower n @ ''/'' @ lower n @ ''.repository''"

definition repository_class :: "string \<Rightarrow> string" where
  "repository_class n =
    concat (map (\<lambda>w. upper (take 1 (lower w)) @ lower (drop 1 w)) (split_on CHR ''-'' n)) @ ''Repository''"

definition REPOSITORIES :: "(string \<times> token) list" where
  "REPOSITORIES = [(''REQUEST'', REQUEST_TOKEN)]"

text \<open>The repository classes of the source, by path and name, with what they inject.\<close>

definition repository_classes :: "((string \<times> string) \<times> token list) list" where
  "repository_classes = [((''repositories/request/request.repository'', ''RequestRepository''), [DB_TOKEN])]"

definition db_config :: module_config where
  "db_config = \<lparr>mo_providerName = ''DB_SERVICE'', mo_global = None, mo_withTransactionLogger = True,
    mo_loggerToken = Some ''LOGGER_SERVICE''\<rparr>"

text \<open>A name without a class would make \<open>useClass\<close> undefined; it is left out here, and its token is then not provided.\<close>

definition repository_providers :: "provider list" where
  "repository_providers = List.map_filter
    (\<lambda>(n, t). map_option (\<lambda>needs. \<lparr>pv_provide = t, pv_needs = needs\<rparr>)
      (map_of repository_classes (repository_path n, repository_class n))) REPOSITORIES"

definition repository_service :: provider where
  "repository_service = \<lparr>pv_provide = REPOSITORY_TOKEN, pv_needs = [DB_TOKEN]\<rparr>"

definition repository_module :: "bool \<Rightarrow> nest_module" where
  "repository_module global = Nest_module ''RepositoryModule'' global [db_module [db_config]] []
    (repository_service # repository_providers)
    (REPOSITORY_TOKEN # map snd REPOSITORIES)"

subsection \<open>The application's modules\<close>

record nest_library =
  nl_pino :: nest_module
  nl_event_emitter :: nest_module
  nl_schedule :: nest_module
  nl_terminus :: nest_module

definition provides :: "token \<Rightarrow> token list \<Rightarrow> provider" where
  "provides t needs = \<lparr>pv_provide = t, pv_needs = needs\<rparr>"

definition logger_module :: "nest_library \<Rightarrow> bool \<Rightarrow> nest_module" where
  "logger_module N global =
    Nest_module ''LoggerModule'' global [nl_pino N] [] [provides LOGGER_TOKEN [PINO_LOGGER]] [LOGGER_TOKEN]"

definition configuration_module :: nest_module where
  "configuration_module =
    Nest_module ''ConfigurationServiceModule'' True [] [] [provides CONFIGURATION_TOKEN []] [CONFIGURATION_TOKEN]"

definition csv_module :: nest_module where
  "csv_module = Nest_module ''CSVEntityModule'' False [] [] [provides CSV_TOKEN []] [CSV_TOKEN]"

definition kafka_module_config :: module_config where
  "kafka_module_config = \<lparr>mo_providerName = ''QUEUE_SERVICE'', mo_global = None, mo_withTransactionLogger = True,
    mo_loggerToken = Some ''LOGGER_SERVICE''\<rparr>"

definition messaging_entity :: provider where
  "messaging_entity = provides MESSAGING_TOKEN [QUEUE_TOKEN]"

definition image_messaging_entity :: provider where
  "image_messaging_entity = provides IMAGE_MESSAGING_TOKEN [QUEUE_TOKEN]"

definition messaging_module :: nest_module where
  "messaging_module = Nest_module ''MessagingEntityModule'' False [queue_module kafka_module_config] []
    [messaging_entity, image_messaging_entity]
    [MESSAGING_TOKEN, IMAGE_MESSAGING_TOKEN]"

definition http_client_module :: "token \<Rightarrow> nest_module" where
  "http_client_module providerName =
    Nest_module ''HttpClientModule'' False [] [] [provides providerName [LOGGER_TOKEN]] [providerName]"

text \<open>Without \<open>forRoot\<close>, the class of the repository module carries no metadata.\<close>

definition bare_repository_module :: nest_module where
  "bare_repository_module = Nest_module ''RepositoryModule'' False [] [] [] []"

definition health_check_controller :: provider where
  "health_check_controller = provides (Class_token ''HealthCheckController'') [HEALTH_CHECK_TOKEN]"

definition health_check_service :: provider where
  "health_check_service = provides HEALTH_CHECK_TOKEN [TERMINUS_HEALTH, REPOSITORY_TOKEN]"

definition health_check_module :: "nest_library \<Rightarrow> nest_module" where
  "health_check_module N = Nest_module ''HealthCheckModule'' False [nl_terminus N, bare_repository_module]
    [health_check_controller] [health_check_service] []"

definition image_processing_controller :: provider where
  "image_processing_controller =
    provides (Class_token ''ImageProcessingController'') [CSV_TOKEN, SCHEDULING_TOKEN, STATUS_TOKEN]"

definition scheduling_service :: provider where
  "scheduling_service = provides SCHEDULING_TOKEN [IMAGE_MESSAGING_TOKEN, REQUEST_TOKEN]"

definition status_service :: provider where
  "status_service = provides STATUS_TOKEN [REQUEST_TOKEN]"

definition image_processor_provider :: provider where
  "image_processor_provider =
    provides IMAGE_PROCESSOR_TOKEN [LOGGER_TOKEN, REQUEST_TOKEN, HTTP_CLIENT_TOKEN, CSV_TOKEN]"

definition image_processing_module :: "string \<Rightarrow> nest_module" where
  "image_processing_module appName = Nest_module ''ImageProcessingModule'' False
    [csv_module, messaging_module, http_client_module HTTP_CLIENT_TOKEN]
    (if appName = API_APP then [image_processing_controller] else [])
    [scheduling_service, status_service, image_processor_provider]
    [IMAGE_PROCESSOR_TOKEN]"

definition response_interceptor :: provider where
  "response_interceptor = provides APP_INTERCEPTOR [PINO_LOGGER]"

definition api_lifecycle_service :: provider where
  "api_lifecycle_service = provides (Class_token ''ApiAppLifecycleService'') [EVENT_EMITTER, MESSAGING_TOKEN]"

definition consumer_lifecycle_service :: provider where
  "consumer_lifecycle_service = provides (Class_token ''ConsumerAppLifecycleService'')
    [LOGGER_TOKEN, EVENT_EMITTER, IMAGE_PROCESSOR_TOKEN, IMAGE_MESSAGING_TOKEN, REPOSITORY_TOKEN]"

definition api_app_module :: "nest_library \<Rightarrow> string \<Rightarrow> nest_module" where
  "api_app_module N appName = Nest_module ''ApiAppModule'' False
    [logger_module N True, configuration_module, nl_event_emitter N, health_check_module N, repository_module True,
     messaging_module, image_processing_module appName]
    []
    [response_interceptor, provides APP_FILTER [], api_lifecycle_service]
    []"

definition consumer_app_module :: "nest_library \<Rightarrow> string \<Rightarrow> nest_module" where
  "consumer_app_module N appName = Nest_module ''ConsumerAppModule'' False
    [logger_module N True, nl_schedule N, configuration_module, nl_event_emitter N, repository_module True,
     messaging_module, image_processing_module appName]
    []
    [consumer_lifecycle_service]
    []"

text \<open>
  What is relied on of the other packages: their modules are wired by themselves and without cycles; pino's logger and the
  event emitter are exported by global modules, the health checks by terminus.
\<close>

definition self_contained :: "nest_module \<Rightarrow> bool" where
  "self_contained L \<longleftrightarrow> well_wired L \<and>
    (\<forall>m \<in> set (all_modules L). \<forall>p \<in> set (created_by m). \<forall>t \<in> set (pv_needs p). creatable L t)"

definition library_laws :: "nest_library \<Rightarrow> bool" where
  "library_laws N \<longleftrightarrow>
    (\<forall>L \<in> {nl_pino N, nl_event_emitter N, nl_schedule N, nl_terminus N}. self_contained L) \<and>
    md_global (nl_pino N) \<and> PINO_LOGGER \<in> set (md_exports (nl_pino N)) \<and>
    md_global (nl_event_emitter N) \<and> EVENT_EMITTER \<in> set (md_exports (nl_event_emitter N)) \<and>
    TERMINUS_HEALTH \<in> set (md_exports (nl_terminus N))"

subsection \<open>Parts of an application\<close>

lemma all_modules_self: "m \<in> set (all_modules m)"
  by (cases m) simp

lemma all_modules_trans: "m \<in> set (all_modules L) \<Longrightarrow> L \<in> set (all_modules app) \<Longrightarrow> m \<in> set (all_modules app)"
  by (induction app rule: all_modules.induct) auto

lemma visible_part:
  assumes "L \<in> set (all_modules app)"
  shows "set (visible L m) \<subseteq> set (visible app m)"
  using all_modules_trans [OF _ assms] by (fastforce simp: visible_def)

lemma creatable_part:
  assumes "L \<in> set (all_modules app)" and "creatable L t"
  shows "creatable app t"
  using assms(2)
proof (induction rule: creatable.induct)
  case (create m p)
  then show ?case using creatable.create [OF all_modules_trans [OF _ assms(1)]] by blast
qed

lemma module_wired_part:
  assumes "L \<in> set (all_modules app)" and "well_wired L" and "m \<in> set (all_modules L)"
  shows "module_wired app m"
proof -
  have "module_wired L m" using assms(2,3) by (simp add: well_wired_def list_all_iff)
  then show ?thesis using visible_part [OF assms(1), of m] unfolding module_wired_def list_all_iff by blast
qed

text \<open>An exported token of a self-contained module can be created.\<close>

lemma exported_creatable:
  assumes "self_contained L" and "t \<in> set (md_exports L)"
  shows "creatable L t"
proof -
  have "module_wired L L" using assms(1) all_modules_self [of L] by (auto simp: self_contained_def well_wired_def list_all_iff)
  then obtain p where p: "p \<in> set (md_providers L)" "t = pv_provide p"
    using assms(2) by (auto simp: module_wired_def)
  have "creatable L u" if "u \<in> set (pv_needs p)" for u
    using assms(1) all_modules_self [of L] p(1) that unfolding self_contained_def created_by_def by auto
  from creatable.create [OF all_modules_self p(1) this] p(2) show ?thesis by simp
qed

lemma import_part: "m \<in> set (md_imports app) \<Longrightarrow> m \<in> set (all_modules app)"
  using all_modules_self [of m] by (cases app) auto

lemma visible_global: "g \<in> set (all_modules app) \<Longrightarrow> md_global g \<Longrightarrow> t \<in> set (md_exports g) \<Longrightarrow> t \<in> set (visible app m)"
  by (auto simp: visible_def)

lemma visible_import: "g \<in> set (md_imports m) \<Longrightarrow> t \<in> set (md_exports g) \<Longrightarrow> t \<in> set (visible app m)"
  by (auto simp: visible_def)

lemma visible_own: "p \<in> set (md_providers m) \<Longrightarrow> pv_provide p = t \<Longrightarrow> t \<in> set (visible app m)"
  by (auto simp: visible_def)

lemma creatable_provider:
  assumes "m \<in> set (all_modules app)" and "p \<in> set (md_providers m)" and "list_all (creatable app) (pv_needs p)"
  shows "creatable app (pv_provide p)"
  using creatable.create [OF assms(1,2)] assms(3) by (simp add: list_all_iff)

subsection \<open>What the two applications share\<close>

definition shared_parts :: "nest_library \<Rightarrow> string \<Rightarrow> nest_module \<Rightarrow> bool" where
  "shared_parts N appName app \<longleftrightarrow>
    {logger_module N True, configuration_module, nl_event_emitter N, repository_module True, messaging_module,
     image_processing_module appName} \<subseteq> set (md_imports app)"

lemma repository_found: "repository_providers = [provides REQUEST_TOKEN [DB_TOKEN]]"
proof -
  have "repository_path ''REQUEST'' = ''repositories/request/request.repository''"
    and "repository_class ''REQUEST'' = ''RequestRepository''" by code_simp+
  then show ?thesis
    by (simp add: repository_providers_def REPOSITORIES_def repository_classes_def provides_def List.map_filter_simps)
qed

lemma config_providers:
  "config_provider db_config = provides DB_TOKEN [LOGGER_TOKEN]"
  "config_provider kafka_module_config = provides QUEUE_TOKEN [LOGGER_TOKEN]"
  by (simp_all add: config_provider_def db_config_def kafka_module_config_def logger_inject_def provides_def
      DB_TOKEN_def QUEUE_TOKEN_def LOGGER_TOKEN_def)

lemma configured_modules:
  "db_module [db_config] = Nest_module ''DBModule'' True [] [] [provides DB_TOKEN [LOGGER_TOKEN]] [DB_TOKEN]"
  "queue_module kafka_module_config =
    Nest_module ''QueueModule'' True [] [] [provides QUEUE_TOKEN [LOGGER_TOKEN]] [QUEUE_TOKEN]"
  by (simp_all add: db_module_def queue_module_def config_providers)
    (simp_all add: db_config_def kafka_module_config_def DB_TOKEN_def QUEUE_TOKEN_def)

lemmas module_defs = logger_module_def configuration_module_def csv_module_def messaging_module_def http_client_module_def
  bare_repository_module_def health_check_module_def image_processing_module_def repository_module_def
  configured_modules repository_found

lemmas class_defs = provides_def scheduling_service_def status_service_def image_processor_provider_def
  image_processing_controller_def health_check_controller_def health_check_service_def response_interceptor_def
  api_lifecycle_service_def consumer_lifecycle_service_def messaging_entity_def image_messaging_entity_def repository_service_def

text \<open>The modules that are imported further down.\<close>

lemma shared_in:
  assumes "shared_parts N appName app"
  shows "{nl_pino N, nl_event_emitter N, logger_module N True, configuration_module, repository_module True,
      db_module [db_config], messaging_module, queue_module kafka_module_config, image_processing_module appName,
      csv_module, http_client_module HTTP_CLIENT_TOKEN} \<subseteq> set (all_modules app)"
proof -
  have direct: "m \<in> set (all_modules app)"
    if "m \<in> {logger_module N True, configuration_module, nl_event_emitter N, repository_module True, messaging_module,
      image_processing_module appName}" for m
    using assms that import_part [of m app] by (auto simp: shared_parts_def)
  have below: "m \<in> set (all_modules app)" if "m \<in> set (md_imports k)"
    "k \<in> {logger_module N True, repository_module True, messaging_module, image_processing_module appName}" for m k
    using all_modules_trans [OF import_part [OF that(1)] direct] that(2) by blast
  show ?thesis
    using direct below [of "nl_pino N" "logger_module N True"] below [of "db_module [db_config]" "repository_module True"]
      below [of "queue_module kafka_module_config" messaging_module]
      below [of csv_module "image_processing_module appName"]
      below [of "http_client_module HTTP_CLIENT_TOKEN" "image_processing_module appName"]
    by (simp add: logger_module_def repository_module_def messaging_module_def image_processing_module_def)
qed

text \<open>Every token that the shared modules provide can be created, in this order.\<close>

lemma shared_creatable:
  assumes "library_laws N" and "shared_parts N appName app"
  shows "list_all (creatable app)
    [PINO_LOGGER, EVENT_EMITTER, LOGGER_TOKEN, CONFIGURATION_TOKEN, DB_TOKEN, QUEUE_TOKEN, REPOSITORY_TOKEN, REQUEST_TOKEN,
     CSV_TOKEN, HTTP_CLIENT_TOKEN, MESSAGING_TOKEN, IMAGE_MESSAGING_TOKEN, SCHEDULING_TOKEN, STATUS_TOKEN, IMAGE_PROCESSOR_TOKEN]"
proof -
  note parts = shared_in [OF assms(2), unfolded insert_subset]
  note make = creatable_provider [of _ app "provides t needs" for t needs, simplified provides_def provider.simps, folded provides_def]
  have pino: "creatable app PINO_LOGGER" and ee: "creatable app EVENT_EMITTER"
    using creatable_part [OF _ exported_creatable] parts assms(1) unfolding library_laws_def by blast+
  have logger: "creatable app LOGGER_TOKEN"
    using make [of "logger_module N True" LOGGER_TOKEN] parts pino by (simp add: logger_module_def)
  have cfg: "creatable app CONFIGURATION_TOKEN"
    using make [of configuration_module CONFIGURATION_TOKEN "[]"] parts by (simp add: configuration_module_def)
  have db: "creatable app DB_TOKEN"
    using make [of "db_module [db_config]" DB_TOKEN] parts logger by (simp add: configured_modules)
  have queue: "creatable app QUEUE_TOKEN"
    using make [of "queue_module kafka_module_config" QUEUE_TOKEN] parts logger by (simp add: configured_modules)
  have repo: "creatable app REPOSITORY_TOKEN"
    using make [of "repository_module True" REPOSITORY_TOKEN "[DB_TOKEN]"] parts db
    by (simp add: repository_module_def class_defs)
  have request: "creatable app REQUEST_TOKEN"
    using make [of "repository_module True" REQUEST_TOKEN "[DB_TOKEN]"] parts db
    by (simp add: repository_module_def repository_found class_defs)
  have csv: "creatable app CSV_TOKEN"
    using make [of csv_module CSV_TOKEN "[]"] parts by (simp add: csv_module_def)
  have http: "creatable app HTTP_CLIENT_TOKEN"
    using make [of "http_client_module HTTP_CLIENT_TOKEN" HTTP_CLIENT_TOKEN "[LOGGER_TOKEN]"] parts logger
    by (simp add: http_client_module_def)
  have messaging: "creatable app MESSAGING_TOKEN" "creatable app IMAGE_MESSAGING_TOKEN"
    using make [of messaging_module MESSAGING_TOKEN "[QUEUE_TOKEN]"] make [of messaging_module IMAGE_MESSAGING_TOKEN "[QUEUE_TOKEN]"]
      parts queue by (simp_all add: messaging_module_def class_defs)
  let ?im = "image_processing_module appName"
  have services: "creatable app SCHEDULING_TOKEN" "creatable app STATUS_TOKEN" "creatable app IMAGE_PROCESSOR_TOKEN"
    using make [of ?im SCHEDULING_TOKEN "[IMAGE_MESSAGING_TOKEN, REQUEST_TOKEN]"] make [of ?im STATUS_TOKEN "[REQUEST_TOKEN]"]
      make [of ?im IMAGE_PROCESSOR_TOKEN "[LOGGER_TOKEN, REQUEST_TOKEN, HTTP_CLIENT_TOKEN, CSV_TOKEN]"]
      parts messaging(2) request logger http csv
    by (simp_all add: image_processing_module_def class_defs)
  show ?thesis using pino ee logger cfg db queue repo request csv http messaging services by simp
qed

text \<open>Every class of the shared modules sees what it injects.\<close>

lemma shared_wired:
  assumes "library_laws N" and "shared_parts N appName app"
  shows "list_all (module_wired app)
    [logger_module N True, configuration_module, repository_module True, db_module [db_config], messaging_module,
     queue_module kafka_module_config, image_processing_module appName, csv_module, http_client_module HTTP_CLIENT_TOKEN]"
proof -
  note parts = shared_in [OF assms(2), unfolded insert_subset]
  have global: "PINO_LOGGER \<in> set (visible app m)" "LOGGER_TOKEN \<in> set (visible app m)" "DB_TOKEN \<in> set (visible app m)"
    "QUEUE_TOKEN \<in> set (visible app m)" "REPOSITORY_TOKEN \<in> set (visible app m)" "REQUEST_TOKEN \<in> set (visible app m)" for m
    using visible_global [of "nl_pino N" app] visible_global [of "logger_module N True" app]
      visible_global [of "db_module [db_config]" app] visible_global [of "queue_module kafka_module_config" app]
      visible_global [of "repository_module True" app] parts assms(1)
    by (simp_all add: library_laws_def logger_module_def configured_modules repository_module_def REPOSITORIES_def)
  let ?im = "image_processing_module appName"
  have local: "CSV_TOKEN \<in> set (visible app ?im)" "IMAGE_MESSAGING_TOKEN \<in> set (visible app ?im)"
    "HTTP_CLIENT_TOKEN \<in> set (visible app ?im)" "SCHEDULING_TOKEN \<in> set (visible app ?im)" "STATUS_TOKEN \<in> set (visible app ?im)"
    by (simp_all add: visible_def module_defs class_defs)
  show ?thesis
    using global local
    by (auto simp: module_wired_def created_by_def module_defs REPOSITORIES_def class_defs)
qed

subsection \<open>The two applications\<close>

definition shared_modules :: "nest_library \<Rightarrow> string \<Rightarrow> nest_module list" where
  "shared_modules N appName =
    [logger_module N True, configuration_module, repository_module True, db_module [db_config], messaging_module,
     queue_module kafka_module_config, image_processing_module appName, csv_module, http_client_module HTTP_CLIENT_TOKEN]"

lemma image_processing_modules:
  "set (all_modules (image_processing_module appName)) =
    {image_processing_module appName, csv_module, messaging_module, queue_module kafka_module_config,
     http_client_module HTTP_CLIENT_TOKEN}"
  by (simp add: module_defs insert_commute)

lemma shared_subtrees:
  "set (all_modules (logger_module N True)) = insert (logger_module N True) (set (all_modules (nl_pino N)))"
  "all_modules configuration_module = [configuration_module]"
  "set (all_modules (repository_module True)) = {repository_module True, db_module [db_config]}"
  "set (all_modules messaging_module) = {messaging_module, queue_module kafka_module_config}"
  by (simp_all add: module_defs)

lemma health_check_modules:
  "set (all_modules (health_check_module N)) =
    insert (health_check_module N) (insert bare_repository_module (set (all_modules (nl_terminus N))))"
  by (auto simp: health_check_module_def bare_repository_module_def)

lemma api_modules:
  "set (all_modules (api_app_module N appName)) =
    insert (api_app_module N appName) (insert (health_check_module N) (insert bare_repository_module
      (set (shared_modules N appName) \<union> set (all_modules (nl_pino N)) \<union> set (all_modules (nl_event_emitter N)) \<union>
       set (all_modules (nl_terminus N)))))"
  unfolding api_app_module_def all_modules.simps shared_modules_def
  by (auto simp: shared_subtrees health_check_modules image_processing_modules)

lemma consumer_modules:
  "set (all_modules (consumer_app_module N appName)) =
    insert (consumer_app_module N appName) (set (shared_modules N appName) \<union> set (all_modules (nl_pino N)) \<union>
      set (all_modules (nl_event_emitter N)) \<union> set (all_modules (nl_schedule N)))"
  unfolding consumer_app_module_def all_modules.simps shared_modules_def
  by (auto simp: shared_subtrees image_processing_modules)

lemma api_shared: "shared_parts N appName (api_app_module N appName)"
  by (simp add: shared_parts_def api_app_module_def)

lemma consumer_shared: "shared_parts N appName (consumer_app_module N appName)"
  by (simp add: shared_parts_def consumer_app_module_def)

text \<open>A module whose classes see what they inject, all of which can be created.\<close>

definition module_starts :: "nest_module \<Rightarrow> nest_module \<Rightarrow> bool" where
  "module_starts app m \<longleftrightarrow> module_wired app m \<and> (\<forall>p \<in> set (created_by m). list_all (creatable app) (pv_needs p))"

lemma shared_starts:
  assumes "library_laws N" and "shared_parts N appName app" and "m \<in> set (shared_modules N appName)"
  shows "module_starts app m"
proof -
  have "module_wired app m" using shared_wired [OF assms(1,2)] assms(3) by (auto simp: shared_modules_def list_all_iff)
  moreover have "\<forall>p \<in> set (created_by m). list_all (creatable app) (pv_needs p)"
    using shared_creatable [OF assms(1,2)] assms(3)
    by (auto simp: shared_modules_def created_by_def module_defs class_defs)
  ultimately show ?thesis by (simp add: module_starts_def)
qed

lemma library_starts:
  assumes "self_contained L" and "L \<in> set (all_modules app)" and "m \<in> set (all_modules L)"
  shows "module_starts app m"
proof -
  have "module_wired app m" using module_wired_part [OF assms(2) _ assms(3)] assms(1) by (simp add: self_contained_def)
  moreover have "\<forall>p \<in> set (created_by m). list_all (creatable app) (pv_needs p)"
    using creatable_part [OF assms(2)] assms(1,3) by (auto simp: self_contained_def list_all_iff)
  ultimately show ?thesis by (simp add: module_starts_def)
qed

text \<open>What a root module needs of its own: tokens of the shared modules and of the libraries.\<close>

lemma api_root_starts:
  assumes "library_laws N"
  shows "module_starts (api_app_module N appName) (api_app_module N appName)"
    and "module_starts (api_app_module N appName) (health_check_module N)"
    and "module_starts (api_app_module N appName) bare_repository_module"
proof -
  let ?app = "api_app_module N appName"
  note parts = shared_in [OF api_shared, unfolded insert_subset, of N appName]
  note made = shared_creatable [OF assms api_shared, simplified]
  have terminus: "nl_terminus N \<in> set (all_modules ?app)" using api_modules all_modules_self by blast
  have health: "creatable ?app TERMINUS_HEALTH"
    using creatable_part [OF terminus exported_creatable] assms by (auto simp: library_laws_def)
  have "creatable ?app HEALTH_CHECK_TOKEN"
    using creatable_provider [of "health_check_module N" ?app "provides HEALTH_CHECK_TOKEN [TERMINUS_HEALTH, REPOSITORY_TOKEN]"]
      api_modules [of N appName] health made by (simp add: health_check_module_def class_defs)
  moreover have "PINO_LOGGER \<in> set (visible ?app m)" "EVENT_EMITTER \<in> set (visible ?app m)" "REPOSITORY_TOKEN \<in> set (visible ?app m)" for m
    using visible_global [of "nl_pino N" ?app] visible_global [of "nl_event_emitter N" ?app]
      visible_global [of "repository_module True" ?app] parts assms
    by (simp_all add: library_laws_def repository_module_def)
  moreover have "MESSAGING_TOKEN \<in> set (visible ?app ?app)"
    using visible_import [of messaging_module ?app MESSAGING_TOKEN ?app] by (simp add: api_app_module_def messaging_module_def)
  moreover have "TERMINUS_HEALTH \<in> set (visible ?app (health_check_module N))"
    using visible_import [of "nl_terminus N"] assms by (simp add: library_laws_def health_check_module_def)
  moreover have "HEALTH_CHECK_TOKEN \<in> set (visible ?app (health_check_module N))"
    by (simp add: visible_def health_check_module_def class_defs)
  ultimately show "module_starts ?app ?app" "module_starts ?app (health_check_module N)"
      "module_starts ?app bare_repository_module"
    using made health
    by (auto simp: module_starts_def module_wired_def created_by_def api_app_module_def health_check_module_def
        bare_repository_module_def class_defs)
qed

lemma consumer_root_starts:
  assumes "library_laws N"
  shows "module_starts (consumer_app_module N appName) (consumer_app_module N appName)"
proof -
  let ?app = "consumer_app_module N appName"
  note parts = shared_in [OF consumer_shared, unfolded insert_subset, of N appName]
  note made = shared_creatable [OF assms consumer_shared, simplified]
  have "EVENT_EMITTER \<in> set (visible ?app ?app)" "LOGGER_TOKEN \<in> set (visible ?app ?app)" "REPOSITORY_TOKEN \<in> set (visible ?app ?app)"
    using visible_global [of "nl_event_emitter N" ?app] visible_global [of "logger_module N True" ?app]
      visible_global [of "repository_module True" ?app] parts assms
    by (simp_all add: library_laws_def logger_module_def repository_module_def)
  moreover have "IMAGE_MESSAGING_TOKEN \<in> set (visible ?app ?app)" "IMAGE_PROCESSOR_TOKEN \<in> set (visible ?app ?app)"
    using visible_import [of messaging_module ?app IMAGE_MESSAGING_TOKEN ?app]
      visible_import [of "image_processing_module appName" ?app IMAGE_PROCESSOR_TOKEN ?app]
    by (simp_all add: consumer_app_module_def messaging_module_def image_processing_module_def)
  ultimately show ?thesis
    using made by (auto simp: module_starts_def module_wired_def created_by_def consumer_app_module_def class_defs)
qed

text \<open>
  C31: Neither process fails on its dependencies. In the module trees of the API and of the consumer, whatever the environment
  calls the process, every provider and controller of every module sees all the tokens that its constructor or factory injects,
  every export is provided, and all of these can be created in some order, that is, no dependency is circular.
\<close>

theorem applications_are_wired:
  assumes "library_laws N"
  shows "list_all (module_starts (api_app_module N appName)) (all_modules (api_app_module N appName)) \<and>
    list_all (module_starts (consumer_app_module N appName)) (all_modules (consumer_app_module N appName))"
proof
  let ?api = "api_app_module N appName" and ?con = "consumer_app_module N appName"
  have laws: "self_contained (nl_pino N)" "self_contained (nl_event_emitter N)" "self_contained (nl_schedule N)"
    "self_contained (nl_terminus N)"
    using assms by (simp_all add: library_laws_def)
  have "module_starts ?api m" if m: "m \<in> set (all_modules ?api)" for m
  proof -
    have "{nl_pino N, nl_event_emitter N, nl_terminus N} \<subseteq> set (all_modules ?api)"
      using api_modules [of N appName] all_modules_self by blast
    then show ?thesis
      using m [unfolded api_modules] api_root_starts [OF assms, of appName] shared_starts [OF assms api_shared, of m appName]
        library_starts [OF laws(1), of ?api m] library_starts [OF laws(2), of ?api m] library_starts [OF laws(4), of ?api m]
      by blast
  qed
  then show "list_all (module_starts ?api) (all_modules ?api)" by (simp add: list_all_iff)
  have "module_starts ?con m" if m: "m \<in> set (all_modules ?con)" for m
  proof -
    have "{nl_pino N, nl_event_emitter N, nl_schedule N} \<subseteq> set (all_modules ?con)"
      using consumer_modules [of N appName] all_modules_self by blast
    then show ?thesis
      using m [unfolded consumer_modules] consumer_root_starts [OF assms, of appName]
        shared_starts [OF assms consumer_shared, of m appName]
        library_starts [OF laws(1), of ?con m] library_starts [OF laws(2), of ?con m] library_starts [OF laws(3), of ?con m]
      by blast
  qed
  then show "list_all (module_starts ?con) (all_modules ?con)" by (simp add: list_all_iff)
qed

subsection \<open>The statement for concrete libraries\<close>

definition sample_library :: nest_library where
  "sample_library =
    \<lparr>nl_pino = Nest_module ''PinoLoggerModule'' True [] [] [provides (Named ''pino-params'') [], provides PINO_LOGGER [Named ''pino-params'']]
       [PINO_LOGGER],
     nl_event_emitter = Nest_module ''EventEmitterModule'' True [] [] [provides EVENT_EMITTER []] [EVENT_EMITTER],
     nl_schedule = Nest_module ''ScheduleModule'' True [] [] [] [],
     nl_terminus = Nest_module ''TerminusModule'' False [] [] [provides TERMINUS_HEALTH []] [TERMINUS_HEALTH]\<rparr>"

lemma sample_library_laws: "library_laws sample_library"
proof -
  let ?p = "nl_pino sample_library"
  have "creatable ?p (Named ''pino-params'')"
    using creatable_provider [of ?p ?p "provides (Named ''pino-params'') []"] all_modules_self [of ?p]
    by (simp add: sample_library_def class_defs)
  then show ?thesis
    by (auto simp: library_laws_def self_contained_def well_wired_def module_wired_def created_by_def visible_def
        sample_library_def class_defs)
qed

theorem applications_are_wired_witness:
  "module_starts (api_app_module sample_library API_APP) (image_processing_module API_APP) \<and>
    image_processing_controller \<in> set (created_by (image_processing_module API_APP)) \<and>
    module_starts (consumer_app_module sample_library CONSUMER_APP) (consumer_app_module sample_library CONSUMER_APP)"
proof -
  have "image_processing_module API_APP \<in> set (all_modules (api_app_module sample_library API_APP))"
    using api_modules [of sample_library API_APP] by (simp add: shared_modules_def)
  moreover have "image_processing_controller \<in> set (created_by (image_processing_module API_APP))"
    by (simp add: created_by_def image_processing_module_def)
  ultimately show ?thesis
    using applications_are_wired [OF sample_library_laws, of API_APP] applications_are_wired [OF sample_library_laws, of CONSUMER_APP]
      all_modules_self [of "consumer_app_module sample_library CONSUMER_APP"] by (simp add: list_all_iff)
qed

end
