(* ===== verification/DbSetup.thy ===== *)
theory DbSetup
  imports Wiring
begin

text \<open>
  The constructors of \<open>packages/db-service\<close> and the provider of \<open>packages/nestjs-db-service\<close>: what a service keeps of its configuration,
  which loggers it ends up with, and what the application's configuration (\<open>util/db/db.config.ts\<close>, \<open>models/index.ts\<close>) makes of it,
  up to the models the repository uses. \<open>'l\<close> are the logger objects, one of them the console.
\<close>

subsection \<open>Configurations and services\<close>

record 'l loggers =
  lo_logger :: 'l
  lo_transactionLogger :: 'l

text \<open>\<open>logger ?? console\<close> and \<open>transactionLogger ?? this.logger\<close>\<close>

definition choose_loggers :: "'l \<Rightarrow> 'l option \<Rightarrow> 'l option \<Rightarrow> 'l loggers" where
  "choose_loggers console logger transactionLogger =
    (let l = (case logger of None \<Rightarrow> console | Some l \<Rightarrow> l)
     in \<lparr>lo_logger = l, lo_transactionLogger = (case transactionLogger of None \<Rightarrow> l | Some t \<Rightarrow> t)\<rparr>)"

text \<open>\<open>IDBConfigOptions\<close> of all three kinds; \<open>do_models\<close> are the model factories.\<close>

record ('w, 's, 'f, 'l) db_options =
  do_type :: string
  do_connectionString :: string
  do_schemas :: "'s js_object option"
  do_configOptions :: "jv js_object option"
  do_hooks :: "('s js_object \<Rightarrow> ('w, unit) call) option"
  do_models :: "'f js_object option"
  do_dialectOptions :: "jv js_object option"
  do_clientOptions :: "jv option"
  do_logger :: "'l option"
  do_transactionLogger :: "'l option"
  do_apm :: apm_conf

record ('w, 's, 'l) mongo_instance =
  mi_connectionString :: string
  mi_schemas :: "'s js_object"
  mi_configOptions :: "jv js_object"
  mi_hooks :: "'s js_object \<Rightarrow> ('w, unit) call"
  mi_loggers :: "'l loggers"
  mi_apm :: apm_conf

record ('f, 'l) sql_instance =
  si_connectionString :: string
  si_modelsRef :: "'f js_object"
  si_dialectOptions :: "jv js_object"
  si_loggers :: "'l loggers"
  si_apm :: apm_conf

record 'l elastic_instance =
  ei_clientOptions :: jv
  ei_loggers :: "'l loggers"
  ei_apm :: apm_conf

datatype ('w, 's, 'f, 'l) db_instance =
    Mongo_instance "('w, 's, 'l) mongo_instance"
  | Sql_instance "('f, 'l) sql_instance"
  | Elastic_instance "'l elastic_instance"

subsection \<open>The constructors\<close>

definition new_mongo_service ::
  "'l \<Rightarrow> string \<Rightarrow> 's js_object \<Rightarrow> jv js_object option \<Rightarrow> ('s js_object \<Rightarrow> ('w, unit) call) option \<Rightarrow> 'l option \<Rightarrow> 'l option \<Rightarrow>
   apm_conf \<Rightarrow> ('w, 's, 'l) mongo_instance" where
  "new_mongo_service console connectionString schemas configOptions hooks logger transactionLogger A =
    \<lparr>mi_connectionString = connectionString, mi_schemas = schemas,
     mi_configOptions = (case configOptions of None \<Rightarrow> [] | Some os \<Rightarrow> os),
     mi_hooks = (case hooks of None \<Rightarrow> (\<lambda>_ w. (Inr (), w)) | Some h \<Rightarrow> h),
     mi_loggers = choose_loggers console logger transactionLogger, mi_apm = A\<rparr>"

definition new_sql_service ::
  "'l \<Rightarrow> string \<Rightarrow> 'f js_object \<Rightarrow> jv js_object option \<Rightarrow> 'l option \<Rightarrow> 'l option \<Rightarrow> apm_conf \<Rightarrow> ('f, 'l) sql_instance" where
  "new_sql_service console connectionString models dialectOptions logger transactionLogger A =
    \<lparr>si_connectionString = connectionString, si_modelsRef = models,
     si_dialectOptions = (case dialectOptions of None \<Rightarrow> [] | Some os \<Rightarrow> os),
     si_loggers = choose_loggers console logger transactionLogger, si_apm = A\<rparr>"

definition new_elasticsearch_service :: "'l \<Rightarrow> jv \<Rightarrow> 'l option \<Rightarrow> 'l option \<Rightarrow> apm_conf \<Rightarrow> 'l elastic_instance" where
  "new_elasticsearch_service console clientOptions logger transactionLogger A =
    \<lparr>ei_clientOptions = clientOptions, ei_loggers = choose_loggers console logger transactionLogger, ei_apm = A\<rparr>"

definition new_db_service :: "'l \<Rightarrow> ('w, 's, 'f, 'l) db_options \<Rightarrow> ('w, ('w, 's, 'f, 'l) db_instance) act" where
  "new_db_service console config =
    (let A = do_apm config; logger = do_logger config; transactionLogger = do_transactionLogger config;
         refuse = (\<lambda>m. let err = DBServiceError m None in thenDo (capture_error A err) (raise err))
     in if do_type config = ''mongodb'' then
          (case do_schemas config of
             None \<Rightarrow> refuse ''Schemas are required for MongoDB connection''
           | Some schemas \<Rightarrow> returning (Mongo_instance (new_mongo_service console (do_connectionString config) schemas
               (do_configOptions config) (do_hooks config) logger transactionLogger A)))
        else if do_type config = ''sql'' then
          (case do_models config of
             None \<Rightarrow> refuse ''Models are required for SQL connection''
           | Some models \<Rightarrow> returning (Sql_instance (new_sql_service console (do_connectionString config) models
               (do_dialectOptions config) logger transactionLogger A)))
        else if do_type config = ''elasticsearch'' then
          (case do_clientOptions config of
             None \<Rightarrow> refuse ''Client options are required for Elasticsearch connection''
           | Some clientOptions \<Rightarrow>
               returning (Elastic_instance (new_elasticsearch_service console clientOptions logger transactionLogger A)))
        else let err = DBServiceError (''DB type not supported: '' @ do_type config) None
             in thenDo (report AppLogger A err) (raise err))"

text \<open>It builds the service whose kind \<open>db_service\<close> names, and refuses when that does.\<close>

fun kind_of :: "('w, 's, 'f, 'l) db_instance \<Rightarrow> db_kind" where
  "kind_of (Mongo_instance I) = Mongo_db"
| "kind_of (Sql_instance I) = Sql_db"
| "kind_of (Elastic_instance I) = Elastic_db"

lemma new_db_service_kind:
  "andThen (new_db_service console config) (\<lambda>I. returning (kind_of I)) =
    db_service (do_apm config) (do_type config) (do_schemas config \<noteq> None) (do_models config \<noteq> None) (do_clientOptions config \<noteq> None)"
  by (rule ext)
    (simp add: new_db_service_def db_service_def Let_def andThen_def thenDo_def capture_error_def returning_eq raise_eq report_eq
      split: option.split)

subsection \<open>The provider\<close>

text \<open>The factory: the injected logger, when there is one, becomes the transaction logger; then the service is made and connected.\<close>

definition inject_logger :: "bool \<Rightarrow> 'l \<Rightarrow> ('w, 's, 'f, 'l) db_options \<Rightarrow> ('w, 's, 'f, 'l) db_options" where
  "inject_logger withTransactionLogger logger config =
    (if withTransactionLogger then config\<lparr>do_transactionLogger := Some logger\<rparr> else config)"

definition db_provider ::
  "'l \<Rightarrow> (('w, 's, 'f, 'l) db_instance \<Rightarrow> ('w, 'i) act) \<Rightarrow> bool \<Rightarrow> 'l \<Rightarrow> ('w, 's, 'f, 'l) db_options \<Rightarrow> ('w, 'i) act" where
  "db_provider console connect withTransactionLogger logger config =
    andThen (new_db_service console (inject_logger withTransactionLogger logger config)) connect"

text \<open>\<open>connect\<close> of the MongoDB service; \<open>lib\<close> is mongoose for a connection string and options.\<close>

definition connect_mongo_instance ::
  "(string \<Rightarrow> jv js_object \<Rightarrow> ('w, 'c, 's, 'm) mongoose) \<Rightarrow> ('w, 's, 'l) mongo_instance \<Rightarrow> ('w, ('c, 'm) mongo_service) act" where
  "connect_mongo_instance lib I =
    mongo_connect ((lib (mi_connectionString I) (mi_configOptions I))\<lparr>mo_hooks := mi_hooks I (mi_schemas I)\<rparr>) (mi_apm I)
      (mi_schemas I) \<lparr>ms_connection = None, ms_models = [], ms_props = []\<rparr>"

subsection \<open>The application\<close>

text \<open>The console, a logger of Nest by its context, and what is injected under a token.\<close>

datatype app_logger = Console | Nest_logger string | Injected token

definition DB_SCHEMAS :: "'s \<Rightarrow> 's js_object" where
  "DB_SCHEMAS requestSchema = [(''Request'', requestSchema)]"

definition app_mongo_options :: "jv js_object" where
  "app_mongo_options =
    [(''connectTimeoutMS'', JNum 30000), (''serverSelectionTimeoutMS'', JNum 180000), (''maxPoolSize'', JNum 10),
     (''keepAlive'', JBool True)]"

definition app_db_options :: "string \<Rightarrow> 's \<Rightarrow> apm_conf \<Rightarrow> ('w, 's, 'f, app_logger) db_options" where
  "app_db_options uri requestSchema A =
    \<lparr>do_type = ''mongodb'', do_connectionString = uri, do_schemas = Some (DB_SCHEMAS requestSchema),
     do_configOptions = Some app_mongo_options, do_hooks = None, do_models = None, do_dialectOptions = None,
     do_clientOptions = None, do_logger = Some (Nest_logger ''DB_SERVICE''), do_transactionLogger = None, do_apm = A\<rparr>"

text \<open>What \<open>DB_TOKEN\<close> is provided with; \<open>other\<close> connects services of the other two kinds.\<close>

definition app_database ::
  "(string \<Rightarrow> jv js_object \<Rightarrow> ('w, 'c, 's, 'm) mongoose) \<Rightarrow>
   (('w, 's, 'f, app_logger) db_instance \<Rightarrow> ('w, ('w, 's, app_logger) mongo_instance \<times> ('c, 'm) mongo_service) act) \<Rightarrow>
   string \<Rightarrow> 's \<Rightarrow> apm_conf \<Rightarrow> ('w, ('w, 's, app_logger) mongo_instance \<times> ('c, 'm) mongo_service) act" where
  "app_database lib other uri requestSchema A =
    db_provider Console
      (\<lambda>i. case i of Mongo_instance I \<Rightarrow> andThen (connect_mongo_instance lib I) (\<lambda>S. returning (I, S)) | _ \<Rightarrow> other i)
      (mo_withTransactionLogger db_config) (Injected (hd (pv_needs (config_provider db_config))))
      (app_db_options uri requestSchema A)"

lemma app_database_result:
  assumes "app_database lib other uri requestSchema A s = (Inr (I, S), s')"
  shows "(\<exists>c w. mo_connect (lib uri app_mongo_options) (world s) = (Inr (Some c), w) \<and> ms_connection S = Some c) \<and>
    (\<exists>m. js_own (ms_models S) ''Request'' = Some m) \<and> (\<forall>n. n \<noteq> ''Request'' \<longrightarrow> js_own (ms_models S) n = None) \<and>
    (\<forall>a. \<exists>st. connection_status (lib uri app_mongo_options) S a = (Inr st, a)) \<and>
    mi_loggers I = \<lparr>lo_logger = Nest_logger ''DB_SERVICE'', lo_transactionLogger = Injected LOGGER_TOKEN\<rparr>"
proof -
  let ?M = "(lib uri app_mongo_options)\<lparr>mo_hooks := \<lambda>w. (Inr (), w)\<rparr>"
  have token: "hd (pv_needs (config_provider db_config)) = LOGGER_TOKEN" by (simp add: config_providers provides_def)
  have wt: "mo_withTransactionLogger db_config" by (simp add: db_config_def)
  from assms have run: "mongo_connect ?M A (DB_SCHEMAS requestSchema) \<lparr>ms_connection = None, ms_models = [], ms_props = []\<rparr> s = (Inr S, s')"
    and l: "mi_loggers I = \<lparr>lo_logger = Nest_logger ''DB_SERVICE'', lo_transactionLogger = Injected LOGGER_TOKEN\<rparr>"
    by (auto simp: app_database_def db_provider_def new_db_service_def inject_logger_def app_db_options_def new_mongo_service_def
        connect_mongo_instance_def choose_loggers_def token wt Let_def andThen_result returning_eq)
  have keys: "js_keys (DB_SCHEMAS requestSchema) = [''Request'']" by (simp add: DB_SCHEMAS_def js_keys_def)
  then have "''__proto__'' \<notin> set (js_keys (DB_SCHEMAS requestSchema))" by simp
  from mongo_connect_sets_up_models [OF run this] obtain c w where
    c: "mo_connect (lib uri app_mongo_options) (world s) = (Inr (Some c), w)" "ms_connection S = Some c"
    and m: "\<And>n. if n = ''Request'' then \<exists>m. js_own (ms_models S) n = Some m else js_own (ms_models S) n = None"
    unfolding keys by (fastforce simp: js_own_def split: if_splits)
  have "\<exists>st. connection_status (lib uri app_mongo_options) S a = (Inr st, a)" for a
    using c(2) by (simp add: connection_status_def mongo_is_connected_def andThen_def returning_eq)
  then show ?thesis using c m l by (metis (full_types))
qed

text \<open>
  C32: When the database provider of the application has been created, the repository can work: the service is connected, to the
  configured address with the configured options; it has a model \<open>Request\<close> and no other; its connection's state can be
  read, so that health check and liveness get an answer; and its transactions are logged by the logger that is injected
  under \<open>LOGGER_SERVICE\<close>, everything else by a logger of its own.
\<close>

theorem application_database_ready:
  assumes "app_database lib other uri requestSchema A s = (Inr (I, S), s')"
  shows "(\<exists>c w. mo_connect (lib uri app_mongo_options) (world s) = (Inr (Some c), w) \<and> ms_connection S = Some c) \<and>
    (\<exists>m. js_own (ms_models S) ''Request'' = Some m) \<and> (\<forall>n. n \<noteq> ''Request'' \<longrightarrow> js_own (ms_models S) n = None) \<and>
    (\<forall>a. \<exists>st. connection_status (lib uri app_mongo_options) S a = (Inr st, a)) \<and>
    mi_loggers I = \<lparr>lo_logger = Nest_logger ''DB_SERVICE'', lo_transactionLogger = Injected LOGGER_TOKEN\<rparr>"
  by (rule app_database_result [OF assms])

subsection \<open>The statement in a concrete world\<close>

definition no_other_database ::
  "(nat, nat, unit, app_logger) db_instance \<Rightarrow> (nat, (nat, nat, app_logger) mongo_instance \<times> (nat, nat) mongo_service) act" where
  "no_other_database i = raise (new_Error ''another database'')"

theorem application_database_ready_witness:
  "\<exists>I S s' m. app_database (\<lambda>uri os. sample_mongoose) no_other_database ''mongodb://db'' 4 db_apm db_run = (Inr (I, S), s') \<and>
    ms_connection S = Some 7 \<and> js_own (ms_models S) ''Request'' = Some m \<and>
    lo_transactionLogger (mi_loggers I) = Injected LOGGER_TOKEN"
proof -
  let ?run = "app_database (\<lambda>uri os. sample_mongoose) no_other_database ''mongodb://db'' 4 db_apm db_run"
  have "\<exists>x. fst ?run = Inr x"
    by (simp add: app_database_def db_provider_def new_db_service_def inject_logger_def app_db_options_def new_mongo_service_def
        connect_mongo_instance_def DB_SCHEMAS_def Let_def mongo_connect_def mongo_initiate_connection_def mongo_setup_models_def
        mongo_model_def db_simps sample_mongoose_def)
  then obtain I S where run: "?run = (Inr (I, S), snd ?run)" by (metis prod.collapse)
  have "mo_connect sample_mongoose w = (Inr (Some 7), Suc w)" for w by (simp add: sample_mongoose_def)
  with application_database_ready [OF run] obtain m where "ms_connection S = Some 7 \<and> js_own (ms_models S) ''Request'' = Some m \<and>
      lo_transactionLogger (mi_loggers I) = Injected LOGGER_TOKEN"
    by auto
  with run show ?thesis by blast
qed

end
