(* ===== verification/ApiStart.thy ===== *)
theory ApiStart
  imports Startup KafkaSetup DbSetup
begin

text \<open>
  The start of the API process put together: the application's providers with their configurations -- the database of
  \<open>util/db/db.config.ts\<close>, the queue of \<open>util/queue/kafka.config.ts\<close> made by \<open>queue.provider.ts\<close> -- then the bootstrap hook
  of \<open>api-app-lifecycle.service.ts\<close>, then \<open>listen\<close> in \<open>main.ts\<close>. It is shown that the server listens only when everything an
  upload needs is there.
\<close>

subsection \<open>The queue provider\<close>

text \<open>The loggers of the Kafka service and those it hands to its producer and its consumer, which choose once more.\<close>

record 'l kafka_loggers =
  ql_service :: "'l loggers"
  ql_producer :: "'l loggers"
  ql_consumer :: "'l loggers"

definition new_kafka_loggers :: "'l \<Rightarrow> 'l option \<Rightarrow> 'l option \<Rightarrow> 'l kafka_loggers" where
  "new_kafka_loggers console logger transactionLogger =
    (let l = choose_loggers console logger transactionLogger;
         part = choose_loggers console (Some (lo_logger l)) (Some (lo_transactionLogger l))
     in \<lparr>ql_service = l, ql_producer = part, ql_consumer = part\<rparr>)"

text \<open>
  \<open>queueServiceFactory\<close> with the configuration of the module: the injected logger becomes the transaction logger; a
  Kafka service is built and connected; \<open>other\<close> is the branch of the other queue.
\<close>

definition queue_provider ::
  "('w, 'b, 'c) kafka_libraries \<Rightarrow> ('w, ('w, 'b, 'c) kafka_service \<times> 'l kafka_loggers) act \<Rightarrow> 'l \<Rightarrow> bool \<Rightarrow> 'l \<Rightarrow>
   string \<Rightarrow> kafka_service_config \<Rightarrow> 'l option \<Rightarrow> 'l option \<Rightarrow>
   ('w, ('w, 'b, 'c) kafka_service \<times> 'l kafka_loggers) act" where
  "queue_provider L other console withTransactionLogger injected type config logger transactionLogger =
    andThen (queue_service (kg_apm config) type) (\<lambda>kind.
      case kind of
        Kafka_queue \<Rightarrow>
          andThen (new_kafka_service L config) (\<lambda>K.
            thenDo (service_connect K)
              (returning (K, new_kafka_loggers console logger
                (if withTransactionLogger then Some injected else transactionLogger))))
      | Service_bus_queue \<Rightarrow> other)"

text \<open>What \<open>QUEUE_TOKEN\<close> is provided with in both processes.\<close>

definition app_queue ::
  "('w, 'b, 'c) kafka_libraries \<Rightarrow> ('w, ('w, 'b, 'c) kafka_service \<times> app_logger kafka_loggers) act \<Rightarrow>
   string \<Rightarrow> string list \<Rightarrow> string \<Rightarrow> apm_conf \<Rightarrow>
   ('w, ('w, 'b, 'c) kafka_service \<times> app_logger kafka_loggers) act" where
  "app_queue L other clientId brokers registryHost A =
    queue_provider L other Console (mo_withTransactionLogger kafka_module_config)
      (Injected (hd (pv_needs (config_provider kafka_module_config)))) ''kafka''
      (kafka_queue_config clientId brokers registryHost A) (Some (Nest_logger (mo_providerName kafka_module_config))) None"

text \<open>The framework runs the two factories in either order.\<close>

definition app_providers :: "bool \<Rightarrow> ('w, 'd) act \<Rightarrow> ('w, 'q) act \<Rightarrow> ('w, 'd \<times> 'q) act" where
  "app_providers db_first db queue =
    (if db_first then andThen db (\<lambda>d. andThen queue (\<lambda>q. returning (d, q)))
     else andThen queue (\<lambda>q. andThen db (\<lambda>d. returning (d, q))))"

lemma app_providers_result:
  "app_providers db_first db queue s = (Inr (d, q), s') \<Longrightarrow>
    (\<exists>s1 s2. db s1 = (Inr d, s2)) \<and> (\<exists>s1 s2. queue s1 = (Inr q, s2) \<and> (db_first \<longrightarrow> s2 = s'))"
  by (auto simp: app_providers_def andThen_result returning_eq split: if_splits)

subsection \<open>What returning means\<close>

lemma service_connect_result:
  assumes "service_connect K s = (Inr (), s')"
  shows "\<exists>w. ad_connect (ks_admin K) (world s) = (Inr (), w) \<and> kp_connect (ks_producer K) w = (Inr (), world s')"
  using assms
  by (auto simp: service_connect_def admin_connect_def producer_connect_def wrap_service_def report_eq result_simps Let_def)

lemma app_queue_result:
  assumes "app_queue L other clientId brokers host A s = (Inr (K, l), s')"
  shows "\<exists>w. new_kafka_service L (kafka_queue_config clientId brokers host A) s = (Inr K, s) \<and>
    ad_connect (ks_admin K) (world s) = (Inr (), w) \<and> kp_connect (ks_producer K) w = (Inr (), world s') \<and>
    (\<forall>x \<in> {ql_service l, ql_producer l, ql_consumer l}.
      x = \<lparr>lo_logger = Nest_logger ''QUEUE_SERVICE'', lo_transactionLogger = Injected LOGGER_TOKEN\<rparr>)"
proof -
  have token: "hd (pv_needs (config_provider kafka_module_config)) = LOGGER_TOKEN"
    by (simp add: config_providers provides_def)
  have module: "mo_withTransactionLogger kafka_module_config" "mo_providerName kafka_module_config = ''QUEUE_SERVICE''"
    by (simp_all add: kafka_module_config_def)
  obtain K' where K': "new_kafka_service L (kafka_queue_config clientId brokers host A) s = (Inr K', s)"
    using new_kafka_service_returns by blast
  then have "K' = K" and "service_connect K s = (Inr (), s')"
    and "l = new_kafka_loggers Console (Some (Nest_logger ''QUEUE_SERVICE'')) (Some (Injected LOGGER_TOKEN))"
    using assms
    by (auto simp: app_queue_def queue_provider_def queue_service_def token module result_simps)
  then show ?thesis
    using K' service_connect_result [of K s s'] by (auto simp: new_kafka_loggers_def choose_loggers_def Let_def)
qed

text \<open>The schemas of the directory, read and registered one after the other, from world to world.\<close>

fun schemas_registered ::
  "'w schema_registry \<Rightarrow> messaging_config \<Rightarrow> string list \<Rightarrow> 'w \<Rightarrow> 'w \<Rightarrow> bool" where
  "schemas_registered R cfg [] w w' = (w' = w)"
| "schemas_registered R cfg (p # ps) w w' =
     (ends_with (path_join [mc_schemas_dir cfg, p]) ''.avsc'' \<and>
      (\<exists>schema i w1 w2.
        sr_readAVSC R (path_join [mc_schemas_dir cfg, p]) w = (Inr schema, w1) \<and>
        sr_register R schema [(''subject'', JStr (schema_subject (mc_node_env cfg) p)), (''compatibility'', JStr ''FULL'')] w1 =
          (Inr i, w2) \<and>
        schemas_registered R cfg ps w2 w'))"

lemma register_schema_result:
  assumes "register_schema K (Schema_path p) topic [] s = (Inr i, s')" and "ks_registry K = Some R"
  shows "ends_with p ''.avsc'' \<and>
    (\<exists>schema w. sr_readAVSC R p (world s) = (Inr schema, w) \<and>
      sr_register R schema [(''subject'', JStr topic), (''compatibility'', JStr ''FULL'')] w = (Inr i, world s'))"
  using assms
  by (auto simp: register_schema_def read_avsc_schema_def register_options_def wrap_service_def report_eq result_simps Let_def
      split: if_splits)

lemma register_schemas_result:
  assumes "register_schemas K cfg (Inr names) s = (Inr (), s')" and "ks_registry K = Some R"
  shows "schemas_registered R cfg names (world s) (world s')"
proof -
  have "for_each (\<lambda>p. thenDo
      (register_schema K (Schema_path (path_join [mc_schemas_dir cfg, p])) (schema_subject (mc_node_env cfg) p) [])
      (returning ())) names s = (Inr (), s')"
    using assms(1) by (simp add: register_schemas_def andThen_def pure_result_def)
  then show ?thesis
  proof (induction names arbitrary: s)
    case Nil
    then show ?case by (simp add: returning_eq)
  next
    case (Cons p ps)
    then obtain i s1 where r: "register_schema K (Schema_path (path_join [mc_schemas_dir cfg, p]))
        (schema_subject (mc_node_env cfg) p) [] s = (Inr i, s1)"
      and rest: "schemas_registered R cfg ps (world s1) (world s')"
      by (auto simp: thenDo_result returning_eq)
    from register_schema_result [OF r assms(2)] rest show ?case by auto
  qed
qed

text \<open>The topic and, where it is required, its dead letter topic.\<close>

definition topics_created :: "'w kafka_admin \<Rightarrow> messaging_config \<Rightarrow> 'w \<Rightarrow> 'w \<Rightarrow> bool" where
  "topics_created ad cfg w w' \<longleftrightarrow>
    (\<exists>b w1. ad_createTopics ad (mc_topic cfg, Some (mc_partitions cfg)) w = (Inr b, w1) \<and>
      (if mc_dlq_required cfg
       then \<exists>b'. ad_createTopics ad (mc_dlq_topic cfg, Some (mc_dlq_partitions cfg)) w1 = (Inr b', w')
       else w' = w1))"

lemma create_topic_result:
  "create_topic K cfg s = (Inr b, s') \<Longrightarrow> ad_createTopics (ks_admin K) cfg (world s) = (Inr b, world s')"
  by (auto simp: create_topic_def wrap_service_def report_eq result_simps Let_def split: if_splits)

lemma initialize_topics_result:
  "initialize_topics K cfg s = (Inr (), s') \<Longrightarrow> topics_created (ks_admin K) cfg (world s) (world s')"
  by (auto simp: initialize_topics_def topics_created_def thenDo_result returning_eq dest!: create_topic_result
      split: if_splits)

subsection \<open>The server\<close>

text \<open>
  C29: The API listens only when an upload can be taken. When the start of the API returns, in whichever order the
  providers were made: the database is connected and has the model \<open>Request\<close>; the queue's admin client was connected and then its
  producer; the queue logs by its own logger and its transactions by the injected one; after that every schema of the directory was
  read and registered in turn under its subject, then the topic was created and its dead letter topic where one is required, and the
  very next call is \<open>listen\<close>. Shutdown hooks are enabled.
\<close>

theorem api_listens_when_ready:
  assumes "start_app F port
      (app_providers db_first (app_database lib otherDb uri requestSchema dbApm) (app_queue L otherQueue clientId brokers host A))
      (\<lambda>(d, q). api_bootstrap (fst q) cfg (Inr names)) subscription API_APP s = (Inr hooks, s')"
  shows "hooks \<and> (\<exists>I S K l R w1 w2 w3.
    (\<exists>a b. app_database lib otherDb uri requestSchema dbApm a = (Inr (I, S), b)) \<and>
    ms_connection S \<noteq> None \<and> js_own (ms_models S) ''Request'' \<noteq> None \<and>
    (\<exists>a b c. ad_connect (ks_admin K) a = (Inr (), b) \<and> kp_connect (ks_producer K) b = (Inr (), c) \<and>
      (db_first \<longrightarrow> c = w1)) \<and>
    (\<forall>x \<in> {ql_service l, ql_producer l, ql_consumer l}.
      x = \<lparr>lo_logger = Nest_logger ''QUEUE_SERVICE'', lo_transactionLogger = Injected LOGGER_TOKEN\<rparr>) \<and>
    (\<exists>a b. app_queue L otherQueue clientId brokers host A a = (Inr (K, l), b)) \<and>
    ks_registry K = Some R \<and> schemas_registered R cfg names w1 w2 \<and> topics_created (ks_admin K) cfg w2 w3 \<and>
    fw_listen F w3 = (Inr (), world s'))"
proof -
  from assms obtain I S K l s1 s2 s3 s4 where
      hooks: "hooks"
    and made: "app_providers db_first (app_database lib otherDb uri requestSchema dbApm)
      (app_queue L otherQueue clientId brokers host A) s1 = (Inr ((I, S), (K, l)), s2)"
    and boot: "api_bootstrap K cfg (Inr names) s2 = (Inr (), s3)"
    and listen: "fw_listen F (world s3) = (Inr (), world s')"
    by (auto simp: start_app_def result_simps)
  obtain a b where db: "app_database lib otherDb uri requestSchema dbApm a = (Inr (I, S), b)"
    using app_providers_result [OF made] by blast
  obtain c d where queue: "app_queue L otherQueue clientId brokers host A c = (Inr (K, l), d)"
    "db_first \<longrightarrow> d = s2"
    using app_providers_result [OF made] by blast
  obtain w where q: "new_kafka_service L (kafka_queue_config clientId brokers host A) c = (Inr K, c)"
    "ad_connect (ks_admin K) (world c) = (Inr (), w)" "kp_connect (ks_producer K) w = (Inr (), world d)"
    "\<forall>x \<in> {ql_service l, ql_producer l, ql_consumer l}.
      x = \<lparr>lo_logger = Nest_logger ''QUEUE_SERVICE'', lo_transactionLogger = Injected LOGGER_TOKEN\<rparr>"
    using app_queue_result [OF queue(1)] by blast
  obtain R where R: "ks_registry K = Some R"
    using q(1) by (auto simp: new_kafka_service_def new_kafka_cache_def kafka_queue_config_def result_simps Let_def)
  obtain s5 where "register_schemas K cfg (Inr names) s2 = (Inr (), s5)" "initialize_topics K cfg s5 = (Inr (), s3)"
    using boot by (auto simp: api_bootstrap_def thenDo_result)
  then have "schemas_registered R cfg names (world s2) (world s5)" "topics_created (ks_admin K) cfg (world s5) (world s3)"
    using register_schemas_result R initialize_topics_result by blast+
  moreover have "ms_connection S \<noteq> None" "js_own (ms_models S) ''Request'' \<noteq> None"
    using app_database_result [OF db] by auto
  moreover have "db_first \<longrightarrow> world d = world s2" using queue(2) by blast
  ultimately show ?thesis using hooks db queue(1) q(2-4) R listen by blast
qed

subsection \<open>The statement in a concrete world\<close>

text \<open>A world that counts the calls.\<close>

definition counted :: "'a \<Rightarrow> (nat, 'a) call" where
  "counted a w = (Inr a, Suc w)"

definition start_libraries :: "(nat, string, nat) kafka_libraries" where
  "start_libraries =
    \<lparr>kb_kafka = (\<lambda>cfg. \<lparr>kl_consumer = (\<lambda>o'. counted 0), kl_connect = (\<lambda>c. counted ()), kl_subscribe = (\<lambda>c t. counted ()),
       kl_run = (\<lambda>c. counted ()), kl_disconnect = (\<lambda>c. counted ())\<rparr>),
     kb_admin = (\<lambda>cfg a. \<lparr>ad_connect = counted (), ad_disconnect = counted (), ad_listTopics = counted [],
       ad_createTopics = (\<lambda>t. counted True), ad_deleteTopics = (\<lambda>t. counted ())\<rparr>),
     kb_producer = (\<lambda>cfg p. \<lparr>pl_connect = counted (), pl_disconnect = counted (), pl_send = (\<lambda>t m. counted JUndef)\<rparr>),
     kb_registry = (\<lambda>args opts. \<lparr>rg_schemas = \<lparr>sr_register = (\<lambda>v os. counted 1), sr_readAVSC = (\<lambda>p. counted JUndef)\<rparr>,
       rg_encoder = \<lparr>re_latest = (\<lambda>t. counted 1), re_encode = (\<lambda>i v. counted (json_text v))\<rparr>,
       rg_decode = (\<lambda>b. counted (app_value, value_text app_value))\<rparr>),
     kb_redis = (\<lambda>args. \<lparr>rd_get = (\<lambda>k. counted None), rd_set = (\<lambda>args. counted JUndef), rd_keys = (\<lambda>p. counted []),
       rd_disconnect = counted (), rd_setname = (\<lambda>n. counted ())\<rparr>),
     kb_text = (\<lambda>t. t), kb_json = sample_json, kb_error_json = (\<lambda>e. JObj []), kb_partitioner = JUndef\<rparr>"

definition start_framework :: "nat framework" where
  "start_framework = \<lparr>fw_create = counted (), fw_listen = counted (), fw_context = counted ()\<rparr>"

definition no_other_queue :: "(nat, (nat, string, nat) kafka_service \<times> app_logger kafka_loggers) act" where
  "no_other_queue = raise (new_Error ''another queue'')"

definition start_sample :: "nat rt \<Rightarrow> (exn + bool) \<times> nat rt" where
  "start_sample = start_app start_framework ''3000''
    (app_providers True (app_database (\<lambda>uri os. sample_mongoose) no_other_database ''mongodb://db'' 4 db_apm)
      (app_queue start_libraries no_other_queue ''app'' [''k:9092''] ''reg'' quiet_apm))
    (\<lambda>(d, q). api_bootstrap (fst q) sample_messaging (Inr [''request.avsc''])) (\<lambda>p. returning (Inr ([] :: nat list))) API_APP"

lemmas run_simps = tryCatch_def thenDo_def andThen_def external_def log_to_def returning_eq Let_def counted_def

lemma start_database:
  "\<exists>d s'. app_database (\<lambda>uri os. sample_mongoose) no_other_database ''mongodb://db'' 4 db_apm s = (Inr d, s')"
  by (simp add: app_database_def db_provider_def new_db_service_def inject_logger_def app_db_options_def new_mongo_service_def
      connect_mongo_instance_def DB_SCHEMAS_def mongo_connect_def mongo_initiate_connection_def mongo_setup_models_def
      mongo_model_def db_simps sample_mongoose_def)

lemma start_queue:
  "\<exists>K l s'. app_queue start_libraries no_other_queue ''app'' [''k:9092''] ''reg'' quiet_apm s = (Inr (K, l), s') \<and>
    ks_registry K = Some \<lparr>sr_register = (\<lambda>v os. counted 1), sr_readAVSC = (\<lambda>p. counted JUndef)\<rparr> \<and>
    ad_createTopics (ks_admin K) = (\<lambda>t. counted True)"
  by (simp add: app_queue_def queue_provider_def queue_service_def kafka_queue_config_def new_kafka_service_def
      new_kafka_cache_def service_connect_def admin_connect_def producer_connect_def ks_producer_def new_kafka_consumer_def
      new_kafka_producer_def start_libraries_def run_simps)

lemma start_bootstrap:
  assumes "ks_registry K = Some \<lparr>sr_register = (\<lambda>v os. counted 1), sr_readAVSC = (\<lambda>p. counted JUndef)\<rparr>"
    and "ad_createTopics (ks_admin K) = (\<lambda>t. counted True)"
  shows "\<exists>s'. api_bootstrap K sample_messaging (Inr [''request.avsc'']) s = (Inr (), s')"
proof -
  have "ends_with (path_join [''/schemas'', ''request.avsc'']) ''.avsc''" by code_simp
  then show ?thesis
    using assms
    by (simp add: api_bootstrap_def register_schemas_def register_schema_def read_avsc_schema_def initialize_topics_def
        create_topic_def sample_messaging_def pure_result_def run_simps)
qed

lemma start_sample_returns: "\<exists>s'. start_sample db_run = (Inr True, s')"
proof -
  let ?s0 = "db_run\<lparr>world := 1, log_lines := [Log_line ApmLogger LLog ''Initializing startApp api-app'' []]\<rparr>"
  obtain d s1 where 1: "app_database (\<lambda>uri os. sample_mongoose) no_other_database ''mongodb://db'' 4 db_apm ?s0 = (Inr d, s1)"
    using start_database by blast
  obtain K l s2 where 2: "app_queue start_libraries no_other_queue ''app'' [''k:9092''] ''reg'' quiet_apm s1 = (Inr (K, l), s2)"
    and K: "ks_registry K = Some \<lparr>sr_register = (\<lambda>v os. counted 1), sr_readAVSC = (\<lambda>p. counted JUndef)\<rparr>"
      "ad_createTopics (ks_admin K) = (\<lambda>t. counted True)"
    using start_queue by blast
  obtain s3 where "api_bootstrap K sample_messaging (Inr [''request.avsc'']) s2 = (Inr (), s3)"
    using start_bootstrap [OF K] by blast
  then show ?thesis
    using 1 2 by (simp add: start_sample_def start_app_def app_providers_def start_framework_def run_simps db_run_def API_APP_def)
qed

theorem api_listens_when_ready_witness:
  "\<exists>s' I S K l R w1 w2 w3. start_sample db_run = (Inr True, s') \<and>
    (\<exists>a b. app_database (\<lambda>uri os. sample_mongoose) no_other_database ''mongodb://db'' 4 db_apm a = (Inr (I, S), b)) \<and>
    (\<exists>a b. app_queue start_libraries no_other_queue ''app'' [''k:9092''] ''reg'' quiet_apm a = (Inr (K, l), b)) \<and>
    schemas_registered R sample_messaging [''request.avsc''] w1 w2 \<and> topics_created (ks_admin K) sample_messaging w2 w3 \<and>
    world s' = Suc w3"
proof -
  obtain s' where run: "start_sample db_run = (Inr True, s')" using start_sample_returns by blast
  have "fw_listen start_framework w = (Inr (), Suc w)" for w by (simp add: start_framework_def counted_def)
  then show ?thesis using api_listens_when_ready [OF run [unfolded start_sample_def]] run by fastforce
qed

end
