(* ===== verification/PartitionLog.thy ===== *)
theory PartitionLog
  imports Consumption
begin

text \<open>
  The consumer of a partition against what it promises: an abstract log of the last offset done, the runs of the
  processor and the messages handed to the producer. The handler of \<open>kafka-consumer-service.ts\<close>, with its decoding, heartbeat, offset check,
  processor, offset publication and dead letter queue, is shown to take exactly the log's steps, message by message
  and over any sequence of messages; that an offset succeeds at most once is a fact of the log.
\<close>

subsection \<open>The log\<close>

type_synonym run = "decoded_msg \<times> (exn + unit)"

record 'b partition_log =
  pl_last :: "nat option"
  pl_runs :: "run list"
  pl_sent :: "(string \<times> 'b out_message) list"

text \<open>Whether the log has an offset that is not below \<open>n\<close>.\<close>

definition already_done :: "'b partition_log \<Rightarrow> nat \<Rightarrow> bool" where
  "already_done L n = (case pl_last L of None \<Rightarrow> False | Some k \<Rightarrow> n \<le> k)"

text \<open>
  What a failed message leaves in the dead letter queue: nothing when the subscription does not ask for it, or when its
  value has no text.
\<close>

definition dead_letters ::
  "('w, 'b, 'c) kafka_consumer_service \<Rightarrow> subscription \<Rightarrow> string \<Rightarrow> decoded_msg option \<Rightarrow> 'b kafka_message \<Rightarrow>
   exn \<Rightarrow> (string \<times> 'b out_message) list" where
  "dead_letters C sub topic dm message err =
    (if sb_dlqRequired sub
     then case dlq_body C dm message of
            Inl e \<Rightarrow> []
          | Inr body \<Rightarrow> [(dlq_topic topic, dlq_out C dm message body err)]
     else [])"

text \<open>
  One message with offset \<open>n\<close>: what cannot be decoded is a dead letter; what is done is dropped; the rest is run
  once, and is done when its processor returns and a dead letter when it throws.
\<close>

definition log_step ::
  "('w, 'b, 'c) kafka_consumer_service \<Rightarrow> subscription \<Rightarrow> string \<Rightarrow> ('b kafka_message \<Rightarrow> exn + decoded_msg) \<Rightarrow>
   (run list \<Rightarrow> decoded_msg \<Rightarrow> exn + unit) \<Rightarrow> nat \<times> 'b kafka_message \<Rightarrow> 'b partition_log \<Rightarrow> 'b partition_log" where
  "log_step C sub topic decode outcome = (\<lambda>(n, message) L.
    case decode message of
      Inl e \<Rightarrow> L\<lparr>pl_sent := pl_sent L @ dead_letters C sub topic None message (decode_error topic e)\<rparr>
    | Inr dm \<Rightarrow>
        if already_done L n then L
        else (let r = outcome (pl_runs L) dm; L' = L\<lparr>pl_runs := pl_runs L @ [(dm, r)]\<rparr>
              in case r of
                   Inr _ \<Rightarrow> L'\<lparr>pl_last := Some n\<rparr>
                 | Inl e \<Rightarrow> L'\<lparr>pl_sent := pl_sent L @ dead_letters C sub topic (Some dm) message
                     (run_error topic ''Error running message processor'' e)\<rparr>))"

subsection \<open>What is observed of the world\<close>

record ('w, 'b) observer =
  ob_cached :: "'w \<Rightarrow> string \<Rightarrow> string option"
  ob_runs :: "'w \<Rightarrow> run list"
  ob_sent :: "'w \<Rightarrow> (string \<times> 'b out_message) list"

definition unseen :: "('w, 'b) observer \<Rightarrow> 'w \<Rightarrow> 'w \<Rightarrow> bool" where
  "unseen V w w' \<longleftrightarrow> ob_cached V w' = ob_cached V w \<and> ob_runs V w' = ob_runs V w \<and> ob_sent V w' = ob_sent V w"

lemma unseen_refl: "unseen V w w"
  by (simp add: unseen_def)

lemma unseen_trans: "unseen V w w' \<Longrightarrow> unseen V w' w'' \<Longrightarrow> unseen V w w''"
  by (simp add: unseen_def)

text \<open>A Redis that answers: a read gives the value stored last, and a write stores.\<close>

definition answering_redis :: "'w ioredis \<Rightarrow> ('w, 'b) observer \<Rightarrow> bool" where
  "answering_redis R V \<longleftrightarrow>
    (\<forall>k w. \<exists>w'. rd_get R k w = (Inr (ob_cached V w k), w') \<and> unseen V w w') \<and>
    (\<forall>k v w. \<exists>r w'. rd_set R [JStr k, JStr v] w = (r, w') \<and> ob_cached V w' = (ob_cached V w)(k \<mapsto> v) \<and>
       ob_runs V w' = ob_runs V w \<and> ob_sent V w' = ob_sent V w)"

text \<open>What is seen of the sends is what the producer was called with, whatever the broker answers.\<close>

definition sends_seen :: "('w, 'b) kafka_producer \<Rightarrow> ('w, 'b) observer \<Rightarrow> bool" where
  "sends_seen K V \<longleftrightarrow>
    (\<forall>t m w. \<exists>r w'. kp_send K t m w = (r, w') \<and> ob_sent V w' = ob_sent V w @ [(t, m)] \<and>
       ob_cached V w' = ob_cached V w \<and> ob_runs V w' = ob_runs V w)"

text \<open>A processor whose outcome depends on the message and on its own earlier runs, which are what is seen of it.\<close>

definition observed_processor ::
  "(decoded_msg \<Rightarrow> ('w, unit) act) \<Rightarrow> (run list \<Rightarrow> decoded_msg \<Rightarrow> exn + unit) \<Rightarrow> ('w, 'b) observer \<Rightarrow> bool" where
  "observed_processor processor outcome V \<longleftrightarrow>
    (\<forall>dm s. \<exists>s'. processor dm s = (outcome (ob_runs V (world s)) dm, s') \<and>
       ob_runs V (world s') = ob_runs V (world s) @ [(dm, outcome (ob_runs V (world s)) dm)] \<and>
       ob_cached V (world s') = ob_cached V (world s) \<and> ob_sent V (world s') = ob_sent V (world s))"

text \<open>Decoding, with or without the schema registry, is a function of the message and is not seen.\<close>

definition decodes_by ::
  "('w, 'b, 'c) kafka_consumer_service \<Rightarrow> bool \<Rightarrow> ('b kafka_message \<Rightarrow> exn + decoded_msg) \<Rightarrow> ('w, 'b) observer \<Rightarrow> bool" where
  "decodes_by C se decode V \<longleftrightarrow>
    (\<forall>message w. \<exists>w'. decoded_to C message se w = (decode message, w') \<and> unseen V w w')"

text \<open>All of it.\<close>

definition consumer_laws ::
  "('w, 'b, 'c) kafka_consumer_service \<Rightarrow> subscription \<Rightarrow> (decoded_msg \<Rightarrow> ('w, unit) act) \<Rightarrow> ('w, unit) call \<Rightarrow>
   ('b kafka_message \<Rightarrow> exn + decoded_msg) \<Rightarrow> (run list \<Rightarrow> decoded_msg \<Rightarrow> exn + unit) \<Rightarrow> ('w, 'b) observer \<Rightarrow> bool" where
  "consumer_laws C sub processor hb decode outcome V \<longleftrightarrow>
    (\<exists>R A. kc_cache C = Some (R, A) \<and> answering_redis R V) \<and> sends_seen (kc_producer C) V \<and>
    observed_processor processor outcome V \<and> decodes_by C (sb_schemaEnabled sub) decode V \<and>
    (\<forall>w. unseen V w (snd (hb w)))"

text \<open>The log that the world holds for a partition.\<close>

definition log_of :: "('w, 'b) observer \<Rightarrow> string \<Rightarrow> string \<Rightarrow> nat \<Rightarrow> 'w \<Rightarrow> 'b partition_log" where
  "log_of V topic g part w =
    \<lparr>pl_last = map_option (\<lambda>t. nat (the (parse_int t))) (ob_cached V w (offset_key topic g part)),
     pl_runs = ob_runs V w, pl_sent = ob_sent V w\<rparr>"

definition stores_offset :: "('w, 'b) observer \<Rightarrow> string \<Rightarrow> string \<Rightarrow> nat \<Rightarrow> 'w \<Rightarrow> bool" where
  "stores_offset V topic g part w \<longleftrightarrow>
    (case ob_cached V w (offset_key topic g part) of None \<Rightarrow> True | Some t \<Rightarrow> \<exists>n. t = decimal n)"

lemma log_of_unseen: "unseen V w w' \<Longrightarrow> log_of V topic g part w' = log_of V topic g part w"
  by (simp add: log_of_def unseen_def)

lemma stores_offset_unseen: "unseen V w w' \<Longrightarrow> stores_offset V topic g part w' = stores_offset V topic g part w"
  by (simp add: stores_offset_def unseen_def)

subsection \<open>The parts of a step\<close>

lemma run_processor_result:
  obtains r t t' s' where "world t = world s" and "processor dm t = (r, t')"
    and "run_processor C topic processor dm s = (map_sum (run_error topic ''Error running message processor'') id r, s')"
    and "world s' = world t'"
proof -
  let ?t = "logged TxnLogger (''[KafkaConsumerService] [ConsumerRun - '' @ topic @ ''] '' @ ''Running Message Processor...'') s"
  obtain r t' where p: "processor dm ?t = (r, t')" by (cases "processor dm ?t")
  have run: "run_processor C topic processor dm s =
      (map_sum (run_error topic ''Error running message processor'') id r,
       snd (run_processor C topic processor dm s))" "world (snd (run_processor C topic processor dm s)) = world t'"
    using p by (cases r; simp add: run_processor_def tryCatch_def run_log_def thenDo_logged wrap_run_def Let_def
        thenDo_report raise_eq)+
  show thesis by (rule that [OF _ p run]) simp
qed

lemma on_failure_sends:
  assumes "sends_seen (kc_producer C) V" and "instance_of e C_KafkaConsumerRunError"
  shows "\<exists>s'. on_failure C sub topic dm message e s = (Inr (), s') \<and>
    ob_sent V (world s') = ob_sent V (world s) @ dead_letters C sub topic dm message e \<and>
    ob_cached V (world s') = ob_cached V (world s) \<and> ob_runs V (world s') = ob_runs V (world s)"
proof (cases "sb_dlqRequired sub")
  case False
  then show ?thesis
    using assms(2) by (simp add: on_failure_def as_run_error_def andThen_def returning_eq dead_letters_def)
next
  case True
  note f = on_failure_run_error [OF True assms(2), of C topic dm message s]
  show ?thesis
  proof (cases "dlq_body C dm message")
    case (Inl x)
    have "\<exists>s'. publish_to_dlq C topic dm message e s = (Inr (), s') \<and> world s' = world s"
      using Inl by (simp add: publish_to_dlq_def tryCatch_def run_log_def thenDo_logged andThen_def pure_result_def
          swallow_run_def report_eq)
    then show ?thesis using f True Inl by (auto simp: dead_letters_def)
  next
    case (Inr body)
    obtain s' where s': "publish_to_dlq C topic dm message e s = (Inr (), s')"
      "world s' = snd (kp_send (kc_producer C) (dlq_topic topic) (dlq_out C dm message body e) (world s))"
      using publish_to_dlq_out [OF Inr] by blast
    obtain r w' where "kp_send (kc_producer C) (dlq_topic topic) (dlq_out C dm message body e) (world s) = (r, w')"
      "ob_sent V w' = ob_sent V (world s) @ [(dlq_topic topic, dlq_out C dm message body e)]"
      "ob_cached V w' = ob_cached V (world s)" "ob_runs V w' = ob_runs V (world s)"
      using assms(1) unfolding sends_seen_def by blast
    then show ?thesis using f s' True Inr by (simp add: dead_letters_def)
  qed
qed

lemma offset_new_iff:
  assumes "kc_cache C = Some (R, A)" and "answering_redis R V" and "stores_offset V topic g part w"
  shows "offset_new C topic g part (parse_int (decimal n)) w \<longleftrightarrow> \<not> already_done (log_of V topic g part w) n"
proof -
  obtain w' where "rd_get R (offset_key topic g part) w = (Inr (ob_cached V w (offset_key topic g part)), w')"
    using assms(2) unfolding answering_redis_def by blast
  then show ?thesis
    using assms(1,3)
    by (cases "ob_cached V w (offset_key topic g part)")
      (auto simp: offset_new_def already_done_def log_of_def num_le_def stores_offset_def parse_int_decimal
        decimal_not_Nil)
qed

lemma after_check_unseen:
  assumes "kc_cache C = Some (R, A)" and "answering_redis R V" shows "unseen V w (after_check C topic g part w)"
proof -
  obtain w' where "rd_get R (offset_key topic g part) w = (Inr (ob_cached V w (offset_key topic g part)), w')" "unseen V w w'"
    using assms(2) unfolding answering_redis_def by blast
  then show ?thesis using assms(1) by (simp add: after_check_def)
qed

text \<open>A message that cannot be decoded.\<close>

lemma each_message_undecoded:
  assumes "decoded_to C message (sb_schemaEnabled sub) (world s) = (Inl e, w1)"
  shows "\<exists>s1. world s1 = w1 \<and> each_message C g sub processor topic part hb message s =
    on_failure C sub topic None message (decode_error topic e) s1"
proof -
  let ?s0 = "labelled (kc_apm C) ''kafka_consumer_topic'' (JStr topic) s"
  obtain r s1 where m: "decode_msg C topic message (sb_schemaEnabled sub) ?s0 = (r, s1)"
    by (cases "decode_msg C topic message (sb_schemaEnabled sub) ?s0")
  have "r = Inl (decode_error topic e)" "world s1 = w1"
    using decoding.outcome [of C "(topic, message, sb_schemaEnabled sub)" ?s0]
      decoding.world_after [of C "(topic, message, sb_schemaEnabled sub)" ?s0] m assms by simp_all
  then show ?thesis using m by (auto simp: each_message_def thenDo_labelled andThen_attempt)
qed

lemma refines_undecoded:
  assumes "consumer_laws C sub processor hb decode outcome V" and "decode message = Inl e"
  shows "\<exists>s'. each_message C g sub processor topic part hb message s = (Inr (), s') \<and>
    ob_sent V (world s') = ob_sent V (world s) @ dead_letters C sub topic None message (decode_error topic e) \<and>
    ob_cached V (world s') = ob_cached V (world s) \<and> ob_runs V (world s') = ob_runs V (world s)"
proof -
  obtain w1 where d: "decoded_to C message (sb_schemaEnabled sub) (world s) = (Inl e, w1)" and u: "unseen V (world s) w1"
    using assms unfolding consumer_laws_def decodes_by_def by metis
  obtain s1 where s1: "world s1 = w1" "each_message C g sub processor topic part hb message s =
      on_failure C sub topic None message (decode_error topic e) s1"
    using each_message_undecoded [OF d] by blast
  have "sends_seen (kc_producer C) V" using assms(1) by (simp add: consumer_laws_def)
  from on_failure_sends [OF this, of "decode_error topic e" sub topic None message s1] show ?thesis
    using s1 u by (auto simp: decode_error_def instance_of_wrapped unseen_def)
qed

lemma refines_done:
  assumes "consumer_laws C sub processor hb decode outcome V" and "decode message = Inr dm"
    and "km_offset message = decimal n" and "stores_offset V topic g part (world s)"
    and "already_done (log_of V topic g part (world s)) n"
  shows "\<exists>s'. each_message C g sub processor topic part hb message s = (Inr (), s') \<and> unseen V (world s) (world s')"
proof -
  obtain R A where c: "kc_cache C = Some (R, A)" "answering_redis R V"
    using assms(1) unfolding consumer_laws_def by blast
  obtain w1 where d: "decoded_to C message (sb_schemaEnabled sub) (world s) = (Inr dm, w1)" and u: "unseen V (world s) w1"
    using assms(1,2) unfolding consumer_laws_def decodes_by_def by metis
  obtain s1 where s1: "world s1 = w1" "each_message C g sub processor topic part hb message s =
      tryCatch (handle_decoded C g topic part processor hb message dm) (on_failure C sub topic (Some dm) message) s1"
    using each_message_decoded [OF d] by blast
  have hb: "unseen V w1 (after_heartbeat hb w1)"
    using assms(1) by (simp add: consumer_laws_def after_heartbeat_def)
  note u' = unseen_trans [OF u hb]
  have "stores_offset V topic g part (after_heartbeat hb w1)" using assms(4) stores_offset_unseen [OF u'] by blast
  then have "\<not> offset_new C topic g part (parse_int (km_offset message)) (after_heartbeat hb (world s1))"
    using offset_new_iff [OF c] assms(3,5) log_of_unseen [OF u'] s1(1) by simp
  from handle_decoded_old [OF this, of processor dm] obtain s' where
    "handle_decoded C g topic part processor hb message dm s1 = (Inr (), s')"
    "world s' = after_check C topic g part (after_heartbeat hb (world s1))"
    by blast
  then show ?thesis using s1 unseen_trans [OF u' after_check_unseen [OF c]] by (auto simp: tryCatch_def)
qed

text \<open>A message that is new: its processor runs once, and its outcome decides.\<close>

lemma refines_new:
  assumes "consumer_laws C sub processor hb decode outcome V" and "decode message = Inr dm"
    and "km_offset message = decimal n" and "stores_offset V topic g part (world s)"
    and "\<not> already_done (log_of V topic g part (world s)) n"
  shows "\<exists>s'. each_message C g sub processor topic part hb message s = (Inr (), s') \<and>
    ob_runs V (world s') = ob_runs V (world s) @ [(dm, outcome (ob_runs V (world s)) dm)] \<and>
    (case outcome (ob_runs V (world s)) dm of
       Inr _ \<Rightarrow> ob_cached V (world s') = (ob_cached V (world s))(offset_key topic g part \<mapsto> decimal n) \<and>
         ob_sent V (world s') = ob_sent V (world s)
     | Inl e \<Rightarrow> ob_cached V (world s') = ob_cached V (world s) \<and>
         ob_sent V (world s') = ob_sent V (world s) @ dead_letters C sub topic (Some dm) message
           (run_error topic ''Error running message processor'' e))"
proof -
  obtain R A where c: "kc_cache C = Some (R, A)" "answering_redis R V"
    using assms(1) unfolding consumer_laws_def by blast
  obtain w1 where d: "decoded_to C message (sb_schemaEnabled sub) (world s) = (Inr dm, w1)" and u: "unseen V (world s) w1"
    using assms(1,2) unfolding consumer_laws_def decodes_by_def by metis
  obtain s1 where s1: "world s1 = w1" "each_message C g sub processor topic part hb message s =
      tryCatch (handle_decoded C g topic part processor hb message dm) (on_failure C sub topic (Some dm) message) s1"
    using each_message_decoded [OF d] by blast
  have hb: "unseen V w1 (after_heartbeat hb w1)"
    using assms(1) by (simp add: consumer_laws_def after_heartbeat_def)
  note u' = unseen_trans [OF u hb]
  have "stores_offset V topic g part (after_heartbeat hb w1)" using assms(4) stores_offset_unseen [OF u'] by blast
  then have "offset_new C topic g part (parse_int (km_offset message)) (after_heartbeat hb (world s1))"
    using offset_new_iff [OF c] assms(3,5) log_of_unseen [OF u'] s1(1) by simp
  from handle_decoded_new [OF this, of processor dm] obtain s2 where
    s2: "world s2 = after_check C topic g part (after_heartbeat hb w1)"
    "handle_decoded C g topic part processor hb message dm s1 =
      thenDo (run_processor C topic processor dm) (publish_offset C topic g part (km_offset message)) s2"
    using s1(1) by auto
  have u2: "unseen V (world s) (world s2)" using unseen_trans [OF u' after_check_unseen [OF c]] s2(1) by simp
  obtain r t t' s3 where t: "world t = world s2" "processor dm t = (r, t')"
    "run_processor C topic processor dm s2 = (map_sum (run_error topic ''Error running message processor'') id r, s3)"
    "world s3 = world t'"
    by (rule run_processor_result)
  have "observed_processor processor outcome V" using assms(1) by (simp add: consumer_laws_def)
  from this [unfolded observed_processor_def, rule_format, of dm t]
  have r: "r = outcome (ob_runs V (world s)) dm" "ob_runs V (world s3) = ob_runs V (world s) @ [(dm, r)]"
    "ob_cached V (world s3) = ob_cached V (world s)" "ob_sent V (world s3) = ob_sent V (world s)"
    using t(1,2,4) u2 by (auto simp: unseen_def)
  show ?thesis
  proof (cases r)
    case (Inr v)
    obtain s4 where s4: "publish_offset C topic g part (km_offset message) s3 = (Inr (), s4)"
      "world s4 = snd (rd_set R [JStr (offset_key topic g part), JStr (decimal n)] (world s3))"
      using publish_offset_world [of C topic g part "km_offset message" s3] c(1) assms(3) by auto
    obtain x w where "rd_set R [JStr (offset_key topic g part), JStr (decimal n)] (world s3) = (x, w)"
      "ob_cached V w = (ob_cached V (world s3))(offset_key topic g part \<mapsto> decimal n)"
      "ob_runs V w = ob_runs V (world s3)" "ob_sent V w = ob_sent V (world s3)"
      using c(2) unfolding answering_redis_def by blast
    moreover have "each_message C g sub processor topic part hb message s = (Inr (), s4)"
      using s1(2) s2(2) t(3) s4(1) Inr by (simp add: tryCatch_def thenDo_def andThen_def)
    ultimately show ?thesis using r(2-4) s4(2) unfolding r(1) [symmetric] by (simp add: Inr)
  next
    case (Inl e)
    let ?err = "run_error topic ''Error running message processor'' e"
    have "each_message C g sub processor topic part hb message s = on_failure C sub topic (Some dm) message ?err s3"
      using s1(2) s2(2) t(3) Inl by (simp add: tryCatch_def thenDo_def andThen_def)
    moreover have "sends_seen (kc_producer C) V" using assms(1) by (simp add: consumer_laws_def)
    ultimately show ?thesis
      using on_failure_sends [of C V ?err sub topic "Some dm" message s3] instance_of_wrapped r(2-4) unfolding r(1) [symmetric]
      by (auto simp: Inl)
  qed
qed

subsection \<open>The consumer takes the log's steps\<close>

lemma each_message_log_step:
  assumes "consumer_laws C sub processor hb decode outcome V" and "stores_offset V topic g part (world s)"
    and "km_offset message = decimal n"
  shows "\<exists>s'. each_message C g sub processor topic part hb message s = (Inr (), s') \<and>
    log_of V topic g part (world s') = log_step C sub topic decode outcome (n, message) (log_of V topic g part (world s)) \<and>
    stores_offset V topic g part (world s')"
proof (cases "decode message")
  case (Inl e)
  then show ?thesis
    using refines_undecoded [OF assms(1) Inl, of g topic part s] assms(2)
    by (fastforce simp: log_of_def log_step_def stores_offset_def)
next
  case (Inr dm)
  show ?thesis
  proof (cases "already_done (log_of V topic g part (world s)) n")
    case True
    from refines_done [OF assms(1) Inr assms(3,2) True] show ?thesis
      using Inr True assms(2) by (auto simp: log_step_def log_of_unseen stores_offset_unseen)
  next
    case False
    let ?r = "outcome (ob_runs V (world s)) dm"
    from refines_new [OF assms(1) Inr assms(3,2) False] obtain s' where s':
      "each_message C g sub processor topic part hb message s = (Inr (), s')"
      "ob_runs V (world s') = ob_runs V (world s) @ [(dm, ?r)]"
      "case ?r of
         Inr _ \<Rightarrow> ob_cached V (world s') = (ob_cached V (world s))(offset_key topic g part \<mapsto> decimal n) \<and>
           ob_sent V (world s') = ob_sent V (world s)
       | Inl e \<Rightarrow> ob_cached V (world s') = ob_cached V (world s) \<and>
           ob_sent V (world s') = ob_sent V (world s) @ dead_letters C sub topic (Some dm) message
             (run_error topic ''Error running message processor'' e)"
      by blast
    have "pl_runs (log_of V topic g part (world s)) = ob_runs V (world s)"
      "pl_sent (log_of V topic g part (world s)) = ob_sent V (world s)"
      by (simp_all add: log_of_def)
    then show ?thesis
      using s' Inr False assms(2)
      by (cases ?r) (auto simp: log_step_def Let_def, auto simp: log_of_def stores_offset_def parse_int_decimal)
  qed
qed

lemma for_each_log_steps:
  assumes "consumer_laws C sub processor hb decode outcome V" and "stores_offset V topic g part (world s)"
    and "\<forall>(n, message) \<in> set messages. km_offset message = decimal n"
  shows "\<exists>s'. for_each (each_message C g sub processor topic part hb) (map snd messages) s = (Inr (), s') \<and>
    log_of V topic g part (world s') =
      fold (log_step C sub topic decode outcome) messages (log_of V topic g part (world s))"
  using assms(2,3)
proof (induction messages arbitrary: s)
  case Nil
  then show ?case by (simp add: returning_eq)
next
  case (Cons m messages)
  obtain n message where m: "m = (n, message)" by (cases m)
  obtain s1 where s1: "each_message C g sub processor topic part hb message s = (Inr (), s1)"
    "log_of V topic g part (world s1) = log_step C sub topic decode outcome m (log_of V topic g part (world s))"
    "stores_offset V topic g part (world s1)"
    using each_message_log_step [OF assms(1) Cons.prems(1), of message n] Cons.prems(2) m by auto
  then show ?case using Cons.IH [OF s1(3)] Cons.prems(2) m by (simp add: thenDo_def andThen_def)
qed

text \<open>
  C9: The consumer implements the partition log. With a cache whose Redis answers, handling any
  sequence of messages of a partition -- repeated, out of order, undecodable, failing -- returns, and changes the offset
  kept, the runs of the processor and the messages handed to the producer's \<open>send\<close>, whether or not the broker accepts them,
  exactly as folding the log's step over the messages does.
\<close>

theorem consumer_refines_partition_log:
  assumes "consumer_laws C sub processor hb decode outcome V" and "stores_offset V topic g part (world s)"
    and "\<forall>(n, message) \<in> set messages. km_offset message = decimal n"
  shows "\<exists>s'. for_each (each_message C g sub processor topic part hb) (map snd messages) s = (Inr (), s') \<and>
    log_of V topic g part (world s') =
      fold (log_step C sub topic decode outcome) messages (log_of V topic g part (world s))"
  by (rule for_each_log_steps [OF assms])

subsection \<open>Redelivery\<close>

text \<open>A run of the processor with the offset of its message.\<close>

type_synonym numbered_run = "nat \<times> run"

text \<open>The messages that can be decoded, and the offset of the last run that returned.\<close>

fun decodable :: "('b kafka_message \<Rightarrow> exn + decoded_msg) \<Rightarrow> (nat \<times> 'b kafka_message) list \<Rightarrow> (nat \<times> decoded_msg) list" where
  "decodable decode [] = []"
| "decodable decode ((n, message) # messages) =
    (case decode message of Inl e \<Rightarrow> decodable decode messages | Inr dm \<Rightarrow> (n, dm) # decodable decode messages)"

fun last_success :: "nat option \<Rightarrow> numbered_run list \<Rightarrow> nat option" where
  "last_success k [] = k"
| "last_success k ((n, dm, r) # runs) = last_success (case r of Inl e \<Rightarrow> k | Inr u \<Rightarrow> Some n) runs"

text \<open>No run at or below the offset of an earlier run that returned.\<close>

definition succeeds_once :: "numbered_run list \<Rightarrow> bool" where
  "succeeds_once runs \<longleftrightarrow> sorted_wrt (\<lambda>(n, dm, r) (k, dm', r'). r = Inr () \<longrightarrow> n < k) runs"

lemma log_step_done: "already_done L n \<Longrightarrow> already_done (log_step C sub topic decode outcome m L) n"
  by (cases m) (auto simp: log_step_def Let_def already_done_def split: sum.splits option.splits)

lemma log_steps_done: "already_done L n \<Longrightarrow> already_done (fold (log_step C sub topic decode outcome) messages L) n"
  by (induction messages arbitrary: L) (auto intro: log_step_done)

text \<open>The runs that a sequence of messages adds to the log.\<close>

definition log_runs ::
  "('b kafka_message \<Rightarrow> exn + decoded_msg) \<Rightarrow> (nat \<times> 'b kafka_message) list \<Rightarrow> 'b partition_log \<Rightarrow> 'b partition_log \<Rightarrow>
   numbered_run list \<Rightarrow> bool" where
  "log_runs decode messages L L' runs \<longleftrightarrow>
    pl_runs L' = pl_runs L @ map snd runs \<and> subseq (map (\<lambda>(n, dm, r). (n, dm)) runs) (decodable decode messages) \<and>
    succeeds_once runs \<and> (\<forall>(n, run) \<in> set runs. \<not> already_done L n) \<and>
    (\<forall>(n, dm) \<in> set (decodable decode messages). (\<exists>r. (n, dm, r) \<in> set runs) \<or> already_done L' n) \<and>
    pl_last L' = last_success (pl_last L) runs"

lemma log_runs_success:
  assumes "log_runs decode messages L1 L' runs" and "pl_runs L1 = pl_runs L @ [(dm, Inr ())]" and "pl_last L1 = Some n"
    and "\<not> already_done L n" and "decode message = Inr dm"
  shows "log_runs decode ((n, message) # messages) L L' ((n, dm, Inr ()) # runs)"
proof -
  have later: "\<forall>(k, run) \<in> set runs. n < k" using assms(1,3) by (auto simp: log_runs_def already_done_def)
  then have "\<forall>(k, run) \<in> set runs. \<not> already_done L k"
    using assms(4) by (fastforce simp: already_done_def split: option.splits)
  moreover have "succeeds_once ((n, dm, Inr ()) # runs)"
    using later assms(1) by (auto simp: log_runs_def succeeds_once_def)
  ultimately show ?thesis using assms by (simp add: log_runs_def) blast
qed

lemma log_runs_failure:
  assumes "log_runs decode messages L1 L' runs" and "pl_runs L1 = pl_runs L @ [(dm, Inl e)]" and "pl_last L1 = pl_last L"
    and "\<not> already_done L n" and "decode message = Inr dm"
  shows "log_runs decode ((n, message) # messages) L L' ((n, dm, Inl e) # runs)"
  using assms by (fastforce simp: log_runs_def succeeds_once_def already_done_def)

lemma log_runs_dropped:
  assumes "log_runs decode messages L1 L' runs" and "pl_runs L1 = pl_runs L" and "pl_last L1 = pl_last L"
    and "\<And>dm. decode message = Inr dm \<Longrightarrow> already_done L' n"
  shows "log_runs decode ((n, message) # messages) L L' runs"
  using assms by (auto simp: log_runs_def already_done_def split: sum.split)

lemma log_steps_runs:
  "\<exists>runs. log_runs decode messages L (fold (log_step C sub topic decode outcome) messages L) runs"
proof (induction messages arbitrary: L)
  case Nil
  then show ?case by (intro exI [of _ "[]"]) (simp add: log_runs_def succeeds_once_def)
next
  case (Cons m messages)
  obtain n message where m: "m = (n, message)" by (cases m)
  let ?L1 = "log_step C sub topic decode outcome m L"
  obtain runs where runs: "log_runs decode messages ?L1 (fold (log_step C sub topic decode outcome) (m # messages) L) runs"
    using Cons.IH [of ?L1] by auto
  consider (undecoded) e where "decode message = Inl e" | (old) dm where "decode message = Inr dm" "already_done L n"
    | (new) dm where "decode message = Inr dm" "\<not> already_done L n"
    by (cases "decode message") blast+
  then show ?case
  proof cases
    case undecoded
    then have "pl_runs ?L1 = pl_runs L" "pl_last ?L1 = pl_last L" using m by (simp_all add: log_step_def)
    from log_runs_dropped [OF runs this, where message = message and n = n] undecoded show ?thesis unfolding m by auto
  next
    case old
    then have "pl_runs ?L1 = pl_runs L" "pl_last ?L1 = pl_last L" using m by (simp_all add: log_step_def)
    from log_runs_dropped [OF runs this log_steps_done [OF old(2)]] show ?thesis unfolding m by blast
  next
    case new
    let ?r = "outcome (pl_runs L) dm"
    show ?thesis
    proof (cases ?r)
      case (Inr u)
      then have "pl_runs ?L1 = pl_runs L @ [(dm, Inr ())]" "pl_last ?L1 = Some n"
        using new m by (simp_all add: log_step_def Let_def)
      from log_runs_success [OF runs this new(2,1)] show ?thesis unfolding m by blast
    next
      case (Inl e)
      then have "pl_runs ?L1 = pl_runs L @ [(dm, Inl e)]" "pl_last ?L1 = pl_last L"
        using new m by (simp_all add: log_step_def Let_def)
      from log_runs_failure [OF runs this new(2,1)] show ?thesis unfolding m by blast
    qed
  qed
qed

text \<open>
  C10: With the offset cache, an offset succeeds at most once. Let a consumer that is configured with a Redis that answers every read
  and stores every write handle any messages of a partition -- delivered again, out of order, undecodable, with a processor that may
  throw, depending on the message and its own earlier runs. Then the
  handler returns, and the runs of the processor are of decodable messages, in the order of their delivery, beyond the
  offset that was stored; once a run has returned, no message with its offset or a lower one is run again, while a message that failed may
  be; every decodable message has been run or is at or below the offset stored at the end, which is that of the last run that
  returned. (The consumer of the application
  itself has no cache.)
\<close>

theorem messages_succeed_at_most_once:
  assumes "consumer_laws C sub processor hb decode outcome V" and "stores_offset V topic g part (world s)"
    and "\<forall>(n, message) \<in> set messages. km_offset message = decimal n"
  shows "\<exists>s' runs. for_each (each_message C g sub processor topic part hb) (map snd messages) s = (Inr (), s') \<and>
    ob_runs V (world s') = ob_runs V (world s) @ map snd runs \<and>
    subseq (map (\<lambda>(n, dm, r). (n, dm)) runs) (decodable decode messages) \<and>
    sorted_wrt (\<lambda>(n, dm, r) (k, dm', r'). r = Inr () \<longrightarrow> n < k) runs \<and>
    (\<forall>(n, run) \<in> set runs. \<not> already_done (log_of V topic g part (world s)) n) \<and>
    (\<forall>(n, dm) \<in> set (decodable decode messages).
       (\<exists>r. (n, dm, r) \<in> set runs) \<or> already_done (log_of V topic g part (world s')) n) \<and>
    pl_last (log_of V topic g part (world s')) = last_success (pl_last (log_of V topic g part (world s))) runs"
proof -
  obtain s' where s': "for_each (each_message C g sub processor topic part hb) (map snd messages) s = (Inr (), s')"
    "log_of V topic g part (world s') =
      fold (log_step C sub topic decode outcome) messages (log_of V topic g part (world s))"
    using for_each_log_steps [OF assms] by blast
  obtain runs where "log_runs decode messages (log_of V topic g part (world s)) (log_of V topic g part (world s')) runs"
    unfolding s'(2) using log_steps_runs by blast
  moreover have "pl_runs (log_of V topic g part w) = ob_runs V w" for w by (simp add: log_of_def)
  ultimately show ?thesis
    using s'(1) unfolding log_runs_def succeeds_once_def
    by (intro exI [of _ s'] exI [of _ runs]) (simp del: for_each.simps)
qed

subsection \<open>The statements in a concrete world\<close>

text \<open>The contents of Redis, the messages sent, the runs of the processor.\<close>

type_synonym log_world = "(string \<Rightarrow> string option) \<times> (string \<times> string out_message) list \<times> run list"

definition log_observer :: "(log_world, string) observer" where
  "log_observer = \<lparr>ob_cached = fst, ob_runs = (\<lambda>w. snd (snd w)), ob_sent = (\<lambda>w. fst (snd w))\<rparr>"

definition log_redis :: "log_world ioredis" where
  "log_redis =
    \<lparr>rd_get = (\<lambda>k (c, w). (Inr (c k), (c, w))),
     rd_set = (\<lambda>args (c, w). case args of
        [JStr k, JStr v] \<Rightarrow> (Inr (JStr ''OK''), (c(k \<mapsto> v), w)) | _ \<Rightarrow> (Inl (new_Error ''ERR''), (c, w))),
     rd_keys = (\<lambda>p w. (Inr [], w)), rd_disconnect = (\<lambda>w. (Inr (), w)), rd_setname = (\<lambda>n w. (Inr (), w))\<rparr>"

definition log_service :: "(log_world, string, nat) kafka_consumer_service" where
  "log_service =
    \<lparr>kc_client = \<lparr>kl_consumer = (\<lambda>o' w. (Inr 0, w)), kl_connect = (\<lambda>c w. (Inr (), w)),
       kl_subscribe = (\<lambda>c t w. (Inr (), w)), kl_run = (\<lambda>c w. (Inr (), w)), kl_disconnect = (\<lambda>c w. (Inr (), w))\<rparr>,
     kc_producer =
       \<lparr>kp_connect = (\<lambda>w. (Inr (), w)), kp_disconnect = (\<lambda>w. (Inr (), w)),
        kp_send = (\<lambda>t m (c, sent, p). (Inr JUndef, (c, sent @ [(t, m)], p))), kp_registry = None\<rparr>,
     kc_decoder = None, kc_cache = Some (log_redis, quiet_apm), kc_apm = quiet_apm, kc_text = (\<lambda>t. t),
     kc_json = sample_json, kc_error_json = (\<lambda>e. JObj [])\<rparr>"

definition log_handler :: "(run list \<Rightarrow> decoded_msg \<Rightarrow> exn + unit) \<Rightarrow> decoded_msg \<Rightarrow> (log_world, unit) act" where
  "log_handler outcome dm = external (\<lambda>(c, sent, p). (outcome p dm, (c, sent, p @ [(dm, outcome p dm)])))"

definition log_decode :: "string kafka_message \<Rightarrow> exn + decoded_msg" where
  "log_decode message = fst (decoded_to log_service message False (Map.empty, [], []))"

definition log_start :: "log_world rt" where
  "log_start =
    \<lparr>world = (Map.empty(''t:g:0'' \<mapsto> ''7''), [], []), files = \<lparr>is_dir = (\<lambda>q. q = []), file_at = Map.empty\<rparr>,
     log_lines = [], apm_events = []\<rparr>"

definition silent_heartbeat :: "(log_world, unit) call" where
  "silent_heartbeat w = (Inr (), w)"

definition fails_on_fail :: "run list \<Rightarrow> decoded_msg \<Rightarrow> exn + unit" where
  "fails_on_fail h dm = (if dm_key dm = ''fail'' then Inl (new_Error ''boom'') else Inr ())"

lemma log_decodes: "decoded_to log_service message False w = (log_decode message, w)"
  by (simp add: log_decode_def decoded_to_def log_service_def Let_def split: option.split)

lemma log_laws:
  "consumer_laws log_service sample_subscription (log_handler outcome) silent_heartbeat log_decode outcome log_observer"
proof -
  have "answering_redis log_redis log_observer"
    by (simp add: answering_redis_def log_redis_def log_observer_def unseen_def)
  moreover have "sends_seen (kc_producer log_service) log_observer"
    by (auto simp: sends_seen_def log_service_def log_observer_def)
  moreover have "observed_processor (log_handler outcome) outcome log_observer"
    by (auto simp: observed_processor_def log_handler_def log_observer_def external_def split: prod.splits)
  moreover have "decodes_by log_service (sb_schemaEnabled sample_subscription) log_decode log_observer"
    using log_decodes by (auto simp: decodes_by_def sample_subscription_def unseen_refl)
  ultimately show ?thesis
    by (simp add: consumer_laws_def unseen_refl silent_heartbeat_def) (simp add: log_service_def)
qed

lemma log_start_stores: "stores_offset log_observer ''t'' ''g'' 0 (world log_start)"
  unfolding stores_offset_def sample_key log_start_def log_observer_def using sample_seven [symmetric] by simp blast

lemma log_start_log: "log_of log_observer ''t'' ''g'' 0 (world log_start) = \<lparr>pl_last = Some 7, pl_runs = [], pl_sent = []\<rparr>"
  unfolding log_of_def sample_key by code_simp

lemma log_decode_sample: "log_decode (sample_message k v n) = Inr (sample_decoded k v)"
  by (simp add: log_decode_def decoded_to_def log_service_def sample_message_def sample_decoded_def value_text_def
      nullish_def parse_message_headers_def Let_def json_parse_value del: json_value.simps)

theorem consumer_refines_partition_log_witness:
  "\<exists>s' m. for_each (each_message log_service ''g'' sample_subscription (log_handler fails_on_fail) ''t'' 0 silent_heartbeat)
      [sample_message ''old'' ''v'' 5, sample_message ''a'' ''v'' 9, sample_message ''a'' ''v'' 9,
       sample_message ''fail'' ''v'' 10] log_start = (Inr (), s') \<and>
    log_of log_observer ''t'' ''g'' 0 (world s') =
      \<lparr>pl_last = Some 9,
       pl_runs = [(sample_decoded ''a'' ''v'', Inr ()), (sample_decoded ''fail'' ''v'', Inl (new_Error ''boom''))],
       pl_sent = [(''t.DLQ'', m)]\<rparr>"
proof -
  let ?ms = "[(5, sample_message ''old'' ''v'' 5), (9, sample_message ''a'' ''v'' 9), (9, sample_message ''a'' ''v'' 9),
    (10 :: nat, sample_message ''fail'' ''v'' 10)]"
  have "\<forall>(n, message) \<in> set ?ms. km_offset message = decimal n" by (simp add: sample_offset)
  from consumer_refines_partition_log [OF log_laws log_start_stores this, of fails_on_fail] obtain s' where
    run: "for_each (each_message log_service ''g'' sample_subscription (log_handler fails_on_fail) ''t'' 0 silent_heartbeat)
      (map snd ?ms) log_start = (Inr (), s')"
    and log: "log_of log_observer ''t'' ''g'' 0 (world s') = fold (log_step log_service sample_subscription ''t'' log_decode
      fails_on_fail) ?ms \<lparr>pl_last = Some 7, pl_runs = [], pl_sent = []\<rparr>"
    unfolding log_start_log by blast
  have "\<exists>m. log_of log_observer ''t'' ''g'' 0 (world s') =
      \<lparr>pl_last = Some 9,
       pl_runs = [(sample_decoded ''a'' ''v'', Inr ()), (sample_decoded ''fail'' ''v'', Inl (new_Error ''boom''))],
       pl_sent = [(''t.DLQ'', m)]\<rparr>"
    unfolding log by (simp add: log_step_def log_decode_sample already_done_def fails_on_fail_def sample_decoded_def
        Let_def dead_letters_def dlq_body_def sample_subscription_def dlq_topic_def)
  then show ?thesis using run by (simp del: for_each.simps)
qed

theorem messages_succeed_at_most_once_witness:
  "\<exists>s' runs. for_each (each_message log_service ''g'' sample_subscription (log_handler fails_on_fail) ''t'' 0 silent_heartbeat)
      [sample_message ''a'' ''v'' 8, sample_message ''fail'' ''v'' 9, sample_message ''fail'' ''v'' 9,
       sample_message ''a'' ''v'' 8] log_start = (Inr (), s') \<and>
    ob_runs log_observer (world s') = map snd runs \<and>
    sorted_wrt (\<lambda>(n, dm, r) (k, dm', r'). r = Inr () \<longrightarrow> n < k) runs \<and> length runs \<le> 4 \<and>
    pl_last (log_of log_observer ''t'' ''g'' 0 (world s')) = last_success (Some 7) runs"
proof -
  let ?ms = "[(8, sample_message ''a'' ''v'' 8), (9, sample_message ''fail'' ''v'' 9), (9, sample_message ''fail'' ''v'' 9),
    (8 :: nat, sample_message ''a'' ''v'' 8)]"
  have offsets: "\<forall>(n, message) \<in> set ?ms. km_offset message = decimal n" by (simp add: sample_offset)
  have "ob_runs log_observer (world log_start) = []" by (simp add: log_observer_def log_start_def)
  with messages_succeed_at_most_once [OF log_laws log_start_stores offsets, of fails_on_fail] obtain s' runs where
    "for_each (each_message log_service ''g'' sample_subscription (log_handler fails_on_fail) ''t'' 0 silent_heartbeat)
      (map snd ?ms) log_start = (Inr (), s')" "ob_runs log_observer (world s') = map snd runs"
    "sorted_wrt (\<lambda>(n, dm, r) (k, dm', r'). r = Inr () \<longrightarrow> n < k) runs"
    "subseq (map (\<lambda>(n, dm, r). (n, dm)) runs) (decodable log_decode ?ms)"
    "pl_last (log_of log_observer ''t'' ''g'' 0 (world s')) = last_success (Some 7) runs"
    unfolding log_start_log by auto
  moreover from this(4) have "length runs \<le> 4"
    using list_emb_length [of "(=)" "map (\<lambda>(n, dm, r). (n, dm)) runs"] by (fastforce simp: log_decode_sample)
  ultimately show ?thesis by (simp del: for_each.simps) blast
qed

end
