(* ===== verification/Backlog.thy ===== *)
theory Backlog
  imports KafkaSetup
begin

text \<open>
  The consumer process over a whole backlog: the deliveries of a partition, each the message of a request, in any order and with
  repetitions, run one after the other through the handler that the application subscribes with. Processing one request
  does not touch the others, so every request ends, or a dead letter of it was sent. The broker is not trusted to take it:
  the history of the sends says what it answered.
\<close>

subsection \<open>Processing one request leaves the others alone\<close>

lemma update_other_doc:
  assumes "write_laws M docs" and "j \<noteq> i" and "update_request M i u d = (r, d')"
  shows "docs d' j = docs d j"
  by (rule any_update [OF assms(1,3)]) (use assms(2) in simp_all)

lemma keeps_other_update:
  assumes "write_laws M docs" and "j \<noteq> i"
  shows "keeps (\<lambda>s. docs (db_of s) j) (on_db (update_request M i u))"
  unfolding keeps_def
proof
  fix s
  obtain r s' where s': "on_db (update_request M i u) s = (r, s')" by (cases "on_db (update_request M i u) s")
  show "docs (db_of (snd (on_db (update_request M i u) s))) j = docs (db_of s) j"
    using update_other_doc [OF assms on_db_state [OF s']] s' by simp
qed

lemma keeps_of_db: "keeps db_of m \<Longrightarrow> keeps (\<lambda>s. f (db_of s)) m"
  by (simp add: keeps_def)

lemma process_keeps_others:
  assumes "write_laws (ip_model P) docs" and "j \<noteq> pr_requestId req"
  shows "keeps (\<lambda>s. docs (db_of s) j) (process P req)"
proof -
  note updates = keeps_other_update [OF assms]
  note base = keeps_of_db [where f = "\<lambda>d. docs d j"]
  have "keeps (\<lambda>s. docs (db_of s) j) (process_body P req)"
    unfolding process_body_def Let_def update_request_processing_status_def update_request_success_status_def
      update_status_request call_webhook_def delete_directory_def
    by (intro keeps_thenDo keeps_andThen updates base keeps_db_process_products keeps_db_base)
  moreover have "keeps (\<lambda>s. docs (db_of s) j) (handle_error P (pr_requestId req) e)" for e
    unfolding handle_error_def Let_def update_status_request delete_directory_def
    by (intro keeps_thenDo keeps_returning updates base keeps_db_base)
  ultimately show ?thesis unfolding process_def by (rule keeps_tryCatch)
qed

subsection \<open>The history of the sends\<close>

text \<open>
  A history: the calls of the producer's \<open>send\<close>, with the topic and the message, and whether the broker accepted it, that
  is, the call did not reject.
\<close>

type_synonym 'b send_history = "(string \<times> 'b out_message \<times> bool) list"

definition accepted :: "exn + 'a \<Rightarrow> bool" where
  "accepted r = (case r of Inl e \<Rightarrow> False | Inr x \<Rightarrow> True)"

text \<open>
  \<open>sent\<close> is the history of a producer: each call adds its entry, with the producer's own answer. Nothing is assumed of the
  answers: any producer gets its history from a recording around it.
\<close>

definition records_sends :: "('h, 'b) kafka_producer \<Rightarrow> ('h \<Rightarrow> 'b send_history) \<Rightarrow> bool" where
  "records_sends K sent \<longleftrightarrow>
    (\<forall>t m h. sent (snd (kp_send K t m h)) = sent h @ [(t, m, accepted (fst (kp_send K t m h)))])"

definition recording_send ::
  "('h, 'b) kafka_producer \<Rightarrow> string \<Rightarrow> 'b out_message \<Rightarrow> ('h \<times> 'b send_history, jv) call" where
  "recording_send K t m = (\<lambda>(h, sends).
    case kp_send K t m h of (r, h') \<Rightarrow> (r, (h', sends @ [(t, m, accepted r)])))"

lemma any_producer_recorded:
  "kp_send L = recording_send K \<Longrightarrow> records_sends L snd \<and>
    fst (kp_send L t m (h, sends)) = fst (kp_send K t m h) \<and> fst (snd (kp_send L t m (h, sends))) = snd (kp_send K t m h)"
  by (auto simp: records_sends_def recording_send_def split: prod.splits)

text \<open>The other services do not call the producer.\<close>

definition sends_nothing :: "'h net_lib \<Rightarrow> ('h, unit) call \<Rightarrow> ('h \<Rightarrow> 'm list) \<Rightarrow> bool" where
  "sends_nothing N hb sent \<longleftrightarrow>
    (\<forall>url h. sent (snd (net_get N url h)) = sent h) \<and> (\<forall>url b hs h. sent (snd (net_put N url b hs h)) = sent h) \<and>
    (\<forall>url t hs h. sent (snd (net_post N url t hs h)) = sent h) \<and> (\<forall>h. sent (snd (net_uuid N h)) = sent h) \<and>
    (\<forall>h. sent (snd (hb h)) = sent h)"

lemma keeps_sent_base:
  "keeps (\<lambda>s. f (queue_of s)) (log_to k l t vs)" "keeps (\<lambda>s. f (queue_of s)) (on_files c)"
  "keeps (\<lambda>s. f (queue_of s)) (on_db c')" "keeps (\<lambda>s. f (queue_of s)) (file_content p)"
  by (simp_all add: keeps_def queue_of_def log_to_def on_files_def on_db_def external_def file_content_def split: prod.splits)

lemma keeps_sent_net: "(\<And>h. f (snd (c h)) = f h) \<Longrightarrow> keeps (\<lambda>s. f (queue_of s)) (on_net c)"
  by (auto simp: keeps_def queue_of_def on_net_def external_def split: prod.splits) (metis snd_conv)

lemmas keeps_sent = keeps_sent_base keeps_if keeps_andThen keeps_thenDo keeps_tryCatch keeps_returning
  keeps_raise keeps_pure

lemma keeps_sent_process_image:
  assumes "sends_nothing (ip_http P) hb sent"
  shows "keeps (\<lambda>s. sent (queue_of s)) (process_image P r n u)"
proof -
  have net: "keeps (\<lambda>s. sent (queue_of s)) (on_net (net_get (ip_http P) url))"
    "keeps (\<lambda>s. sent (queue_of s)) (on_net (net_put (ip_http P) url b hs))"
    "keeps (\<lambda>s. sent (queue_of s)) (on_net (\<lambda>h. case net_uuid (ip_http P) h of (u, h') \<Rightarrow> (Inr u, h')))" for url b hs
    using assms by (auto simp: sends_nothing_def intro!: keeps_sent_net split: prod.splits) (metis snd_conv)+
  have "keeps (\<lambda>s. sent (queue_of s)) (download_image P r u)"
    unfolding download_image_def get_file_name_def Let_def by (intro keeps_sent net)
  moreover have "keeps (\<lambda>s. sent (queue_of s)) (convert_image_quality P p)" for p
    unfolding convert_image_quality_def encode_to_file_def Let_def
    by (intro keeps_sent) (auto intro!: keeps_sent split: option.split)
  moreover have "keeps (\<lambda>s. sent (queue_of s)) (upload_file P r n u p)" for p
    unfolding upload_file_def by (intro keeps_sent net)
  ultimately show ?thesis unfolding process_image_def delete_file_def by (intro keeps_sent)
qed

lemma process_keeps_sent:
  assumes "sends_nothing (ip_http P) hb sent"
  shows "keeps (\<lambda>s. sent (queue_of s)) (process P req)"
proof -
  have urls: "keeps (\<lambda>s. sent (queue_of s)) (process_urls P r n p outs us)" for r n p outs us
    by (induction us arbitrary: outs)
      (auto simp: image_log_def intro!: keeps_sent keeps_sent_process_image [OF assms])
  have products: "keeps (\<lambda>s. sent (queue_of s)) (process_products P r done ps)" for r "done" ps
    by (induction ps arbitrary: "done") (auto intro!: keeps_sent urls)
  have "keeps (\<lambda>s. sent (queue_of s)) (on_net (net_post (ip_http P) url t hs))" for url t hs
    using assms by (auto simp: sends_nothing_def intro!: keeps_sent_net)
  then show ?thesis
    unfolding process_def process_body_def handle_error_def Let_def update_request_processing_status_def
      update_request_success_status_def call_webhook_def delete_directory_def
    by (intro keeps_sent products)
qed

subsection \<open>One delivery\<close>

text \<open>A delivery: the request that was published, the message as it arrives, and what it is decoded to.\<close>

record 'b delivery =
  de_request :: processing_request
  de_message :: "'b kafka_message"
  de_decoded :: decoded_msg

text \<open>
  The message is that of the request: the registry decodes it to the value that was published, in any state, and sends
  nothing.
\<close>

definition delivers ::
  "('h, 'b, 'c) kafka_consumer_service \<Rightarrow> ('h \<Rightarrow> 'b send_history) \<Rightarrow> 'b delivery \<Rightarrow> bool" where
  "delivers C sent x \<longleftrightarrow>
    (\<forall>h. \<exists>h1. decoded_to C (de_message x) True h = (Inr (de_decoded x), h1) \<and> sent h1 = sent h) \<and>
    dm_value (de_decoded x) = qm_value (processing_message (pr_requestId (de_request x)) (pr_products (de_request x))
      (pr_webhookUrl (de_request x))) \<and>
    (\<exists>body. dm_value_text (de_decoded x) = Inr body) \<and> well_formed_products (pr_products (de_request x))"

text \<open>A request has ended: it is Failed, or Succeeded with one output for each image.\<close>

definition ended ::
  "('d, 'h) image_processor \<Rightarrow> ('d \<Rightarrow> string \<Rightarrow> request_doc option) \<Rightarrow> processing_request \<Rightarrow> 'd \<Rightarrow> bool" where
  "ended P docs req d \<longleftrightarrow>
    (\<exists>r. docs d (pr_requestId req) = Some r \<and>
      (rq_status r = FAILED \<or>
       rq_status r = SUCCEEDED \<and>
         (\<exists>processed. list_all2 (completed_entry P (pr_requestId req)) (pr_products req) processed \<and>
           rq_products r = output_docs processed)))"

text \<open>The history has a send of the delivery's message to the dead letter queue of the topic, accepted by the broker or refused.\<close>

definition dead_lettered ::
  "('h, 'b, 'c) kafka_consumer_service \<Rightarrow> messaging_config \<Rightarrow> 'b delivery \<Rightarrow> bool \<Rightarrow> 'b send_history \<Rightarrow> bool" where
  "dead_lettered C cfg x ok sends \<longleftrightarrow>
    (\<exists>body e. (mc_topic cfg @ ''.DLQ'', dlq_out C (Some (de_decoded x)) (de_message x) body
      (run_error (mc_topic cfg) ''Error running message processor'' e), ok) \<in> set sends)"

text \<open>A history of sends that all go to the dead letter queue.\<close>

definition only_dead_letters :: "messaging_config \<Rightarrow> 'b send_history \<Rightarrow> bool" where
  "only_dead_letters cfg sends \<longleftrightarrow> list_all (\<lambda>(t, m, ok). t = mc_topic cfg @ ''.DLQ'') sends"

lemma delivery_ends:
  assumes "write_laws (ip_model P) docs" and "kc_cache C = None" and "records_sends (kc_producer C) sent"
    and "sends_nothing (ip_http P) hb sent" and "delivers C sent x"
  shows "\<exists>s'. on_processing_message C cfg P other part hb (de_message x) s = (Inr (), s') \<and>
    (ended P docs (de_request x) (db_of s') \<or> (\<exists>ok. dead_lettered C cfg x ok (sent (queue_of s')))) \<and>
    (\<forall>j. j \<noteq> pr_requestId (de_request x) \<longrightarrow> docs (db_of s') j = docs (db_of s) j) \<and>
    (\<exists>later. sent (queue_of s') = sent (queue_of s) @ later \<and> only_dead_letters cfg later \<and> length later \<le> 1)"
proof -
  let ?req = "\<lparr>pr_requestId = pr_requestId (de_request x), pr_webhookUrl = pr_webhookUrl (de_request x),
    pr_products = pr_products (de_request x)\<rparr>"
  have req: "?req = de_request x" by simp
  obtain h1 where d: "decoded_to C (de_message x) True (queue_of s) = (Inr (de_decoded x), h1)"
    and h1: "sent h1 = sent (queue_of s)"
    using assms(5) unfolding delivers_def by blast
  obtain body where body: "dm_value_text (de_decoded x) = Inr body" using assms(5) by (auto simp: delivers_def)
  have shape: "dm_value (de_decoded x) = qm_value (processing_message (pr_requestId (de_request x))
      (pr_products (de_request x)) (pr_webhookUrl (de_request x)))"
    using assms(5) by (simp add: delivers_def)
  have new: "offset_new C (mc_topic cfg) (mc_group cfg) part (parse_int (km_offset (de_message x))) (after_heartbeat hb h1)"
    using assms(2) by (simp add: offset_new_def)
  obtain t r t' s' where run: "process P ?req t = (r, t')"
    and each: "on_processing_message C cfg P other part hb (de_message x) s = (Inr (), s')"
    and eqs: "db_of t = db_of s" "db_of s' = db_of t'" "queue_of t = after_check C (mc_topic cfg) (mc_group cfg) part (after_heartbeat hb h1)"
    and q: "queue_of s' = (case r of
       Inr _ \<Rightarrow> (case kc_cache C of None \<Rightarrow> queue_of t'
         | Some (R, A) \<Rightarrow> snd (rd_set R [JStr (offset_key (mc_topic cfg) (mc_group cfg) part), JStr (km_offset (de_message x))]
             (queue_of t')))
     | Inl e \<Rightarrow> snd (kp_send (kc_producer C) (mc_topic cfg @ ''.DLQ'')
         (dlq_out C (Some (de_decoded x)) (de_message x) body
           (run_error (mc_topic cfg) ''Error running message processor'' e)) (queue_of t')))"
    by (rule processing_message_run [OF d shape body new, of P other])
  have "sent (queue_of t) = sent (queue_of s)"
    using eqs(3) h1 assms(2,4) by (simp add: after_check_def after_heartbeat_def sends_nothing_def)
  then have before: "sent (queue_of t') = sent (queue_of s)" using keepsD [OF process_keeps_sent [OF assms(4)] run] by simp
  have others: "docs (db_of s') j = docs (db_of s) j" if "j \<noteq> pr_requestId (de_request x)" for j
    using keepsD [OF process_keeps_others [OF assms(1)] run] that eqs(1,2) by simp
  show ?thesis
  proof (cases r)
    case (Inr u)
    have "well_formed_products (pr_products ?req)" using assms(5) by (simp add: delivers_def)
    moreover have "collection_laws (ip_model P) docs" using assms(1) by (simp add: write_laws_def)
    ultimately have "settled P docs (pr_requestId ?req) (pr_products ?req) t'"
      using process_settles [of P docs ?req t t'] run Inr by simp
    then have "ended P docs (de_request x) (db_of s')" using eqs(2) by (simp add: settled_def ended_def)
    moreover have "sent (queue_of s') = sent (queue_of s)" using q Inr before assms(2) by simp
    ultimately show ?thesis using each others by (auto simp: only_dead_letters_def)
  next
    case (Inl e)
    let ?m = "dlq_out C (Some (de_decoded x)) (de_message x) body (run_error (mc_topic cfg) ''Error running message processor'' e)"
    let ?entry = "(mc_topic cfg @ ''.DLQ'', ?m, accepted (fst (kp_send (kc_producer C) (mc_topic cfg @ ''.DLQ'') ?m (queue_of t'))))"
    have sent: "sent (queue_of s') = sent (queue_of s) @ [?entry]"
      using q Inl before assms(3) by (simp add: records_sends_def)
    then have "\<exists>ok. dead_lettered C cfg x ok (sent (queue_of s'))" unfolding dead_lettered_def by auto
    moreover have "only_dead_letters cfg [?entry]" by (simp add: only_dead_letters_def)
    ultimately show ?thesis using each others sent by (metis le_refl length_Cons list.size(3) One_nat_def)
  qed
qed

subsection \<open>The backlog\<close>

lemma dead_lettered_later: "dead_lettered C cfg x ok sends \<Longrightarrow> dead_lettered C cfg x ok (sends @ later)"
  by (auto simp: dead_lettered_def)

lemma backlog_ends:
  assumes "write_laws (ip_model P) docs" and "kc_cache C = None" and "records_sends (kc_producer C) sent"
    and "sends_nothing (ip_http P) hb sent" and "\<forall>x \<in> set xs. delivers C sent x"
    and "\<forall>x \<in> set xs. \<forall>y \<in> set xs. pr_requestId (de_request x) = pr_requestId (de_request y) \<longrightarrow> de_request x = de_request y"
  shows "\<exists>s'. for_each (on_processing_message C cfg P other part hb) (map de_message xs) s = (Inr (), s') \<and>
    (\<forall>x \<in> set xs. ended P docs (de_request x) (db_of s') \<or>
      (\<exists>y \<in> set xs. \<exists>ok. de_request y = de_request x \<and> dead_lettered C cfg y ok (sent (queue_of s')))) \<and>
    (\<forall>j. j \<notin> (pr_requestId \<circ> de_request) ` set xs \<longrightarrow> docs (db_of s') j = docs (db_of s) j) \<and>
    (\<exists>later. sent (queue_of s') = sent (queue_of s) @ later \<and> only_dead_letters cfg later \<and> length later \<le> length xs)"
  using assms(5,6)
proof (induction xs arbitrary: s)
  case Nil
  then show ?case by (simp add: returning_eq only_dead_letters_def)
next
  case (Cons x xs)
  let ?ids = "(pr_requestId \<circ> de_request) ` set xs"
  have "delivers C sent x" using Cons.prems by simp
  from delivery_ends [OF assms(1-4) this, of cfg other part s] obtain s1 more1 where
    1: "on_processing_message C cfg P other part hb (de_message x) s = (Inr (), s1)"
    "ended P docs (de_request x) (db_of s1) \<or> (\<exists>ok. dead_lettered C cfg x ok (sent (queue_of s1)))"
    "\<forall>j. j \<noteq> pr_requestId (de_request x) \<longrightarrow> docs (db_of s1) j = docs (db_of s) j"
    "sent (queue_of s1) = sent (queue_of s) @ more1" "only_dead_letters cfg more1" "length more1 \<le> 1"
    by blast
  have "\<forall>x \<in> set xs. delivers C sent x"
    "\<forall>x \<in> set xs. \<forall>y \<in> set xs. pr_requestId (de_request x) = pr_requestId (de_request y) \<longrightarrow> de_request x = de_request y"
    using Cons.prems by auto
  from Cons.IH [OF this, of s1] obtain s' later where
    2: "for_each (on_processing_message C cfg P other part hb) (map de_message xs) s1 = (Inr (), s')"
    and all: "\<forall>y \<in> set xs. ended P docs (de_request y) (db_of s') \<or>
      (\<exists>z \<in> set xs. \<exists>ok. de_request z = de_request y \<and> dead_lettered C cfg z ok (sent (queue_of s')))"
    and rest: "\<forall>j. j \<notin> ?ids \<longrightarrow> docs (db_of s') j = docs (db_of s1) j"
    and later: "sent (queue_of s') = sent (queue_of s1) @ later" "only_dead_letters cfg later" "length later \<le> length xs"
    by blast
  have "ended P docs (de_request x) (db_of s') \<or>
      (\<exists>y \<in> set (x # xs). \<exists>ok. de_request y = de_request x \<and> dead_lettered C cfg y ok (sent (queue_of s')))"
  proof (cases "pr_requestId (de_request x) \<in> ?ids")
    case True
    then obtain y where y: "y \<in> set xs" "pr_requestId (de_request x) = pr_requestId (de_request y)" by auto
    then have "de_request x = de_request y" using Cons.prems(2) by auto
    then show ?thesis using all y(1) by auto
  next
    case False
    then have "docs (db_of s') (pr_requestId (de_request x)) = docs (db_of s1) (pr_requestId (de_request x))"
      using rest by blast
    then have "ended P docs (de_request x) (db_of s1) \<Longrightarrow> ended P docs (de_request x) (db_of s')" by (simp add: ended_def)
    then show ?thesis using 1(2) dead_lettered_later later(1) by (metis list.set_intros(1))
  qed
  then have "\<forall>y \<in> set (x # xs). ended P docs (de_request y) (db_of s') \<or>
      (\<exists>z \<in> set (x # xs). \<exists>ok. de_request z = de_request y \<and> dead_lettered C cfg z ok (sent (queue_of s')))"
    using all by auto
  moreover have "docs (db_of s') j = docs (db_of s) j" if "j \<notin> (pr_requestId \<circ> de_request) ` set (x # xs)" for j
    using that 1(3) rest by simp
  moreover have "for_each (on_processing_message C cfg P other part hb) (map de_message (x # xs)) s = (Inr (), s')"
    using 1(1) 2 by (simp add: thenDo_def andThen_def)
  moreover have "only_dead_letters cfg (more1 @ later)" "length (more1 @ later) \<le> length (x # xs)"
    using 1(5,6) later(2,3) by (simp_all add: only_dead_letters_def)
  moreover have "sent (queue_of s') = sent (queue_of s) @ (more1 @ later)" using 1(4) later(1) by simp
  ultimately show ?case by blast
qed

text \<open>
  C2: What becomes of every request of a backlog. Let the application's consumer, as its own configuration makes it,
  handle any sequence of deliveries of published requests -- in any order, repeated, with processors that fail and a broker
  that may be down. Then the handler returns for all of them, and each request has ended, Failed or Succeeded with
  one output for each of its images, or a message of it was sent to the dead letter queue and the broker accepted it, or
  was sent there and the broker refused it, in which case the request is lost. At most one message is sent for each delivery,
  to the dead letter queue only, and the requests outside the backlog are what they were.

  Relied on: a write of the database that rejects has been applied or not (\<open>write_laws\<close>); each delivery decodes to the
  value that was published for a request with products as the reader makes them (\<open>delivers\<close>); deliveries with the same request id
  are of the same request; \<open>sent\<close> is the history of the producer's \<open>send\<close> calls with their answers (\<open>records_sends\<close>), which
  the other services do not call (\<open>sends_nothing\<close>).
\<close>

theorem backlog_is_processed:
  assumes "new_kafka_service L (kafka_queue_config clientId brokers host A) s0 = (Inr K, s1)"
    and "write_laws (ip_model P) docs" and "records_sends (kc_producer (ks_consumer K)) sent"
    and "sends_nothing (ip_http P) hb sent" and "\<forall>x \<in> set xs. delivers (ks_consumer K) sent x"
    and "\<forall>x \<in> set xs. \<forall>y \<in> set xs. pr_requestId (de_request x) = pr_requestId (de_request y) \<longrightarrow> de_request x = de_request y"
  shows "\<exists>s'. for_each (on_processing_message (ks_consumer K) cfg P other part hb) (map de_message xs) s = (Inr (), s') \<and>
    (\<forall>x \<in> set xs. ended P docs (de_request x) (db_of s') \<or>
      (\<exists>y \<in> set xs. de_request y = de_request x \<and> dead_lettered (ks_consumer K) cfg y True (sent (queue_of s'))) \<or>
      (\<exists>y \<in> set xs. de_request y = de_request x \<and> dead_lettered (ks_consumer K) cfg y False (sent (queue_of s')))) \<and>
    (\<forall>j. j \<notin> (pr_requestId \<circ> de_request) ` set xs \<longrightarrow> docs (db_of s') j = docs (db_of s) j) \<and>
    (\<exists>later. sent (queue_of s') = sent (queue_of s) @ later \<and> only_dead_letters cfg later \<and> length later \<le> length xs)"
proof -
  have "kc_cache (ks_consumer K) = None"
    using new_kafka_service_cache [OF assms(1)] by (simp add: kafka_queue_config_def)
  note ends = backlog_ends [OF assms(2) this assms(3-6), of cfg other part s]
  have either: "(\<exists>ok. Q ok) \<longleftrightarrow> Q True \<or> Q False" for Q by (metis (full_types))
  show ?thesis using ends by (simp only: either conj_disj_distribL bex_disj_distrib)
qed

subsection \<open>The statement in a concrete world\<close>

text \<open>The message of one request, delivered twice.\<close>

definition sample_delivery :: "string delivery" where
  "sample_delivery =
    \<lparr>de_request = \<lparr>pr_requestId = ''r1'', pr_webhookUrl = ''hook'', pr_products = products sample_data\<rparr>,
     de_message = sample_message ''k'' ''v'' 9, de_decoded = app_decoded\<rparr>"

text \<open>The broker of the samples accepts what it is sent.\<close>

definition sample_sends :: "sample_world \<Rightarrow> string send_history" where
  "sample_sends h = map (\<lambda>(t, m). (t, m, True)) (fst (snd h))"

lemma sample_sends_accepted: "\<not> dead_lettered C cfg x False (sample_sends h)"
  by (auto simp: dead_lettered_def sample_sends_def)

lemma sample_delivers:
  assumes "new_kafka_service app_libraries (kafka_queue_config c bs h A) s0 = (Inr K, s1)"
  shows "delivers (ks_consumer K) sample_sends sample_delivery"
proof -
  have "well_formed_products (products sample_data)" using first_file_well_formed [OF sample_first_file] .
  moreover have "dm_value_text app_decoded = Inr (JStr ''[object Object]'')" by (simp add: app_decoded_def app_value_def) code_simp
  ultimately show ?thesis
    using app_setup_decodes [OF assms]
    by (simp add: delivers_def sample_delivery_def) (simp add: app_decoded_def app_value_def)
qed

theorem backlog_is_processed_witness:
  "\<exists>K s'. fst (new_kafka_service app_libraries (kafka_queue_config ''app'' [''k:9092''] ''reg'' quiet_apm)
      (sample_consumer_run stored_seven)) = Inr K \<and>
    for_each (on_processing_message (ks_consumer K) sample_messaging app_processor (\<lambda>v. returning ()) 0 no_heartbeat)
      [sample_message ''k'' ''v'' 9, sample_message ''k'' ''v'' 9] app_run = (Inr (), s') \<and>
    (ended app_processor id (de_request sample_delivery) (db_of s') \<or>
      dead_lettered (ks_consumer K) sample_messaging sample_delivery True (sample_sends (queue_of s')))"
proof -
  obtain K where K: "new_kafka_service app_libraries (kafka_queue_config ''app'' [''k:9092''] ''reg'' quiet_apm)
      (sample_consumer_run stored_seven) = (Inr K, sample_consumer_run stored_seven)"
    using new_kafka_service_returns by blast
  have laws: "write_laws (ip_model app_processor) id" using memory_writes by (simp add: app_processor_def)
  have "kc_producer (ks_consumer K) = new_kafka_producer app_libraries (kg_kafkaConfig (kafka_queue_config ''app'' [''k:9092''] ''reg'' quiet_apm))
      (map_option (\<lambda>(args, options). kb_registry app_libraries args options)
        (kg_schemaRegistryConfig (kafka_queue_config ''app'' [''k:9092''] ''reg'' quiet_apm)))
      (kg_producerConfig (kafka_queue_config ''app'' [''k:9092''] ''reg'' quiet_apm))"
    using K by (auto simp: new_kafka_service_def new_kafka_cache_def new_kafka_consumer_def kafka_queue_config_def Let_def
        result_simps)
  then have records: "records_sends (kc_producer (ks_consumer K)) sample_sends"
    by (auto simp: records_sends_def sample_sends_def accepted_def new_kafka_producer_def app_libraries_def sample_producer_def Let_def)
  have silent: "sends_nothing (ip_http app_processor) no_heartbeat sample_sends"
    by (simp add: sends_nothing_def sample_sends_def app_processor_def app_net_def no_heartbeat_def)
  let ?xs = "[sample_delivery, sample_delivery]"
  have all: "\<forall>x \<in> set ?xs. delivers (ks_consumer K) sample_sends x" using sample_delivers [OF K] by simp
  have same: "\<forall>x \<in> set ?xs. \<forall>y \<in> set ?xs.
      pr_requestId (de_request x) = pr_requestId (de_request y) \<longrightarrow> de_request x = de_request y" by simp
  obtain s' where
    "for_each (on_processing_message (ks_consumer K) sample_messaging app_processor (\<lambda>v. returning ()) 0 no_heartbeat)
      (map de_message ?xs) app_run = (Inr (), s')"
    "\<forall>x \<in> set ?xs. ended app_processor id (de_request x) (db_of s') \<or>
      (\<exists>y \<in> set ?xs. de_request y = de_request x \<and>
        dead_lettered (ks_consumer K) sample_messaging y True (sample_sends (queue_of s'))) \<or>
      (\<exists>y \<in> set ?xs. de_request y = de_request x \<and>
        dead_lettered (ks_consumer K) sample_messaging y False (sample_sends (queue_of s')))"
    using backlog_is_processed [where cfg = sample_messaging and other = "\<lambda>v. returning ()" and part = 0 and s = app_run
      and hb = no_heartbeat, OF K laws records silent all same] by blast
  moreover from this(2) have "ended app_processor id (de_request sample_delivery) (db_of s') \<or>
      dead_lettered (ks_consumer K) sample_messaging sample_delivery True (sample_sends (queue_of s'))"
    using sample_sends_accepted [of "ks_consumer K" sample_messaging sample_delivery "queue_of s'"] by simp
  moreover have "map de_message ?xs = [sample_message ''k'' ''v'' 9, sample_message ''k'' ''v'' 9]"
    by (simp add: sample_delivery_def)
  ultimately show ?thesis using K by (intro exI [of _ K] exI [of _ s']) (simp del: for_each.simps)
qed

end
