(* ===== verification/CsvBytes.thy ===== *)
theory CsvBytes
  imports CsvRefine FileSystem
begin

text \<open>
  The chunks of an uploaded file are buffers; \<open>csv.entity.ts\<close> turns each into a string by itself, with
  \<open>ch.toString()\<close>. This theory models that conversion, the UTF-8 decoding of Node's buffers with its replacement
  characters, as a machine that reads a byte at a time, shows that it reads back what UTF-8 writes, and what the cut of a
  file's bytes means to the reader: nothing when no character is cut, replacement characters when one is.
\<close>

subsection \<open>Decoding UTF-8\<close>

text \<open>
  The state of the decoder: how many bytes of the character are missing, its bits so far, and the range of the next
  byte, which excludes overlong forms, surrogates and numbers beyond the last code point.
\<close>

record utf8_state =
  us_needed :: nat
  us_point :: nat
  us_lower :: nat
  us_upper :: nat

definition utf8_start :: utf8_state where
  "utf8_start = \<lparr>us_needed = 0, us_point = 0, us_lower = 0x80, us_upper = 0xBF\<rparr>"

abbreviation REPLACEMENT :: nat where "REPLACEMENT \<equiv> 0xFFFD"

text \<open>The code units of a code point: a surrogate pair beyond the first plane.\<close>

definition code_units :: "nat \<Rightarrow> nat list" where
  "code_units p =
    (if p < 0x10000 then [p] else [0xD800 + (p - 0x10000) div 0x400, 0xDC00 + (p - 0x10000) mod 0x400])"

text \<open>The first byte of a character.\<close>

definition utf8_lead :: "nat \<Rightarrow> utf8_state \<times> nat list" where
  "utf8_lead b =
    (if b < 0x80 then (utf8_start, [b])
     else if 0xC2 \<le> b \<and> b \<le> 0xDF then (\<lparr>us_needed = 1, us_point = b - 0xC0, us_lower = 0x80, us_upper = 0xBF\<rparr>, [])
     else if 0xE0 \<le> b \<and> b \<le> 0xEF then
       (\<lparr>us_needed = 2, us_point = b - 0xE0, us_lower = (if b = 0xE0 then 0xA0 else 0x80),
         us_upper = (if b = 0xED then 0x9F else 0xBF)\<rparr>, [])
     else if 0xF0 \<le> b \<and> b \<le> 0xF4 then
       (\<lparr>us_needed = 3, us_point = b - 0xF0, us_lower = (if b = 0xF0 then 0x90 else 0x80),
         us_upper = (if b = 0xF4 then 0x8F else 0xBF)\<rparr>, [])
     else (utf8_start, [REPLACEMENT]))"

text \<open>A byte that cannot follow ends the character with a replacement and is read again as a first byte.\<close>

definition utf8_step :: "utf8_state \<Rightarrow> nat \<Rightarrow> utf8_state \<times> nat list" where
  "utf8_step st b =
    (if us_needed st = 0 then utf8_lead b
     else if us_lower st \<le> b \<and> b \<le> us_upper st then
       (let p = us_point st * 64 + (b - 0x80)
        in if us_needed st = 1 then (utf8_start, code_units p)
           else (\<lparr>us_needed = us_needed st - 1, us_point = p, us_lower = 0x80, us_upper = 0xBF\<rparr>, []))
     else (case utf8_lead b of (st', out) \<Rightarrow> (st', REPLACEMENT # out)))"

fun utf8_run :: "utf8_state \<Rightarrow> nat list \<Rightarrow> utf8_state \<times> nat list" where
  "utf8_run st [] = (st, [])"
| "utf8_run st (b # bs) =
     (case utf8_step st b of (st1, out) \<Rightarrow> (case utf8_run st1 bs of (st2, outs) \<Rightarrow> (st2, out @ outs)))"

text \<open>The end of the buffer inside a character is one more replacement.\<close>

definition utf8_units :: "nat list \<Rightarrow> nat list" where
  "utf8_units bs =
    (case utf8_run utf8_start bs of (st, out) \<Rightarrow> out @ (if us_needed st = 0 then [] else [REPLACEMENT]))"

text \<open>\<open>ch.toString()\<close>; a code unit beyond the type \<open>char\<close> is what \<open>unit\<close> makes of it.\<close>

definition chunk_text :: "(nat \<Rightarrow> char) \<Rightarrow> bytes \<Rightarrow> string" where
  "chunk_text unit ch = map (\<lambda>n. if n < 256 then char_of n else unit n) (utf8_units (map unat ch))"

text \<open>A buffer that does not end inside a character.\<close>

definition whole_characters :: "nat list \<Rightarrow> bool" where
  "whole_characters bs \<longleftrightarrow> us_needed (fst (utf8_run utf8_start bs)) = 0"

subsection \<open>Running the decoder\<close>

lemma utf8_run_append:
  "utf8_run st (xs @ ys) =
    (case utf8_run st xs of (st1, o1) \<Rightarrow> (case utf8_run st1 ys of (st2, o2) \<Rightarrow> (st2, o1 @ o2)))"
  by (induction xs arbitrary: st) (auto split: prod.splits)

lemma utf8_lead_start: "us_needed (fst (utf8_lead b)) = 0 \<Longrightarrow> fst (utf8_lead b) = utf8_start"
  by (auto simp: utf8_lead_def split: if_splits)

lemma utf8_step_start: "us_needed (fst (utf8_step st b)) = 0 \<Longrightarrow> fst (utf8_step st b) = utf8_start"
  using utf8_lead_start [of b] by (auto simp: utf8_step_def Let_def split: if_splits prod.splits)

lemma utf8_run_start:
  "us_needed (fst (utf8_run st bs)) = 0 \<Longrightarrow> (us_needed st = 0 \<Longrightarrow> st = utf8_start) \<Longrightarrow>
    fst (utf8_run st bs) = utf8_start"
proof (induction bs arbitrary: st)
  case (Cons b bs)
  obtain st1 out where s: "utf8_step st b = (st1, out)" by (cases "utf8_step st b")
  obtain st2 outs where r: "utf8_run st1 bs = (st2, outs)" by (cases "utf8_run st1 bs")
  show ?case using Cons.IH [of st1] Cons.prems(1) utf8_step_start [of st b] s r by simp
qed simp

lemma whole_run: "whole_characters bs \<Longrightarrow> utf8_run utf8_start bs = (utf8_start, utf8_units bs)"
  using utf8_run_start [of utf8_start bs]
  by (cases "utf8_run utf8_start bs") (auto simp: whole_characters_def utf8_units_def)

lemma whole_Nil: "whole_characters []"
  by (simp add: whole_characters_def utf8_start_def)

lemma units_append: "whole_characters xs \<Longrightarrow> utf8_units (xs @ ys) = utf8_units xs @ utf8_units ys"
  by (drule whole_run, cases "utf8_run utf8_start ys")
    (simp add: utf8_units_def [of "xs @ ys"] utf8_units_def [of ys] utf8_run_append)

lemma units_concat: "\<forall>c \<in> set cs. whole_characters c \<Longrightarrow> utf8_units (concat cs) = concat (map utf8_units cs)"
  by (induction cs) (simp_all add: units_append, simp add: utf8_units_def utf8_start_def)

lemma chunk_text_concat:
  "\<forall>c \<in> set cs. whole_characters (map unat c) \<Longrightarrow> chunk_text unit (concat cs) = concat (map (chunk_text unit) cs)"
  using units_concat [of "map (map unat) cs"]
  by (simp add: chunk_text_def map_concat o_def) (simp add: chunk_text_def [abs_def])

subsection \<open>Encoding\<close>

text \<open>What UTF-8 writes for a code point that is not a surrogate.\<close>

definition scalar :: "nat \<Rightarrow> bool" where
  "scalar p \<longleftrightarrow> p < 0xD800 \<or> (0xE000 \<le> p \<and> p < 0x110000)"

definition utf8_encode :: "nat \<Rightarrow> nat list" where
  "utf8_encode p =
    (if p < 0x80 then [p]
     else if p < 0x800 then [0xC0 + p div 64, 0x80 + p mod 64]
     else if p < 0x10000 then [0xE0 + p div 4096, 0x80 + p div 64 mod 64, 0x80 + p mod 64]
     else [0xF0 + p div 262144, 0x80 + p div 4096 mod 64, 0x80 + p div 64 mod 64, 0x80 + p mod 64])"

lemma mod_64: "n mod 64 \<le> (63 :: nat)"
  by simp

text \<open>The digits of a code point to the base 64.\<close>

lemma digit_64: obtains q r where "p = 64 * q + r" and "p div 64 = q" and "p mod 64 = (r :: nat)" and "r \<le> 63"
proof (rule that [of "p div 64" "p mod 64"])
  show "p = 64 * (p div 64) + p mod 64" by simp
qed simp_all

lemma digits_64:
  obtains d c b a where "p = 262144 * d + 4096 * c + 64 * b + a" and "a \<le> 63" and "b \<le> 63" and "c \<le> 63"
    and "p mod 64 = a" and "p div 64 mod 64 = b" and "p div 4096 = 64 * d + c" and "p div 4096 mod 64 = c"
    and "p div 262144 = (d :: nat)"
proof -
  obtain q a where 1: "p = 64 * q + a" "p div 64 = q" "p mod 64 = a" "a \<le> 63" by (rule digit_64)
  obtain u b where 2: "q = 64 * u + b" "q div 64 = u" "q mod 64 = b" "b \<le> 63" by (rule digit_64)
  obtain d c where 3: "u = 64 * d + c" "u div 64 = d" "u mod 64 = c" "c \<le> 63" by (rule digit_64)
  have "p div 4096 = p div 64 div 64" "p div 262144 = p div 64 div 64 div 64"
    by (simp_all add: div_mult2_eq [symmetric])
  then show thesis using that [of d c b a] 1 2 3 by simp
qed

lemma encode_cases:
  assumes "scalar p"
  obtains (one) "p < 0x80" and "utf8_encode p = [p]"
    | (two) b a where "utf8_encode p = [0xC0 + b, 0x80 + a]" and "b * 64 + a = p" and "2 \<le> b" and "b \<le> 31" and "a \<le> 63"
    | (three) c b a where "utf8_encode p = [0xE0 + c, 0x80 + b, 0x80 + a]" and "(c * 64 + b) * 64 + a = p"
      and "c \<le> 15" and "b \<le> 63" and "a \<le> 63" and "c = 0 \<Longrightarrow> 32 \<le> b" and "c = 13 \<Longrightarrow> b \<le> 31"
    | (four) d c b a where "utf8_encode p = [0xF0 + d, 0x80 + c, 0x80 + b, 0x80 + a]"
      and "((d * 64 + c) * 64 + b) * 64 + a = p" and "d \<le> 4" and "c \<le> 63" and "b \<le> 63" and "a \<le> 63"
      and "d = 0 \<Longrightarrow> 16 \<le> c" and "d = 4 \<Longrightarrow> c \<le> 15"
proof -
  obtain d c b a where p: "p = 262144 * d + 4096 * c + 64 * b + a" and le: "a \<le> 63" "b \<le> 63" "c \<le> 63"
    and digits: "p mod 64 = a" "p div 64 mod 64 = b" "p div 4096 = 64 * d + c" "p div 4096 mod 64 = c" "p div 262144 = d"
    by (rule digits_64)
  consider "p < 0x80" | "0x80 \<le> p" "p < 0x800" | "0x800 \<le> p" "p < 0x10000" | "0x10000 \<le> p" by linarith
  then show thesis
  proof cases
    case 1
    then show thesis using one by (simp add: utf8_encode_def)
  next
    case 2
    then have "d < 1" "c < 1" using p by linarith+
    then show thesis using 2 two [of "p div 64" a] p le digits(1,2) by (simp add: utf8_encode_def)
  next
    case 3
    then have "d < 1" using p by linarith
    then have d: "p = 4096 * c + 64 * b + a" "p div 4096 = c" using p digits(3) by simp_all
    have "utf8_encode p = [0xE0 + c, 0x80 + b, 0x80 + a]" using 3 d(2) digits(1,2) by (simp add: utf8_encode_def)
    moreover have "(c * 64 + b) * 64 + a = p" using d(1) by simp
    moreover have "c \<le> 15" "c = 0 \<Longrightarrow> 32 \<le> b" using 3 d(1) le(1) by linarith+
    moreover have "c = 13 \<Longrightarrow> b \<le> 31" using assms d(1) le unfolding scalar_def by linarith
    ultimately show thesis using le(1,2) by (metis three)
  next
    case 4
    have max: "p < 0x110000" using 4 assms by (auto simp: scalar_def)
    have "utf8_encode p = [0xF0 + d, 0x80 + c, 0x80 + b, 0x80 + a]" using 4 digits(1,2,4,5) by (simp add: utf8_encode_def)
    moreover have "((d * 64 + c) * 64 + b) * 64 + a = p" using p by simp
    moreover have "d \<le> 4" using p max by linarith
    moreover have "d = 0 \<Longrightarrow> 16 \<le> c" using 4 p le by linarith
    moreover have "d = 4 \<Longrightarrow> c \<le> 15" using p max by linarith
    ultimately show thesis using le by (metis four)
  qed
qed

lemmas utf8_machine = utf8_step_def utf8_lead_def utf8_start_def Let_def

lemma decode_encode:
  assumes "scalar p" shows "utf8_run utf8_start (utf8_encode p) = (utf8_start, code_units p)"
  using assms
proof (cases rule: encode_cases)
  case one
  then show ?thesis by (simp add: utf8_machine code_units_def)
qed (simp_all add: utf8_machine)

text \<open>Every encoded text is whole, and decoding reads it back.\<close>

lemma decode_text:
  assumes "\<forall>p \<in> set ps. scalar p"
  shows "utf8_run utf8_start (concat (map utf8_encode ps)) = (utf8_start, concat (map code_units ps))"
  using assms by (induction ps) (simp_all add: utf8_run_append decode_encode)

lemma whole_text: "\<forall>p \<in> set ps. scalar p \<Longrightarrow> whole_characters (concat (map utf8_encode ps))"
  by (simp add: whole_characters_def decode_text) (simp add: utf8_start_def)

lemma units_text: "\<forall>p \<in> set ps. scalar p \<Longrightarrow> utf8_units (concat (map utf8_encode ps)) = concat (map code_units ps)"
  by (simp add: utf8_units_def decode_text) (simp add: utf8_start_def)

subsection \<open>A character cut in two\<close>

lemma cut_head:
  assumes "scalar p" and "utf8_encode p = u @ v" and "u \<noteq> []" and "v \<noteq> []"
  shows "\<exists>st. utf8_run utf8_start u = (st, []) \<and> us_needed st \<noteq> 0"
  using assms(1)
proof (cases rule: encode_cases)
  case one
  then show ?thesis using assms(2-4) by (auto simp: append_eq_Cons_conv)
next
  case two
  then have "u = take 1 (utf8_encode p)" using assms(2-4) by (auto simp: append_eq_Cons_conv)
  then show ?thesis using two by (simp add: utf8_machine)
next
  case three
  then have "u = take 1 (utf8_encode p) \<or> u = take 2 (utf8_encode p)" using assms(2-4) by (auto simp: append_eq_Cons_conv)
  then show ?thesis using three by (auto simp: utf8_machine)
next
  case four
  then have "u = take 1 (utf8_encode p) \<or> u = take 2 (utf8_encode p) \<or> u = take 3 (utf8_encode p)"
    using assms(2-4) by (auto simp: append_eq_Cons_conv)
  then show ?thesis using four by (auto simp: utf8_machine)
qed

lemma encode_tail:
  assumes "scalar p" shows "\<forall>b \<in> set (tl (utf8_encode p)). 0x80 \<le> b \<and> b \<le> 0xBF"
  using assms by (cases rule: encode_cases) auto

lemma stray_bytes:
  "\<forall>b \<in> set v. 0x80 \<le> b \<and> b \<le> 0xBF \<Longrightarrow> utf8_run utf8_start v = (utf8_start, replicate (length v) REPLACEMENT)"
  by (induction v) (simp_all add: utf8_machine)

lemma cut_tail:
  assumes "scalar p" and "utf8_encode p = u @ v" and "u \<noteq> []"
  shows "utf8_units (v @ ys) = replicate (length v) REPLACEMENT @ utf8_units ys"
proof -
  have "set v \<subseteq> set (tl (utf8_encode p))" using assms(2,3) by (cases u) auto
  then have "utf8_run utf8_start v = (utf8_start, replicate (length v) REPLACEMENT)"
    using encode_tail [OF assms(1)] stray_bytes by blast
  then show ?thesis by (cases "utf8_run utf8_start ys") (simp add: utf8_units_def utf8_run_append)
qed

lemma cut_end:
  assumes "whole_characters xs" and "scalar p" and "utf8_encode p = u @ v" and "u \<noteq> []" and "v \<noteq> []"
  shows "utf8_units (xs @ u) = utf8_units xs @ [REPLACEMENT]"
proof -
  obtain st where "utf8_run utf8_start u = (st, [])" "us_needed st \<noteq> 0"
    using cut_head [OF assms(2-5)] by blast
  then have "utf8_units u = [REPLACEMENT]" by (simp add: utf8_units_def)
  then show ?thesis using units_append [OF assms(1)] by simp
qed

subsection \<open>Files of characters\<close>

text \<open>The bytes of a text, given by its code points, and the string of its code units.\<close>

definition encode_text :: "nat list \<Rightarrow> bytes" where
  "encode_text ps = map of_nat (concat (map utf8_encode ps))"

definition js_text :: "(nat \<Rightarrow> char) \<Rightarrow> nat list \<Rightarrow> string" where
  "js_text unit ps = map (\<lambda>n. if n < 256 then char_of n else unit n) (concat (map code_units ps))"

lemma encode_bytes: "scalar p \<Longrightarrow> b \<in> set (utf8_encode p) \<Longrightarrow> b < 256"
  by (cases rule: encode_cases [of p]) auto

lemma unat_bytes: "\<forall>b \<in> set bs. b < 256 \<Longrightarrow> map unat (map of_nat bs :: bytes) = bs"
  by (induction bs) (simp_all add: unat_of_nat)

lemma unat_encode_text: "\<forall>p \<in> set ps. scalar p \<Longrightarrow> map unat (encode_text ps) = concat (map utf8_encode ps)"
  unfolding encode_text_def by (rule unat_bytes) (auto dest: encode_bytes)

lemma chunk_text_encode: "\<forall>p \<in> set ps. scalar p \<Longrightarrow> chunk_text unit (encode_text ps) = js_text unit ps"
  by (simp add: chunk_text_def js_text_def unat_encode_text units_text)

lemma js_text_concat: "js_text unit (concat pss) = concat (map (js_text unit) pss)"
  by (induction pss) (simp_all add: js_text_def)

text \<open>
  C4: A file of UTF-8 text whose bytes are cut into chunks between characters -- in any number of pieces, inside a row, a
  quoted column or a line break -- is read as its text: the reader returns what it returns for that text as one string.
\<close>

theorem utf8_file_is_read:
  assumes "\<forall>p \<in> set (concat pss). scalar p"
  shows "parse_data V (chunk_text unit) \<lparr>chunks = map encode_text pss, failure = failed\<rparr> =
    parse_data V (\<lambda>t. t) \<lparr>chunks = [js_text unit (concat pss)], failure = failed\<rparr>"
proof -
  have "concat (map (chunk_text unit) (map encode_text pss)) = concat (map (js_text unit) pss)"
    using assms by (induction pss) (simp_all add: chunk_text_encode)
  then show ?thesis by (simp add: parse_data_text js_text_concat)
qed

text \<open>
  C26: A file cut inside a character is not: the reader gets one replacement character for the bytes before the cut
  and one for each byte after it, whatever the character was.
\<close>

theorem cut_character_is_replaced:
  assumes "\<forall>p \<in> set xs \<union> {c} \<union> set ys. scalar p" and "utf8_encode c = u @ v" and "u \<noteq> []" and "v \<noteq> []"
  shows "parse_data V (chunk_text unit)
      \<lparr>chunks = [encode_text xs @ map of_nat u, map of_nat v @ encode_text ys], failure = failed\<rparr> =
    parse_data V (\<lambda>t. t)
      \<lparr>chunks = [js_text unit xs @ replicate (1 + length v) (unit REPLACEMENT) @ js_text unit ys], failure = failed\<rparr>"
proof -
  have scalars: "\<forall>p \<in> set xs. scalar p" "scalar c" "\<forall>p \<in> set ys. scalar p" using assms(1) by auto
  have small: "map unat (map of_nat u :: bytes) = u" "map unat (map of_nat v :: bytes) = v"
    by (rule unat_bytes, use encode_bytes [OF scalars(2)] assms(2) in simp)+
  have "chunk_text unit (encode_text xs @ map of_nat u) = js_text unit xs @ [unit REPLACEMENT]"
    using cut_end [OF whole_text [OF scalars(1)] scalars(2) assms(2-4)] small(1)
    by (simp add: chunk_text_def js_text_def unat_encode_text scalars units_text)
  moreover have "chunk_text unit (map of_nat v @ encode_text ys) =
      replicate (length v) (unit REPLACEMENT) @ js_text unit ys"
    using cut_tail [OF scalars(2) assms(2,3)] small(2)
    by (simp add: chunk_text_def js_text_def unat_encode_text scalars units_text)
  ultimately show ?thesis by (simp add: parse_data_text)
qed

subsection \<open>The statements on a concrete file\<close>

text \<open>The header and one row, whose product has a name with an accent.\<close>

definition points :: "string \<Rightarrow> nat list" where
  "points s = map of_char s"

definition before_accent :: string where
  "before_accent = join '','' EXPECTED_HEADERS @ [LF] @ ''1,caf''"

definition after_accent :: string where
  "after_accent = '',u''"

definition product_names :: "exn + csv_data \<Rightarrow> string list" where
  "product_names r = (case r of Inl e \<Rightarrow> [] | Inr d \<Rightarrow> js_keys (products d))"

definition question :: "nat \<Rightarrow> char" where
  "question n = CHR ''?''"

lemma scalar_points: "\<forall>p \<in> set (points s). scalar p"
proof -
  have "scalar (of_char c)" for c using nat_of_char_less_256 [of c] by (simp add: scalar_def del: nat_of_char_less_256)
  then show ?thesis by (auto simp: points_def)
qed

lemma js_text_points: "js_text unit (points s) = s"
proof (induction s)
  case (Cons c s)
  have "code_units (of_char c) = [of_char c]" using nat_of_char_less_256 [of c] by (simp add: code_units_def del: nat_of_char_less_256)
  then show ?case using Cons by (simp add: js_text_def points_def)
qed (simp add: js_text_def points_def)

theorem utf8_file_is_read_witness:
  "product_names (parse_data sample_validator (chunk_text question)
    \<lparr>chunks = map (\<lambda>s. encode_text (points s)) [before_accent, [CHR 0xE9], after_accent], failure = None\<rparr>) =
    [''caf'' @ [CHR 0xE9]]"
proof -
  let ?pss = "map points [before_accent, [CHR 0xE9], after_accent]"
  have "\<forall>p \<in> set (concat ?pss). scalar p" using scalar_points by simp blast
  from utf8_file_is_read [OF this, of sample_validator question None] have
    "product_names (parse_data sample_validator (chunk_text question)
      \<lparr>chunks = map encode_text ?pss, failure = None\<rparr>) =
     product_names (parse_data sample_validator (\<lambda>t. t)
      \<lparr>chunks = [js_text question (concat ?pss)], failure = None\<rparr>)"
    by (rule arg_cong)
  also have "js_text question (concat ?pss) = before_accent @ [CHR 0xE9] @ after_accent"
    unfolding js_text_concat by (simp add: js_text_points)
  also have "product_names (parse_data sample_validator (\<lambda>t. t)
      \<lparr>chunks = [before_accent @ [CHR 0xE9] @ after_accent], failure = None\<rparr>) = [''caf'' @ [CHR 0xE9]]"
    by code_simp
  finally show ?thesis by (simp add: o_def)
qed

theorem cut_character_is_replaced_witness:
  "product_names (parse_data sample_validator (chunk_text question)
    \<lparr>chunks = [encode_text (points before_accent) @ [0xC3], [0xA9] @ encode_text (points after_accent)],
     failure = None\<rparr>) = [''caf??'']"
proof -
  have "scalar 0xE9" by (simp add: scalar_def)
  then have "\<forall>p \<in> set (points before_accent) \<union> {0xE9} \<union> set (points after_accent). scalar p"
    using scalar_points by blast
  moreover have "utf8_encode 0xE9 = [0xC3] @ [0xA9]" by (simp add: utf8_encode_def)
  ultimately have
    "product_names (parse_data sample_validator (chunk_text question)
      \<lparr>chunks = [encode_text (points before_accent) @ map of_nat [0xC3], map of_nat [0xA9] @ encode_text (points after_accent)],
       failure = None\<rparr>) =
     product_names (parse_data sample_validator (\<lambda>t. t)
      \<lparr>chunks = [js_text question (points before_accent) @ replicate (1 + length [0xA9 :: nat]) (question REPLACEMENT) @
         js_text question (points after_accent)], failure = None\<rparr>)"
    using cut_character_is_replaced [of "points before_accent" "0xE9" "points after_accent" "[0xC3]" "[0xA9]"
        sample_validator question None] by simp
  also have "js_text question (points before_accent) @ replicate (1 + length [0xA9 :: nat]) (question REPLACEMENT) @
      js_text question (points after_accent) = before_accent @ ''??'' @ after_accent"
    by (simp add: js_text_points question_def)
  also have "product_names (parse_data sample_validator (\<lambda>t. t)
      \<lparr>chunks = [before_accent @ ''??'' @ after_accent], failure = None\<rparr>) = [''caf??'']"
    by code_simp
  finally show ?thesis by simp
qed

end
