(* ===== verification/CsvScan.thy ===== *)
theory CsvScan
  imports CsvEntity "HOL-Library.While_Combinator"
begin

text \<open>
  \<open>parseCols\<close> of \<open>csv.entity.ts\<close> as the nested loops it is written with, one step for each evaluation of a loop's condition, with
  the index \<open>j\<close> that may become -1 as an integer. The functions of \<open>CsvEntity\<close> are shown to be what these loops compute, and
  the loops to end after a number of steps that is linear in the row: blanks are looked at again from the quotes around them, but each
  blank only from the quote before and the quote after it.
\<close>

subsection \<open>The loops\<close>

text \<open>Where a run is: at the condition of the \<open>for\<close> loop, or of the \<open>while\<close> loop over \<open>j\<close>, or of the one over \<open>k\<close>.\<close>

datatype scan_point = At_for | At_back int | At_forward int nat

record scanner =
  sc_point :: scan_point
  sc_i :: nat
  sc_cols :: "string list"
  sc_cur :: string
  sc_inQuotes :: bool

definition scan_start :: scanner where
  "scan_start = \<lparr>sc_point = At_for, sc_i = 0, sc_cols = [], sc_cur = [], sc_inQuotes = False\<rparr>"

definition scanning :: "string \<Rightarrow> scanner \<Rightarrow> bool" where
  "scanning row s \<longleftrightarrow> sc_point s \<noteq> At_for \<or> sc_i s < length row"

text \<open>The body of the \<open>for\<close> loop up to its first inner loop.\<close>

definition step_for :: "string \<Rightarrow> scanner \<Rightarrow> scanner" where
  "step_for row s =
    (let i = sc_i s; c = row ! i
     in if c = QUOTE then
          if i + 1 < length row \<and> row ! (i + 1) = QUOTE then s\<lparr>sc_cur := sc_cur s @ [QUOTE], sc_i := i + 2\<rparr>
          else s\<lparr>sc_point := At_back (int i - 1)\<rparr>
        else if c = COMMA \<and> \<not> sc_inQuotes s then
          s\<lparr>sc_cols := sc_cols s @ [trim (sc_cur s)], sc_cur := [], sc_i := i + 1\<rparr>
        else s\<lparr>sc_cur := sc_cur s @ [c], sc_i := i + 1\<rparr>)"

definition step_back :: "string \<Rightarrow> int \<Rightarrow> scanner \<Rightarrow> scanner" where
  "step_back row j s =
    (if j \<ge> 0 \<and> row ! nat j = SPACE then s\<lparr>sc_point := At_back (j - 1)\<rparr>
     else s\<lparr>sc_point := At_forward j (sc_i s + 1)\<rparr>)"

definition step_forward :: "string \<Rightarrow> int \<Rightarrow> nat \<Rightarrow> scanner \<Rightarrow> scanner" where
  "step_forward row j k s =
    (if k < length row \<and> row ! k = SPACE then s\<lparr>sc_point := At_forward j (k + 1)\<rparr>
     else if j < 0 \<or> row ! nat j = COMMA \<or> k = length row \<or> row ! k = COMMA
     then s\<lparr>sc_inQuotes := \<not> sc_inQuotes s, sc_point := At_for, sc_i := sc_i s + 1\<rparr>
     else s\<lparr>sc_cur := sc_cur s @ [row ! sc_i s], sc_point := At_for, sc_i := sc_i s + 1\<rparr>)"

definition scan_step :: "string \<Rightarrow> scanner \<Rightarrow> scanner" where
  "scan_step row s =
    (case sc_point s of
       At_for \<Rightarrow> step_for row s
     | At_back j \<Rightarrow> step_back row j s
     | At_forward j k \<Rightarrow> step_forward row j k s)"

definition scan_loop :: "string \<Rightarrow> scanner option" where
  "scan_loop row = while_option (scanning row) (scan_step row) scan_start"

text \<open>What follows the loop.\<close>

definition scan_result :: "string \<Rightarrow> scanner \<Rightarrow> exn + string list" where
  "scan_result row s =
    (if sc_inQuotes s then Inl (csv_error CSV_PARSE_ERROR (''. Unclosed quote in row: '' @ row))
     else Inr (sc_cols s @ [trim (sc_cur s)]))"

text \<open>A run of at most \<open>n\<close> steps.\<close>

fun scan_within :: "nat \<Rightarrow> string \<Rightarrow> scanner \<Rightarrow> scanner option" where
  "scan_within 0 row s = (if scanning row s then None else Some s)"
| "scan_within (Suc n) row s = (if scanning row s then scan_within n row (scan_step row s) else Some s)"

lemma scan_within_while: "scan_within n row s = Some s' \<Longrightarrow> while_option (scanning row) (scan_step row) s = Some s'"
proof (induction n arbitrary: s)
  case 0
  then show ?case by (subst while_option_unfold) (simp split: if_splits)
next
  case (Suc n)
  then show ?case by (subst while_option_unfold) (simp split: if_splits)
qed

subsection \<open>The inner loops\<close>

abbreviation at_for :: "nat \<Rightarrow> string list \<Rightarrow> string \<Rightarrow> bool \<Rightarrow> scanner" where
  "at_for i cols cur q \<equiv> \<lparr>sc_point = At_for, sc_i = i, sc_cols = cols, sc_cur = cur, sc_inQuotes = q\<rparr>"

text \<open>The blanks just before \<open>i\<close>, and those from \<open>k\<close> on.\<close>

definition blanks_before :: "string \<Rightarrow> nat \<Rightarrow> nat" where
  "blanks_before row i = i - skip_back row i"

definition blanks_from :: "string \<Rightarrow> nat \<Rightarrow> nat" where
  "blanks_from row k = skip_fwd row k - k"

lemma skip_back_le: "skip_back row i \<le> i"
  by (induction i) auto

lemma skip_fwd_ge: "k \<le> skip_fwd row k"
  by (induction row k rule: skip_fwd.induct) (subst skip_fwd.simps, auto)

lemma skip_fwd_le: "k \<le> length row \<Longrightarrow> skip_fwd row k \<le> length row"
  by (induction row k rule: skip_fwd.induct) (subst skip_fwd.simps, auto)

lemma blanks_before_Suc: "blanks_before row (Suc j) = (if row ! j = SPACE then Suc (blanks_before row j) else 0)"
  using skip_back_le [of row j] by (auto simp: blanks_before_def)

lemma blanks_from_step:
  "blanks_from row k = (if k < length row \<and> row ! k = SPACE then Suc (blanks_from row (Suc k)) else 0)"
  using skip_fwd_ge [of "Suc k" row] by (auto simp: blanks_from_def skip_fwd.simps [of row k])

lemma blanks_from_le: "k \<le> length row \<Longrightarrow> blanks_from row k \<le> length row - k"
  using skip_fwd_le [of k row] by (auto simp: blanks_from_def)

lemma back_run:
  "scan_within (blanks_before row j + 1 + m) row (at_for i cols cur q\<lparr>sc_point := At_back (int j - 1)\<rparr>) =
    scan_within m row (at_for i cols cur q\<lparr>sc_point := At_forward (int (skip_back row j) - 1) (i + 1)\<rparr>)"
proof (induction j)
  case 0
  then show ?case by (simp add: blanks_before_def scanning_def scan_step_def step_back_def)
next
  case (Suc j)
  then show ?case by (simp add: blanks_before_Suc scanning_def scan_step_def step_back_def)
qed

lemma forward_run:
  "scan_within (blanks_from row k + 1 + m) row (at_for i cols cur q\<lparr>sc_point := At_forward j k\<rparr>) =
    scan_within m row (if j < 0 \<or> row ! nat j = COMMA \<or> skip_fwd row k = length row \<or> row ! skip_fwd row k = COMMA
      then at_for (i + 1) cols cur (\<not> q) else at_for (i + 1) cols (cur @ [row ! i]) q)"
proof (induction row k rule: skip_fwd.induct)
  case (1 row k)
  then show ?case
    using blanks_from_step [of row k] skip_fwd.simps [of row k]
    by (auto simp: scanning_def scan_step_def step_forward_def)
qed

subsection \<open>The whole scan\<close>

lemma for_steps:
  assumes "i < length row" and "0 < n"
  shows "row ! i = QUOTE \<Longrightarrow> i + 1 < length row \<and> row ! (i + 1) = QUOTE \<Longrightarrow>
      scan_within n row (at_for i cols cur q) = scan_within (n - 1) row (at_for (i + 2) cols (cur @ [QUOTE]) q)"
    and "row ! i = QUOTE \<Longrightarrow> \<not> (i + 1 < length row \<and> row ! (i + 1) = QUOTE) \<Longrightarrow>
      scan_within n row (at_for i cols cur q) =
      scan_within (n - 1) row (at_for i cols cur q\<lparr>sc_point := At_back (int i - 1)\<rparr>)"
    and "row ! i = COMMA \<and> \<not> q \<Longrightarrow>
      scan_within n row (at_for i cols cur q) = scan_within (n - 1) row (at_for (i + 1) (cols @ [trim cur]) [] q)"
    and "row ! i \<noteq> QUOTE \<Longrightarrow> \<not> (row ! i = COMMA \<and> \<not> q) \<Longrightarrow>
      scan_within n row (at_for i cols cur q) = scan_within (n - 1) row (at_for (i + 1) cols (cur @ [row ! i]) q)"
  using assms by (cases n; auto simp: scanning_def scan_step_def step_for_def Let_def)+

text \<open>A quote that is not doubled: its two inner loops together.\<close>

lemma quote_run:
  assumes "i < length row" and "row ! i = QUOTE" and "\<not> (i + 1 < length row \<and> row ! (i + 1) = QUOTE)"
  shows "scan_within (blanks_before row i + blanks_from row (i + 1) + 3 + m) row (at_for i cols cur q) =
    scan_within m row (if delimiting_quote row i then at_for (i + 1) cols cur (\<not> q) else at_for (i + 1) cols (cur @ [QUOTE]) q)"
proof -
  have "scan_within (blanks_before row i + blanks_from row (i + 1) + 3 + m) row (at_for i cols cur q) =
      scan_within (blanks_before row i + 1 + (blanks_from row (i + 1) + 1 + m)) row
        (at_for i cols cur q\<lparr>sc_point := At_back (int i - 1)\<rparr>)"
    using for_steps(2) [OF assms(1) _ assms(2,3), of "blanks_before row i + blanks_from row (i + 1) + 3 + m" cols cur q]
    by (simp add: numeral_3_eq_3 add.assoc del: scan_within.simps)
  also have "\<dots> = scan_within (blanks_from row (i + 1) + 1 + m) row
      (at_for i cols cur q\<lparr>sc_point := At_forward (int (skip_back row i) - 1) (i + 1)\<rparr>)"
    by (rule back_run)
  also have "\<dots> = scan_within m row
      (if delimiting_quote row i then at_for (i + 1) cols cur (\<not> q) else at_for (i + 1) cols (cur @ [QUOTE]) q)"
    unfolding forward_run using assms(2)
    by (cases "skip_back row i") (auto simp: delimiting_quote_def Let_def)
  finally show ?thesis .
qed

text \<open>
  Three steps for each character that is left, one more for each blank that a quote may look back at, and one less for each
  blank that the last quote has looked at already.
\<close>

lemma scan_within_loop:
  assumes "parse_cols_loop row i cols cur q = (cols', cur', q')"
    and "3 * (length row - i) + blanks_before row i \<le> n + blanks_from row i"
  shows "\<exists>i'. scan_within n row (at_for i cols cur q) = Some (at_for i' cols' cur' q')"
  using assms
proof (induction row i cols cur q arbitrary: n rule: parse_cols_loop.induct)
  case (1 row i cols cur q)
  note loop = parse_cols_loop.simps [of row i cols cur q]
  note bound = \<open>3 * (length row - i) + blanks_before row i \<le> n + blanks_from row i\<close>
  note result = \<open>parse_cols_loop row i cols cur q = (cols', cur', q')\<close>
  show ?case
  proof (cases "i < length row")
    case False
    then show ?thesis using result loop by (cases n) (auto simp: scanning_def)
  next
    case True
    note before = blanks_before_Suc [of row i] blanks_before_Suc [of row "i + 1"]
    note blanks = blanks_from_step [of row i] blanks_from_le [of i row] blanks_from_le [of "i + 1" row]
    have n: "0 < n" using bound blanks(2) True by linarith
    consider (doubled) "row ! i = QUOTE" "i + 1 < length row \<and> row ! (i + 1) = QUOTE"
      | (quote) "row ! i = QUOTE" "\<not> (i + 1 < length row \<and> row ! (i + 1) = QUOTE)"
      | (comma) "row ! i = COMMA \<and> \<not> q"
      | (other) "row ! i \<noteq> QUOTE" "\<not> (row ! i = COMMA \<and> \<not> q)"
      by blast
    then show ?thesis
    proof cases
      case doubled
      have "3 * (length row - (i + 2)) + blanks_before row (i + 2) \<le> n - 1 + blanks_from row (i + 2)"
        using doubled bound before blanks True by simp
      then show ?thesis
        using 1(1) [OF True refl doubled, of "n - 1"] result loop True doubled for_steps(1) [OF True n doubled]
        by (simp add: Let_def)
    next
      case quote
      define m where "m = n - (blanks_before row i + blanks_from row (i + 1) + 3)"
      have nm: "n = blanks_before row i + blanks_from row (i + 1) + 3 + m"
        using quote bound blanks True by (simp add: m_def)
      have less: "3 * (length row - (i + 1)) + blanks_before row (i + 1) \<le> m + blanks_from row (i + 1)"
        using quote bound before blanks True nm by simp
      show ?thesis
      proof (cases "delimiting_quote row i")
        case True
        then show ?thesis
          using 1(2) [OF \<open>i < length row\<close> refl quote True, of m] less result loop quote \<open>i < length row\<close>
          unfolding nm quote_run [OF \<open>i < length row\<close> quote] by (simp add: Let_def split: if_splits)
      next
        case False
        then show ?thesis
          using 1(3) [OF \<open>i < length row\<close> refl quote False, of m] less result loop quote \<open>i < length row\<close>
          unfolding nm quote_run [OF \<open>i < length row\<close> quote] by (simp add: Let_def split: if_splits)
      qed
    next
      case comma
      have "3 * (length row - (i + 1)) + blanks_before row (i + 1) \<le> n - 1 + blanks_from row (i + 1)"
        using comma bound before blanks True by simp
      then show ?thesis
        using 1(4) [OF True refl _ comma, of "n - 1"] result loop True comma for_steps(3) [OF True n comma]
        by (simp add: Let_def)
    next
      case other
      have "3 * (length row - (i + 1)) + blanks_before row (i + 1) \<le> n - 1 + blanks_from row (i + 1)"
        using other bound before blanks True by (simp split: if_splits)
      then show ?thesis
        using 1(5) [OF True refl other, of "n - 1"] result loop True other for_steps(4) [OF True n other]
        by (simp add: Let_def)
    qed
  qed
qed

text \<open>
  C8: The scanner ends, in linear time. For every row, the nested loops of \<open>parseCols\<close> stop after at most three steps for each
  character of the row -- although every quote runs over the blanks around it -- and what they leave is the row's columns, or
  the error for an unclosed quote, as \<open>parse_cols\<close> computes them.
\<close>

theorem scan_ends_in_linear_time:
  "\<exists>s. scan_loop row = Some s \<and> scan_within (3 * length row) row scan_start = Some s \<and> scan_result row s = parse_cols row"
proof -
  obtain cols cur q where l: "parse_cols_loop row 0 [] [] False = (cols, cur, q)"
    by (cases "parse_cols_loop row 0 [] [] False")
  have "3 * (length row - 0) + blanks_before row 0 \<le> 3 * length row + blanks_from row 0"
    by (simp add: blanks_before_def)
  from scan_within_loop [OF l this] obtain i where
    "scan_within (3 * length row) row scan_start = Some (at_for i cols cur q)"
    unfolding scan_start_def by blast
  then show ?thesis
    using scan_within_while l by (auto simp: scan_loop_def scan_result_def parse_cols_def)
qed

end
