(* ===== verification/MultipartUpload.thy ===== *)
theory MultipartUpload
  imports Scheduling
begin

text \<open>
  \<open>app/src/decorators/multipart.decorator.ts\<close> and \<open>file.decorator.ts\<close>: the handlers around busboy that turn an upload
  into a stream of parts with limits on their number, names and sizes, and the counting of a raw body's bytes. busboy and
  the request are a sequence of events.
\<close>

subsection \<open>Options and configuration\<close>

record multipart_options =
  fileField :: "string option"
  fileFields :: "string list option"
  filesCountLimit :: "nat option"
  fileSizeLimit :: "nat option"
  fileSizeLimitQueryField :: "string option"
  limitsFileSize :: "nat option"

definition str_includes :: "string \<Rightarrow> string \<Rightarrow> bool" where
  "str_includes s p \<longleftrightarrow> list_ex (\<lambda>i. take (length p) (drop i s) = p) [0 ..< Suc (length s)]"

definition truthy_text :: "string option \<Rightarrow> bool" where
  "truthy_text s \<longleftrightarrow> (case s of None \<Rightarrow> False | Some t \<Rightarrow> t \<noteq> [])"

definition truthy_nat :: "nat option \<Rightarrow> bool" where
  "truthy_nat n \<longleftrightarrow> (case n of None \<Rightarrow> False | Some k \<Rightarrow> k \<noteq> 0)"

text \<open>
  The decorator: no stream without a multipart content type; otherwise the size limit goes into the busboy
  configuration, which is part of the options object and stays there. \<open>queried\<close> is \<open>Number(req.query[field])\<close>,
  \<open>None\<close> when that is NaN.
\<close>

definition multipart_limits :: "nat option \<Rightarrow> multipart_options \<Rightarrow> multipart_options" where
  "multipart_limits queried d =
    (if truthy_nat (fileSizeLimit d) then d\<lparr>limitsFileSize := fileSizeLimit d\<rparr>
     else if truthy_text (fileSizeLimitQueryField d) \<and> truthy_nat queried then d\<lparr>limitsFileSize := queried\<rparr>
     else d)"

definition multipart_decorator ::
  "string option \<Rightarrow> nat option \<Rightarrow> multipart_options \<Rightarrow> multipart_options \<times> multipart_options option" where
  "multipart_decorator contentType queried d =
    (case contentType of
       Some t \<Rightarrow> if str_includes t ''multipart/form-data''
                 then (multipart_limits queried d, Some (multipart_limits queried d)) else (d, None)
     | None \<Rightarrow> (d, None))"

subsection \<open>The handlers\<close>

text \<open>
  What busboy emits: a file (its field name, its stream, which ends at the size limit, and its mime type), the
  file's \<open>limit\<close> event, a field, an error, the end.
\<close>

datatype 'b busboy_event =
    On_file string "'b readable" string
  | On_limit
  | On_field string string
  | On_error exn
  | On_finish

datatype 'b out_event = Out_part string "'b part" | Out_error exn | Out_end

record 'b multipart_state =
  fileCount :: nat
  watched :: bool
  req_body :: "string js_object"
  out :: "'b out_event list"

definition FILE_COUNT_LIMIT_EXCEEDED :: string where
  "FILE_COUNT_LIMIT_EXCEEDED = ''File count limit exceeded''"

definition FILE_SIZE_LIMIT_EXCEEDED :: string where
  "FILE_SIZE_LIMIT_EXCEEDED = ''File size limit exceeded''"

definition INVALID_MULTIPART_FIELD :: string where
  "INVALID_MULTIPART_FIELD = ''Invalid multipart field''"

definition count_error :: "multipart_options \<Rightarrow> exn" where
  "count_error d = HttpException (FILE_COUNT_LIMIT_EXCEEDED @ ''. Maximum allowed files: '' @
    (case filesCountLimit d of None \<Rightarrow> ''undefined'' | Some n \<Rightarrow> decimal n)) (code_of PAYLOAD_TOO_LARGE)"

definition field_error :: "string \<Rightarrow> exn" where
  "field_error n = HttpException (INVALID_MULTIPART_FIELD @ '': '' @ n) (code_of BAD_REQUEST)"

definition size_error :: "multipart_options \<Rightarrow> exn" where
  "size_error d = HttpException (FILE_SIZE_LIMIT_EXCEEDED @ '': '' @
    (case limitsFileSize d of None \<Rightarrow> ''undefined'' | Some n \<Rightarrow> decimal n)) (code_of PAYLOAD_TOO_LARGE)"

definition name_allowed :: "multipart_options \<Rightarrow> string \<Rightarrow> bool" where
  "name_allowed d n \<longleftrightarrow>
    \<not> (truthy_text (fileField d) \<and> fileField d \<noteq> Some n) \<and>
    (case fileFields d of None \<Rightarrow> True | Some ns \<Rightarrow> n \<in> set ns)"

definition emit :: "'b out_event \<Rightarrow> 'b multipart_state \<Rightarrow> 'b multipart_state" where
  "emit ev st = st\<lparr>out := out st @ [ev]\<rparr>"

text \<open>A refused file is not written and its limit is not watched; the count goes up all the same.\<close>

fun on_busboy :: "multipart_options \<Rightarrow> 'b busboy_event \<Rightarrow> 'b multipart_state \<Rightarrow> 'b multipart_state" where
  "on_busboy d (On_file n s mimeType) st =
     (let st1 = st\<lparr>fileCount := Suc (fileCount st), watched := False\<rparr>
      in if truthy_nat (filesCountLimit d) \<and> fileCount st1 > the (filesCountLimit d) then emit (Out_error (count_error d)) st1
         else if \<not> name_allowed d n then emit (Out_error (field_error n)) st1
         else emit (Out_part n (File_part s mimeType)) (st1\<lparr>watched := True\<rparr>))"
| "on_busboy d On_limit st = (if watched st then emit (Out_error (size_error d)) st else st)"
| "on_busboy d (On_field n v) st = emit (Out_part n (Field_part n v)) (st\<lparr>req_body := assign_entry n v (req_body st)\<rparr>)"
| "on_busboy d (On_error e) st = emit (Out_error e) st"
| "on_busboy d On_finish st = emit Out_end st"

definition get_multipart_data :: "multipart_options \<Rightarrow> string js_object \<Rightarrow> 'b busboy_event list \<Rightarrow> 'b multipart_state" where
  "get_multipart_data d body evs =
    fold (on_busboy d) evs \<lparr>fileCount = 0, watched = False, req_body = body, out = []\<rparr>"

subsection \<open>Reading the parts\<close>

text \<open>
  The asynchronous iterator over the stream: a part that is buffered is read first; the first error is thrown when
  no part is left to read. Of the parts written after the error, \<open>late\<close> many arrive in time to be read before it.
\<close>

fun parts_of :: "'b out_event list \<Rightarrow> (string \<times> 'b part) list" where
  "parts_of [] = []"
| "parts_of (Out_part n p # es) = (n, p) # parts_of es"
| "parts_of (_ # es) = parts_of es"

fun first_error :: "'b out_event list \<Rightarrow> exn option" where
  "first_error [] = None"
| "first_error (Out_error e # es) = Some e"
| "first_error (_ # es) = first_error es"

fun is_error :: "'b out_event \<Rightarrow> bool" where
  "is_error (Out_error e) = True"
| "is_error _ = False"

definition read_parts :: "nat \<Rightarrow> 'b out_event list \<Rightarrow> 'b multipart" where
  "read_parts late es =
    \<lparr>mp_parts = map snd (parts_of (takeWhile (\<lambda>e. \<not> is_error e) es) @
        take late (parts_of (dropWhile (\<lambda>e. \<not> is_error e) es))),
     mp_failure = first_error es\<rparr>"

subsection \<open>Limits\<close>

fun is_file :: "'b part \<Rightarrow> bool" where
  "is_file (File_part f m) = True"
| "is_file (Field_part n v) = False"

definition files_out :: "'b out_event list \<Rightarrow> (string \<times> 'b part) list" where
  "files_out es = filter (\<lambda>(n, p). is_file p) (parts_of es)"

lemma parts_of_append: "parts_of (xs @ ys) = parts_of xs @ parts_of ys"
  by (induction xs rule: parts_of.induct) auto

lemma files_out_append: "files_out (xs @ ys) = files_out xs @ files_out ys"
  by (simp add: files_out_def parts_of_append)

lemma files_out_single [simp]:
  "files_out [] = []" "files_out [Out_error e] = []" "files_out [Out_end] = []"
  "files_out [Out_part n (File_part f m)] = [(n, File_part f m)]" "files_out [Out_part n (Field_part n' v)] = []"
  by (simp_all add: files_out_def)

text \<open>The invariant of the handlers: at most as many files as were counted and as the limit allows, all with allowed names.\<close>

definition multipart_inv :: "multipart_options \<Rightarrow> 'b multipart_state \<Rightarrow> bool" where
  "multipart_inv d st \<longleftrightarrow>
    length (files_out (out st)) \<le> fileCount st \<and>
    (truthy_nat (filesCountLimit d) \<longrightarrow> length (files_out (out st)) \<le> the (filesCountLimit d)) \<and>
    (\<forall>(n, p) \<in> set (files_out (out st)). name_allowed d n)"

lemma on_busboy_inv: "multipart_inv d st \<Longrightarrow> multipart_inv d (on_busboy d ev st)"
  by (cases ev) (auto simp: multipart_inv_def emit_def files_out_append Let_def)

lemma get_multipart_data_inv: "multipart_inv d (get_multipart_data d body evs)"
  unfolding get_multipart_data_def
  by (rule fold_inv [where I = "multipart_inv d"]) (erule on_busboy_inv, simp add: multipart_inv_def)

text \<open>
  C33: Whatever the body contains, in whatever order, the stream of parts never carries more files than the limit, and only files
  of the allowed field names.
\<close>

theorem files_within_limits:
  assumes "filesCountLimit d = Some n" and "n > 0"
  shows "length (files_out (out (get_multipart_data d body evs))) \<le> n \<and>
    (\<forall>x \<in> set (files_out (out (get_multipart_data d body evs))). name_allowed d (fst x))"
  using get_multipart_data_inv [of d body evs] assms by (auto simp: multipart_inv_def truthy_nat_def split_def)

subsection \<open>What the controller sees of an error\<close>

fun fields_of :: "(string \<times> string) list \<Rightarrow> 'b busboy_event list" where
  "fields_of [] = []"
| "fields_of ((n, v) # nvs) = On_field n v # fields_of nvs"

fun field_outs :: "(string \<times> string) list \<Rightarrow> 'b out_event list" where
  "field_outs [] = []"
| "field_outs ((n, v) # nvs) = Out_part n (Field_part n v) # field_outs nvs"

lemma fold_fields_out:
  "out (fold (on_busboy d) (fields_of nvs) st) = out st @ field_outs nvs"
  "fileCount (fold (on_busboy d) (fields_of nvs) st) = fileCount st"
  by (induction nvs arbitrary: st rule: fields_of.induct) (auto simp: emit_def)

lemma first_file_read:
  "first_file V dec (mp_parts (read_parts late (field_outs nvs @ Out_part n (File_part f m) # es))) fl =
    map_sum id Some (validate_and_parse V dec f m)"
  by (induction nvs rule: field_outs.induct) (auto simp: read_parts_def id_def)

lemma fold_busboy_extends: "\<exists>more. out (fold (on_busboy d) evs st) = out st @ more"
proof (induction evs arbitrary: st)
  case (Cons ev evs)
  have "\<exists>m. out (on_busboy d ev st) = out st @ m" by (cases ev) (auto simp: emit_def Let_def)
  with Cons [of "on_busboy d ev st"] show ?case by auto
qed simp

text \<open>A first file with an allowed name is what the controller parses; nothing that comes after it matters.\<close>

lemma first_file_of_upload:
  assumes "name_allowed d n"
  shows "first_file V dec (mp_parts (read_parts late (out (get_multipart_data d body
      (fields_of nvs @ On_file n f mimeType # rest)))))
      (mp_failure (read_parts late (out (get_multipart_data d body (fields_of nvs @ On_file n f mimeType # rest))))) =
    map_sum id Some (validate_and_parse V dec f mimeType)"
proof -
  let ?st = "fold (on_busboy d) (fields_of nvs) \<lparr>fileCount = 0, watched = False, req_body = body, out = []\<rparr>"
  have one: "fileCount (on_busboy d (On_file n f mimeType) ?st) = 1"
    by (simp add: fold_fields_out emit_def Let_def)
  have "\<not> (truthy_nat (filesCountLimit d) \<and> Suc 0 > the (filesCountLimit d))"
    by (auto simp: truthy_nat_def split: option.splits)
  then have first: "out (on_busboy d (On_file n f mimeType) ?st) =
      field_outs nvs @ [Out_part n (File_part f mimeType)]"
    using assms by (auto simp: fold_fields_out emit_def Let_def)
  obtain more where "out (fold (on_busboy d) rest (on_busboy d (On_file n f mimeType) ?st)) =
      field_outs nvs @ Out_part n (File_part f mimeType) # more"
    using fold_busboy_extends [of d rest "on_busboy d (On_file n f mimeType) ?st"] unfolding first by auto
  then have "out (get_multipart_data d body (fields_of nvs @ On_file n f mimeType # rest)) =
      field_outs nvs @ Out_part n (File_part f mimeType) # more"
    by (simp add: get_multipart_data_def)
  then show ?thesis by (simp add: first_file_read)
qed

text \<open>
  C40: The size limit refuses nothing: a file that runs into it, with any events after that (the \<open>limit\<close> event, a second file, an
  error of busboy), is scheduled exactly like an upload that consists of the truncated file alone.
\<close>

theorem truncated_file_is_processed:
  assumes "name_allowed d n"
  shows "process_csv S V dec (Some (read_parts late (out (get_multipart_data d body
      (fields_of nvs @ On_file n f mimeType # rest))))) webhookUrl uuid s =
    process_csv S V dec (Some \<lparr>mp_parts = [File_part f mimeType], mp_failure = None\<rparr>) webhookUrl uuid s"
  using first_file_of_upload [OF assms, of V dec late body nvs f mimeType rest] by (simp add: process_csv_def)

subsection \<open>A raw body\<close>

text \<open>
  \<open>getFileData\<close>: chunks are passed on until their sizes add up to more than the limit; then the stream gets an
  error and ends, and the listeners are removed.
\<close>

fun file_chunks :: "nat option \<Rightarrow> ('b \<Rightarrow> nat) \<Rightarrow> nat \<Rightarrow> 'b list \<Rightarrow> 'b readable" where
  "file_chunks limit sz len [] = \<lparr>chunks = [], failure = None\<rparr>"
| "file_chunks limit sz len (c # cs) =
     (let len' = len + sz c
      in if truthy_nat limit \<and> len' > the limit
         then \<lparr>chunks = [], failure = Some (HttpException FILE_SIZE_LIMIT_EXCEEDED (code_of PAYLOAD_TOO_LARGE))\<rparr>
         else (let r = file_chunks limit sz len' cs in r\<lparr>chunks := c # chunks r\<rparr>))"

record 'b file_data =
  fd_stream :: "'b readable"
  fd_mimeType :: string

definition get_file_data :: "nat option \<Rightarrow> ('b \<Rightarrow> nat) \<Rightarrow> string option \<Rightarrow> 'b list \<Rightarrow> 'b file_data" where
  "get_file_data limit sz contentType cs =
    \<lparr>fd_stream = file_chunks limit sz 0 cs,
     fd_mimeType = (case contentType of None \<Rightarrow> ''application/octet-stream'' | Some t \<Rightarrow> t)\<rparr>"

lemma file_chunks_bound:
  assumes "limit = Some n" and "n > 0" and "len \<le> n"
  shows "len + sum_list (map sz (chunks (file_chunks limit sz len cs))) \<le> n"
    and "\<exists>rest. cs = chunks (file_chunks limit sz len cs) @ rest"
    and "failure (file_chunks limit sz len cs) = None \<longleftrightarrow> len + sum_list (map sz cs) \<le> n"
    and "failure (file_chunks limit sz len cs) = None \<Longrightarrow> chunks (file_chunks limit sz len cs) = cs"
  using assms
proof (induction limit sz len cs rule: file_chunks.induct)
  case (2 limit sz len c cs)
  {
    case 1
    with 2 show ?case by (auto simp: Let_def truthy_nat_def)
  next
    case 2
    with "2.IH" show ?case by (auto simp: Let_def truthy_nat_def)
  next
    case 3
    with 2 show ?case by (auto simp: Let_def truthy_nat_def)
  next
    case 4
    with 2 show ?case by (auto simp: Let_def truthy_nat_def split: if_splits)
  }
qed auto

text \<open>
  Of a raw body the reader never gets more bytes than the limit; it gets a prefix of the chunks, all of them exactly when
  they fit, and otherwise the error of code 413.
\<close>

theorem raw_body_within_limit:
  assumes "limit = Some n" and "n > 0"
  shows "let r = fd_stream (get_file_data limit sz contentType cs) in
    sum_list (map sz (chunks r)) \<le> n \<and> (\<exists>rest. cs = chunks r @ rest) \<and>
    (failure r = None \<longleftrightarrow> sum_list (map sz cs) \<le> n) \<and> (chunks r = cs \<or> failure r \<noteq> None)"
  using file_chunks_bound [where len = 0 and sz = sz and cs = cs, OF assms] by (auto simp: get_file_data_def Let_def)

subsection \<open>The statements in a concrete world\<close>

text \<open>The options of the upload endpoint.\<close>

definition upload_options :: multipart_options where
  "upload_options =
    \<lparr>fileField = Some ''file'', fileFields = None, filesCountLimit = Some CSV_FILES_COUNT_LIMIT,
     fileSizeLimit = Some CSV_FILE_SIZE_LIMIT, fileSizeLimitQueryField = None, limitsFileSize = None\<rparr>"

lemma upload_names: "name_allowed upload_options n \<longleftrightarrow> n = ''file''"
  by (auto simp: name_allowed_def upload_options_def truthy_text_def)

theorem files_within_limits_witness:
  "length (files_out (out (get_multipart_data upload_options []
      [On_file ''file'' sample_file ''text/csv'', On_file ''more'' sample_file ''text/csv'', On_finish]))) \<le> 1"
proof -
  have "filesCountLimit upload_options = Some 1" by (simp add: upload_options_def CSV_FILES_COUNT_LIMIT_def)
  from files_within_limits [OF this zero_less_one] show ?thesis by blast
qed

text \<open>The limit event and a second file after the first one: the upload is accepted.\<close>

theorem truncated_file_is_processed_witness:
  "\<exists>s'. process_csv sample_api sample_validator id (Some (read_parts 0 (out (get_multipart_data upload_options []
      [On_field ''note'' ''x'', On_file ''file'' sample_file ''text/csv'', On_limit,
       On_file ''file'' sample_file ''text/csv'', On_finish])))) ''hook'' ''r9'' empty_world = (Inr (202, ''r9''), s')"
proof -
  let ?evs = "fields_of [(''note'', ''x'')] @ On_file ''file'' sample_file ''text/csv'' #
    [On_limit, On_file ''file'' sample_file ''text/csv'', On_finish]"
  have "name_allowed upload_options ''file''" by (simp add: upload_names)
  from truncated_file_is_processed [OF this, of sample_api sample_validator id 0 "[]" "[(''note'', ''x'')]" sample_file
      "''text/csv''" "[On_limit, On_file ''file'' sample_file ''text/csv'', On_finish]" "''hook''" "''r9''" empty_world]
  have "process_csv sample_api sample_validator id (Some (read_parts 0 (out (get_multipart_data upload_options [] ?evs))))
      ''hook'' ''r9'' empty_world =
    process_csv sample_api sample_validator id (Some \<lparr>mp_parts = [File_part sample_file ''text/csv''], mp_failure = None\<rparr>)
      ''hook'' ''r9'' empty_world" .
  moreover have "fst (process_csv sample_api sample_validator id
      (Some \<lparr>mp_parts = [File_part sample_file ''text/csv''], mp_failure = None\<rparr>) ''hook'' ''r9'' empty_world) =
    Inr (202, ''r9'')" by code_simp
  ultimately show ?thesis by (simp, metis prod.collapse)
qed

theorem raw_body_within_limit_witness:
  "sum_list (map length (chunks (fd_stream (get_file_data (Some 5) length None [''abc'', ''d'', ''efg''])))) \<le> 5 \<and>
    failure (fd_stream (get_file_data (Some 5) length None [''abc'', ''d'', ''efg''])) \<noteq> None"
  using raw_body_within_limit [of "Some 5" 5 length None "[''abc'', ''d'', ''efg'']"] by (simp add: Let_def)

end
