(* ===== verification/HttpAnswer.thy ===== *)
theory HttpAnswer
  imports ErrorResponse
begin

text \<open>
  How every route of the API answers: \<open>respond\<close> of \<open>ErrorResponse\<close> -- the interceptor around a handler, the filter around both --
  for a handler that returns and for one that throws.
\<close>

subsection \<open>The body of an answer\<close>

definition success_body :: "jv \<Rightarrow> jv" where
  "success_body d = JObj [(''success'', JBool True), (''data'', d)]"

lemma success_body_success: "jv_get (success_body d) ''success'' = JBool True"
  by (simp add: success_body_def js_own_def)

subsection \<open>How a request is answered\<close>

text \<open>The state after the interceptor's first line.\<close>

definition request_received :: "string \<Rightarrow> 'w rt \<Rightarrow> 'w rt" where
  "request_received url s =
    (if starts_with url ''/api/health-check'' then s
     else s\<lparr>log_lines := log_lines s @ [Log_line TxnLogger LLog [] [JObj [(''msg'', JStr ''Request received'')]]]\<rparr>)"

lemma respond_eq:
  "respond A url ok h s =
    tryCatch (andThen h (\<lambda>d. returning (JNum (int ok), success_body d)))
      (\<lambda>e. andThen (exception_filter A e) (\<lambda>(st, err). returning (st, http_error_jv err))) (request_received url s)"
proof -
  have "intercept url h s = andThen h (\<lambda>d. returning (success_body d)) (request_received url s)"
    by (simp add: intercept_def thenDo_def andThen_def log_to_def returning_eq success_body_def request_received_def)
  then show ?thesis
    by (auto simp: respond_def tryCatch_def andThen_def returning_eq split: prod.splits sum.splits)
qed

lemma respond_handled:
  "\<exists>s1. world s1 = world s \<and> files s1 = files s \<and>
    respond A url ok h s =
      tryCatch (andThen h (\<lambda>d. returning (JNum (int ok), success_body d)))
        (\<lambda>e. andThen (exception_filter A e) (\<lambda>(st, err). returning (st, http_error_jv err))) s1"
  by (rule exI [of _ "request_received url s"]) (simp add: respond_eq, simp add: request_received_def)

lemma keeps_filter: "keeps world (exception_filter A e)" "keeps files (exception_filter A e)"
  unfolding exception_filter_def health_check_error_resp_def Let_def
  by (auto intro!: keeps_intros split: option.split)

lemma http_error_not_success: "jv_get (http_error_jv err) ''success'' = JBool False"
  by (simp add: http_error_jv_def js_own_def)

text \<open>A successful answer is the handler's value; a handler that throws leaves the world as it was when it threw.\<close>

lemma respond_success:
  assumes "respond A url ok h s = (Inr (st, body), s')" and "jv_get body ''success'' = JBool True"
  obtains d s1 where "world s1 = world s" and "h s1 = (Inr d, s')" and "st = JNum (int ok)" and "body = success_body d"
proof -
  obtain s1 where s1: "world s1 = world s" "files s1 = files s"
    "respond A url ok h s =
      tryCatch (andThen h (\<lambda>d. returning (JNum (int ok), success_body d)))
        (\<lambda>e. andThen (exception_filter A e) (\<lambda>(st, err). returning (st, http_error_jv err))) s1"
    using respond_handled by blast
  show thesis
  proof (cases "h s1")
    case (Pair r s2)
    show ?thesis
    proof (cases r)
      case (Inl e)
      then have "\<exists>err. body = http_error_jv err"
        using assms(1) s1(3) Pair
        by (auto simp: tryCatch_def andThen_def returning_eq split: prod.splits sum.splits)
      then show ?thesis using assms(2) http_error_not_success by auto
    next
      case (Inr d)
      then show ?thesis using assms(1) s1 Pair that [of s1 d] by (simp add: tryCatch_def andThen_def returning_eq)
    qed
  qed
qed

lemma respond_throws:
  assumes "\<And>s1. world s1 = world s \<Longrightarrow> files s1 = files s \<Longrightarrow> h s1 = (Inl e, s1)"
  shows "world (snd (respond A url ok h s)) = world s" and "files (snd (respond A url ok h s)) = files s"
    and "exn_get e ''status'' = JNum c \<Longrightarrow> exn_get e ''name'' \<noteq> JStr ''ServiceUnavailableException'' \<Longrightarrow>
      \<exists>err. fst (respond A url ok h s) = Inr (JNum c, http_error_jv err)"
proof -
  obtain s1 where s1: "world s1 = world s" "files s1 = files s"
    "respond A url ok h s =
      tryCatch (andThen h (\<lambda>d. returning (JNum (int ok), success_body d)))
        (\<lambda>e. andThen (exception_filter A e) (\<lambda>(st, err). returning (st, http_error_jv err))) s1"
    using respond_handled by blast
  note h = assms [OF s1(1,2)]
  have r: "respond A url ok h s = andThen (exception_filter A e) (\<lambda>(st, err). returning (st, http_error_jv err)) s1"
    using s1(3) h by (simp add: tryCatch_def andThen_def)
  have keep: "keeps world (andThen (exception_filter A e) (\<lambda>(st, err). returning (st, http_error_jv err)))"
    "keeps files (andThen (exception_filter A e) (\<lambda>(st, err). returning (st, http_error_jv err)))"
    by (auto intro!: keeps_intros keeps_filter split: prod.split)
  show "world (snd (respond A url ok h s)) = world s" "files (snd (respond A url ok h s)) = files s"
    using keep s1(1,2) unfolding r keeps_def by metis+
  show "\<exists>err. fst (respond A url ok h s) = Inr (JNum c, http_error_jv err)"
    if "exn_get e ''status'' = JNum c" "exn_get e ''name'' \<noteq> JStr ''ServiceUnavailableException''"
    using that unfolding r
    by (auto simp: exception_filter_def Let_def nullish_def thenDo_def capture_error_def andThen_def returning_eq log_to_def)
qed

end
