(* ===== verification/Configuration.thy ===== *)
theory Configuration
  imports Effects
begin

text \<open>
  The configuration of a process: the environment as \<open>app-env.transformer.ts\<close> converts it, the rules of
  \<open>app-env.dto.ts\<close>, the check of \<open>configuration-service.service.ts\<close>, and the values that \<open>constants/config.ts\<close> reads from the same
  environment when it is loaded. The decorators of class-validator are parameters.
\<close>

subsection \<open>The environment\<close>

type_synonym env = "string \<Rightarrow> string option"

definition env_value :: "env \<Rightarrow> string \<Rightarrow> jv" where
  "env_value env k = (case env k of None \<Rightarrow> JUndef | Some t \<Rightarrow> JStr t)"

text \<open>\<open>Number(t)\<close>: the numbers that are not written in decimal digits, and NaN, are the parameter \<open>other\<close>.\<close>

definition js_number :: "(string \<Rightarrow> jv) \<Rightarrow> string \<Rightarrow> jv" where
  "js_number other t =
    (let u = trim t
     in if u = [] then JNum 0
        else if list_all is_digit u then JNum (int (read_digits u))
        else other u)"

definition transform_number :: "(string \<Rightarrow> jv) \<Rightarrow> env \<Rightarrow> string \<Rightarrow> (string \<Rightarrow> jv) \<Rightarrow> string \<Rightarrow> jv" where
  "transform_number other env k T =
    (case env k of Some t \<Rightarrow> if t = [] then T else T(k := js_number other t) | None \<Rightarrow> T)"

definition app_env_transformer :: "(string \<Rightarrow> jv) \<Rightarrow> env \<Rightarrow> string \<Rightarrow> jv" where
  "app_env_transformer other env =
    (let T = env_value env;
         T = (if env ''NODE_ENV'' = Some ''local'' then T(''APM_API_KEY'' := JStr ''key'') else T);
         T = transform_number other env ''LIVENESS_WRITE_INTERVAL'' T;
         T = transform_number other env ''IMAGE_PROCESSING_TOPIC_PARTITIONS'' T
     in transform_number other env ''IMAGE_PROCESSING_DLQ_TOPIC_PARTITIONS'' T)"

subsection \<open>The rules\<close>

datatype rule = Is_enum "string list" | Is_string | Is_not_empty | Is_port | Is_url | Is_number | Is_uuid

definition text_rules :: "rule list" where
  "text_rules = [Is_string, Is_not_empty]"

definition number_rules :: "rule list" where
  "number_rules = [Is_number, Is_not_empty]"

definition app_env :: "(string \<times> rule list) list" where
  "app_env =
    [(''NODE_ENV'', [Is_enum [''local'', ''development'', ''staging'', ''production'']]),
     (''APP_NAME'', text_rules),
     (''PORT'', [Is_port]),
     (''APM_BASE_URI'', [Is_url]),
     (''APM_API_KEY'', text_rules),
     (''LIVENESS_WRITE_INTERVAL'', number_rules),
     (''LIVENESS_FILE_PATH'', text_rules),
     (''APM_SERVICE_NAME'', text_rules),
     (''SERVER_URL'', [Is_url, Is_not_empty]),
     (''MONGODB_URI'', text_rules),
     (''KAFKA_CLIENT_ID'', text_rules),
     (''KAFKA_BROKERS'', text_rules),
     (''SCHEMA_REGISTRY_HOST'', text_rules),
     (''AVRO_SCHEMAS_DIR_PATH'', text_rules),
     (''IMAGE_PROCESSING_TOPIC_NAME'', text_rules),
     (''IMAGE_PROCESSING_TOPIC_PARTITIONS'', number_rules),
     (''IMAGE_PROCESSING_DLQ_TOPIC_NAME'', text_rules),
     (''IMAGE_PROCESSING_DLQ_TOPIC_PARTITIONS'', number_rules),
     (''IMAGE_PROCESSING_CONSUMER_GROUP_ID'', text_rules),
     (''FILE_UPLOAD_TOKEN'', text_rules),
     (''FILE_UPLOAD_BASE_URL'', text_rules),
     (''FILE_UPLOAD_AUTHOR'', text_rules),
     (''FILE_UPLOAD_EMAIL'', text_rules),
     (''FILE_UPLOAD_BRANCH'', text_rules)]"

text \<open>The library's checks: whether a value obeys a rule, and the entry of \<open>constraints\<close> for a broken one.\<close>

record validator =
  va_check :: "rule \<Rightarrow> jv \<Rightarrow> bool"
  va_explain :: "string \<Rightarrow> rule \<Rightarrow> string \<times> jv"

text \<open>What is relied on of the decorators: no value that is absent is accepted, and of texts and numbers what their names say.\<close>

definition validator_laws :: "validator \<Rightarrow> bool" where
  "validator_laws W \<longleftrightarrow>
    (\<forall>v. va_check W Is_string v \<longleftrightarrow> (\<exists>t. v = JStr t)) \<and>
    (\<forall>v. va_check W Is_not_empty v \<longleftrightarrow> v \<noteq> JUndef \<and> v \<noteq> JNull \<and> v \<noteq> JStr []) \<and>
    (\<forall>es v. va_check W (Is_enum es) v \<longleftrightarrow> (\<exists>t \<in> set es. v = JStr t)) \<and>
    (\<forall>v. va_check W Is_number v \<longrightarrow> (\<forall>t. v \<noteq> JStr t)) \<and>
    (\<forall>v. va_check W Is_port v \<longrightarrow> (\<exists>t. v = JStr t)) \<and>
    (\<forall>v. va_check W Is_url v \<longrightarrow> (\<exists>t. v = JStr t))"

subsection \<open>The check\<close>

definition validation_errors :: "validator \<Rightarrow> (string \<times> rule list) list \<Rightarrow> (string \<Rightarrow> jv) \<Rightarrow> jv list" where
  "validation_errors W schema T =
    map (\<lambda>(k, rs). JObj (map (va_explain W k) (filter (\<lambda>r. \<not> va_check W r (T k)) rs)))
      (filter (\<lambda>(k, rs). \<not> list_all (\<lambda>r. va_check W r (T k)) rs) schema)"

definition config_validation_error :: "jv list \<Rightarrow> exn" where
  "config_validation_error errors =
    Exn C_Error ''ConfigValidationError'' (''Validation failed: '' @ json_text (JArr errors)) None []"

text \<open>\<open>validate()\<close>, followed by the provider's reading of \<open>config\<close>; \<open>A\<close> is the agent.\<close>

definition validated_config ::
  "validator \<Rightarrow> (string \<Rightarrow> jv) \<Rightarrow> apm_conf \<Rightarrow> env \<Rightarrow> ('w, string \<Rightarrow> jv) act" where
  "validated_config W other A env =
    (let T = app_env_transformer other env; errors = validation_errors W app_env T
     in if errors \<noteq> []
        then let err = config_validation_error errors in thenDo (capture_error A err) (raise err)
        else returning T)"

subsection \<open>The constants\<close>

record app_config =
  cf_port :: jv
  cf_liveness_interval :: jv
  cf_brokers :: "string list"
  cf_partitions :: jv
  cf_dlq_partitions :: jv
  cf_text :: "string \<Rightarrow> jv"

text \<open>
  \<open>config\<close>: the entries that are copied from a variable are read with \<open>cf_text\<close>; \<open>other\<close> of the word \<open>NaN\<close> is what
  \<open>Number(undefined)\<close> gives. Without \<open>KAFKA_BROKERS\<close> loading the module fails.
\<close>

definition env_number :: "(string \<Rightarrow> jv) \<Rightarrow> env \<Rightarrow> string \<Rightarrow> jv" where
  "env_number other env k = (case env k of None \<Rightarrow> other ''NaN'' | Some t \<Rightarrow> js_number other t)"

definition load_config :: "(string \<Rightarrow> jv) \<Rightarrow> env \<Rightarrow> exn + app_config" where
  "load_config other env =
    (case env ''KAFKA_BROKERS'' of
       None \<Rightarrow> Inl (new_TypeError ''Cannot read properties of undefined (reading 'split')'')
     | Some brokers \<Rightarrow> Inr
         \<lparr>cf_port = (case env ''PORT'' of None \<Rightarrow> JNum 3000 | Some p \<Rightarrow> JStr p),
          cf_liveness_interval = env_number other env ''LIVENESS_WRITE_INTERVAL'',
          cf_brokers = split_on CHR '','' brokers,
          cf_partitions = env_number other env ''IMAGE_PROCESSING_TOPIC_PARTITIONS'',
          cf_dlq_partitions = env_number other env ''IMAGE_PROCESSING_DLQ_TOPIC_PARTITIONS'',
          cf_text = env_value env\<rparr>)"

subsection \<open>What is validated is what is used\<close>

definition number_keys :: "string list" where
  "number_keys =
    [''LIVENESS_WRITE_INTERVAL'', ''IMAGE_PROCESSING_TOPIC_PARTITIONS'', ''IMAGE_PROCESSING_DLQ_TOPIC_PARTITIONS'']"

definition text_keys :: "string list" where
  "text_keys = filter (\<lambda>k. k \<noteq> ''APM_API_KEY'') (map fst (filter (\<lambda>(k, rs). rs = text_rules) app_env))"

lemma transform_number_at:
  "transform_number other env k T k' =
    (if k' = k then (case env k of Some t \<Rightarrow> if t = [] then T k else js_number other t | None \<Rightarrow> T k) else T k')"
  by (auto simp: transform_number_def split: option.split)

lemma transformed_text: "k \<notin> set (''APM_API_KEY'' # number_keys) \<Longrightarrow> app_env_transformer other env k = env_value env k"
  by (simp add: app_env_transformer_def Let_def transform_number_at number_keys_def)

lemma transformed_number:
  assumes "k \<in> set number_keys"
  shows "app_env_transformer other env k =
    (case env k of Some t \<Rightarrow> if t = [] then JStr [] else js_number other t | None \<Rightarrow> JUndef)"
proof -
  have "k \<noteq> ''APM_API_KEY''" using assms by (auto simp: number_keys_def)
  then have start: "(if env ''NODE_ENV'' = Some ''local'' then (env_value env)(''APM_API_KEY'' := JStr ''key'')
      else env_value env) k = env_value env k" by simp
  from assms consider "k = ''LIVENESS_WRITE_INTERVAL''" | "k = ''IMAGE_PROCESSING_TOPIC_PARTITIONS''"
    | "k = ''IMAGE_PROCESSING_DLQ_TOPIC_PARTITIONS''"
    by (auto simp: number_keys_def)
  then show ?thesis
    using start unfolding app_env_transformer_def Let_def transform_number_at
    by cases (cases "env k"; simp add: env_value_def)+
qed

lemma validated_rules:
  assumes "validated_config W other A env s = (Inr T, s')"
  shows "T = app_env_transformer other env" and "s' = s" and "(k, rs) \<in> set app_env \<Longrightarrow> r \<in> set rs \<Longrightarrow> va_check W r (T k)"
proof -
  have e: "validation_errors W app_env (app_env_transformer other env) = []"
    using assms by (auto simp: validated_config_def Let_def thenDo_capture raise_eq split: if_splits)
  then show T: "T = app_env_transformer other env" and "s' = s"
    using assms by (simp_all add: validated_config_def Let_def returning_eq)
  show "va_check W r (T k)" if "(k, rs) \<in> set app_env" "r \<in> set rs"
    using e that unfolding T by (fastforce simp: validation_errors_def list_all_iff filter_empty_conv)
qed

lemma number_rules_of: "k \<in> set number_keys \<Longrightarrow> (k, number_rules) \<in> set app_env"
  by (auto simp: number_keys_def app_env_def)

lemma text_rules_of: "k \<in> set text_keys \<Longrightarrow> (k, text_rules) \<in> set app_env"
  by (auto simp: text_keys_def)

lemma text_key_plain: "k \<in> set text_keys \<Longrightarrow> k \<notin> set (''APM_API_KEY'' # number_keys)"
proof -
  have "list_all (\<lambda>k. \<not> List.member (''APM_API_KEY'' # number_keys) k) text_keys" by code_simp
  then show "k \<in> set text_keys \<Longrightarrow> k \<notin> set (''APM_API_KEY'' # number_keys)"
    by (simp add: list_all_iff)
qed

lemma validated_number:
  assumes "validator_laws W" and "validated_config W other A env s = (Inr T, s')" and "k \<in> set number_keys"
  shows "T k = env_number other env k \<and> va_check W Is_number (T k)"
proof -
  have r: "va_check W r (T k)" if "r \<in> set number_rules" for r
    by (rule validated_rules(3) [OF assms(2) number_rules_of [OF assms(3)] that])
  have "T k \<noteq> JUndef" "T k \<noteq> JStr []"
    using r [of Is_not_empty] assms(1) by (auto simp: number_rules_def validator_laws_def)
  then have "T k = env_number other env k"
    using transformed_number [OF assms(3), of other env] validated_rules(1) [OF assms(2)]
    by (auto simp: env_number_def split: option.splits if_splits)
  then show ?thesis using r [of Is_number] by (simp add: number_rules_def)
qed

lemma validated_text:
  assumes "validator_laws W" and "validated_config W other A env s = (Inr T, s')" and "k \<in> set text_keys"
  shows "\<exists>t. t \<noteq> [] \<and> env k = Some t \<and> T k = JStr t"
proof -
  have r: "va_check W r (T k)" if "r \<in> set text_rules" for r
    by (rule validated_rules(3) [OF assms(2) text_rules_of [OF assms(3)] that])
  have "\<exists>t. T k = JStr t \<and> t \<noteq> []"
    using r [of Is_not_empty] r [of Is_string] assms(1) by (auto simp: text_rules_def validator_laws_def)
  then show ?thesis
    using transformed_text [OF text_key_plain [OF assms(3)], of other env] validated_rules(1) [OF assms(2)]
    by (auto simp: env_value_def split: option.splits)
qed

text \<open>
  C30: An environment that passes the validation makes a well-typed configuration: loading the constants does not fail, every
  text variable that they copy is a non-empty text, the interval of the liveness check and the partitions of the topics are
  the very numbers that were validated, and the port is the variable's own value -- the default 3000 is
  never used, since the validation refuses an environment without it.
\<close>

theorem validated_environment_is_used:
  assumes "validator_laws W" and "validated_config W other A env s = (Inr T, s')"
  shows "\<exists>cfg. load_config other env = Inr cfg \<and> s' = s \<and>
    (\<exists>p. cf_port cfg = JStr p \<and> env ''PORT'' = Some p) \<and>
    list_all (\<lambda>k. \<exists>t. t \<noteq> [] \<and> cf_text cfg k = JStr t \<and> T k = JStr t) text_keys \<and>
    cf_liveness_interval cfg = T ''LIVENESS_WRITE_INTERVAL'' \<and>
    cf_partitions cfg = T ''IMAGE_PROCESSING_TOPIC_PARTITIONS'' \<and>
    cf_dlq_partitions cfg = T ''IMAGE_PROCESSING_DLQ_TOPIC_PARTITIONS'' \<and>
    list_all (\<lambda>k. va_check W Is_number (T k)) number_keys"
proof -
  have "''KAFKA_BROKERS'' \<in> set text_keys" by (simp add: text_keys_def app_env_def text_rules_def)
  from validated_text [OF assms this] obtain b where b: "env ''KAFKA_BROKERS'' = Some b" by blast
  have "va_check W Is_port (T ''PORT'')"
    by (rule validated_rules(3) [OF assms(2), of "''PORT''" "[Is_port]"]) (simp_all add: app_env_def)
  moreover have "T ''PORT'' = env_value env ''PORT''"
    using transformed_text [of "''PORT''" other env] validated_rules(1) [OF assms(2)] by (simp add: number_keys_def)
  ultimately obtain p where p: "env ''PORT'' = Some p"
    using assms(1) by (auto simp: validator_laws_def env_value_def split: option.splits)
  have "list_all (\<lambda>k. va_check W Is_number (T k)) number_keys"
    unfolding list_all_iff using validated_number [OF assms] by blast
  moreover have "env_number other env ''LIVENESS_WRITE_INTERVAL'' = T ''LIVENESS_WRITE_INTERVAL''"
    "env_number other env ''IMAGE_PROCESSING_TOPIC_PARTITIONS'' = T ''IMAGE_PROCESSING_TOPIC_PARTITIONS''"
    "env_number other env ''IMAGE_PROCESSING_DLQ_TOPIC_PARTITIONS'' = T ''IMAGE_PROCESSING_DLQ_TOPIC_PARTITIONS''"
    by (rule validated_number [OF assms, THEN conjunct1, symmetric], simp add: number_keys_def)+
  moreover have "list_all (\<lambda>k. \<exists>t. t \<noteq> [] \<and> env_value env k = JStr t \<and> T k = JStr t) text_keys"
    using validated_text [OF assms] by (force simp: list_all_iff env_value_def)
  ultimately show ?thesis using b p validated_rules(2) [OF assms(2)] by (simp add: load_config_def)
qed

subsection \<open>The statement in a concrete world\<close>

fun sample_check :: "rule \<Rightarrow> jv \<Rightarrow> bool" where
  "sample_check (Is_enum es) v = list_ex (\<lambda>e. v = JStr e) es"
| "sample_check Is_not_empty v = (v \<noteq> JUndef \<and> v \<noteq> JNull \<and> v \<noteq> JStr [])"
| "sample_check Is_number v = (case v of JNum n \<Rightarrow> True | _ \<Rightarrow> False)"
| "sample_check r v = (case v of JStr t \<Rightarrow> True | _ \<Rightarrow> False)"

definition sample_validator :: validator where
  "sample_validator = \<lparr>va_check = sample_check, va_explain = (\<lambda>k r. (k, JStr ''invalid''))\<rparr>"

lemma sample_validator_laws: "validator_laws sample_validator"
  by (auto simp: validator_laws_def sample_validator_def list_ex_iff split: jv.splits)

definition sample_env :: env where
  "sample_env k =
    (if k = ''NODE_ENV'' then Some ''local''
     else if k = ''PORT'' then Some ''4001''
     else if List.member number_keys k then Some ''3''
     else Some ''x,y'')"

text \<open>The environment is accepted; the partitions are the number 3 and the brokers are split.\<close>

theorem validated_environment_is_used_witness:
  "\<exists>T cfg. validated_config sample_validator (\<lambda>t. JNull) \<lparr>apm_on = True, apm_txn = None\<rparr> sample_env
      \<lparr>world = (), files = \<lparr>is_dir = (\<lambda>q. False), file_at = Map.empty\<rparr>, log_lines = [], apm_events = []\<rparr> =
      (Inr T, \<lparr>world = (), files = \<lparr>is_dir = (\<lambda>q. False), file_at = Map.empty\<rparr>, log_lines = [], apm_events = []\<rparr>) \<and>
    load_config (\<lambda>t. JNull) sample_env = Inr cfg \<and> cf_partitions cfg = T ''IMAGE_PROCESSING_TOPIC_PARTITIONS'' \<and>
    cf_brokers cfg = [''x'', ''y''] \<and> T ''IMAGE_PROCESSING_TOPIC_PARTITIONS'' = JNum 3"
proof -
  let ?s = "\<lparr>world = (), files = \<lparr>is_dir = (\<lambda>q. False), file_at = Map.empty\<rparr>, log_lines = [], apm_events = []\<rparr>"
  let ?T = "app_env_transformer (\<lambda>t. JNull) sample_env"
  have "validation_errors sample_validator app_env ?T = []" by code_simp
  then have v: "validated_config sample_validator (\<lambda>t. JNull) \<lparr>apm_on = True, apm_txn = None\<rparr> sample_env ?s = (Inr ?T, ?s)"
    by (simp add: validated_config_def Let_def returning_eq)
  have "?T ''IMAGE_PROCESSING_TOPIC_PARTITIONS'' = JNum 3" by code_simp
  moreover have "map_sum id cf_brokers (load_config (\<lambda>t. JNull) sample_env) = Inr [''x'', ''y'']" by code_simp
  ultimately show ?thesis
    using validated_environment_is_used [OF sample_validator_laws v] v by auto
qed

end
