(* ===== verification/UploadApi.thy ===== *)
theory UploadApi
  imports MultipartUpload HttpAnswer Configuration
begin

text \<open>
  The two endpoints of \<open>image-processing.controller.ts\<close> as a client sees them: the validation pipe
  (\<open>pipes/http-req-validation.pipe.ts\<close>) over the rules of \<open>image-processing.dto.ts\<close>, the multipart decorator, the handler,
  the response interceptor and the exception filter, in the order Nest runs them. Nest's \<open>ValidationPipe\<close> is a parameter.
\<close>

subsection \<open>The pipe\<close>

type_synonym pipe_options = "jv js_object"

text \<open>\<open>ValidationPipe.transform\<close>, by the options it was made with and the rules of the parameter's class.\<close>

type_synonym validation_pipe = "pipe_options \<Rightarrow> (string \<times> rule list) list \<Rightarrow> jv js_object \<Rightarrow> exn + jv js_object"

definition default_pipe_options :: pipe_options where
  "default_pipe_options =
    [(''transform'', JBool True), (''whitelist'', JBool True), (''validateCustomDecorators'', JBool True)]"

definition new_pipe_options :: "pipe_options option \<Rightarrow> pipe_options" where
  "new_pipe_options options =
    (case options of None \<Rightarrow> default_pipe_options
     | Some os \<Rightarrow> fold (\<lambda>(k, v) o'. js_put k v o') os default_pipe_options)"

definition http_req_pipe ::
  "validation_pipe \<Rightarrow> (jv js_object \<Rightarrow> jv js_object) option \<Rightarrow> pipe_options option \<Rightarrow> (string \<times> rule list) list \<Rightarrow>
   jv js_object \<Rightarrow> exn + jv js_object" where
  "http_req_pipe vp transformer options rules value =
    (let value = (case transformer of None \<Rightarrow> value | Some f \<Rightarrow> f value)
     in vp (new_pipe_options options) rules value)"

definition process_csv_query :: "(string \<times> rule list) list" where
  "process_csv_query = [(''webhookUrl'', [Is_string, Is_not_empty, Is_url])]"

definition get_status_param :: "(string \<times> rule list) list" where
  "get_status_param = [(''requestId'', [Is_uuid, Is_not_empty])]"

text \<open>
  What is relied on of the pipe, with the options that the code gives it: an object that obeys the rules is returned with just the properties that have
  rules, any other one is refused with a \<open>BadRequestException\<close>.
\<close>

definition obeys :: "Configuration.validator \<Rightarrow> (string \<times> rule list) list \<Rightarrow> jv js_object \<Rightarrow> bool" where
  "obeys W rules v \<longleftrightarrow> list_all (\<lambda>(k, rs). list_all (\<lambda>r. va_check W r (jv_get (JObj v) k)) rs) rules"

definition pipe_laws :: "Configuration.validator \<Rightarrow> validation_pipe \<Rightarrow> bool" where
  "pipe_laws W vp \<longleftrightarrow>
    (\<forall>rules v.
       if obeys W rules v then vp default_pipe_options rules v = Inr (filter (\<lambda>(k, x). k \<in> fst ` set rules) v)
       else \<exists>e. vp default_pipe_options rules v = Inl e \<and> exn_get e ''status'' = JNum 400 \<and>
         exn_get e ''name'' = JStr ''BadRequestException'')"

subsection \<open>The endpoints\<close>

text \<open>A request for an upload: its content type, its query, and what busboy makes of its body.\<close>

record 'b http_upload =
  ur_contentType :: "string option"
  ur_query :: "jv js_object"
  ur_events :: "'b busboy_event list"

definition multipart_of :: "multipart_options \<Rightarrow> nat \<Rightarrow> 'b http_upload \<Rightarrow> 'b multipart option" where
  "multipart_of d late req =
    map_option (\<lambda>os. read_parts late (out (get_multipart_data os [] (ur_events req))))
      (snd (multipart_decorator (ur_contentType req) None d))"

definition upload_handler ::
  "('d, 'q, 'b) api_services \<Rightarrow> CsvEntity.validator \<Rightarrow> ('x \<Rightarrow> string) \<Rightarrow> validation_pipe \<Rightarrow> nat \<Rightarrow> 'x http_upload \<Rightarrow>
   string \<Rightarrow> ('d \<times> 'q, jv) act" where
  "upload_handler S V dec vp late req uuid =
    andThen (pure_result (http_req_pipe vp None None process_csv_query (ur_query req))) (\<lambda>query.
      andThen (process_csv S V dec (multipart_of upload_options late req)
          (jv_string (jv_get (JObj query) ''webhookUrl'')) uuid)
        (\<lambda>(code, requestId). returning (JObj [(''requestId'', JStr requestId)])))"

definition post_upload ::
  "('d, 'q, 'b) api_services \<Rightarrow> apm_conf \<Rightarrow> CsvEntity.validator \<Rightarrow> ('x \<Rightarrow> string) \<Rightarrow> validation_pipe \<Rightarrow> nat \<Rightarrow>
   'x http_upload \<Rightarrow> string \<Rightarrow> ('d \<times> 'q, jv \<times> jv) act" where
  "post_upload S A V dec vp late req uuid =
    respond A ''/api/image-processing/process/csv'' (code_of ACCEPTED_CODE) (upload_handler S V dec vp late req uuid)"

definition status_handler ::
  "('d, 'q, 'b) api_services \<Rightarrow> validation_pipe \<Rightarrow> string \<Rightarrow> ('d \<times> 'q, jv) act" where
  "status_handler S vp requestId =
    andThen (pure_result (http_req_pipe vp None None get_status_param [(''requestId'', JStr requestId)])) (\<lambda>params.
      andThen (controller_get_status S (jv_string (jv_get (JObj params) ''requestId'')))
        (\<lambda>(st, msg). returning (JObj [(''status'', JStr (status_text st)), (''message'', JStr msg)])))"

definition get_request_status ::
  "('d, 'q, 'b) api_services \<Rightarrow> apm_conf \<Rightarrow> validation_pipe \<Rightarrow> string \<Rightarrow> ('d \<times> 'q, jv \<times> jv) act" where
  "get_request_status S A vp requestId =
    respond A (''/api/image-processing/status/'' @ requestId) 200 (status_handler S vp requestId)"

subsection \<open>What the pipe lets through\<close>

lemma default_options: "new_pipe_options None = default_pipe_options"
  by (simp add: new_pipe_options_def)

lemma pipe_outcome:
  assumes "pipe_laws W vp"
  shows "if obeys W rules v then http_req_pipe vp None None rules v = Inr (filter (\<lambda>(k, x). k \<in> fst ` set rules) v)
     else \<exists>e. http_req_pipe vp None None rules v = Inl e \<and> exn_get e ''status'' = JNum 400 \<and>
       exn_get e ''name'' = JStr ''BadRequestException''"
  using assms by (simp add: pipe_laws_def http_req_pipe_def default_options)

lemma pipe_result:
  assumes "pipe_laws W vp" and "http_req_pipe vp None None rules v = Inr v'"
  shows "obeys W rules v" and "v' = filter (\<lambda>(k, x). k \<in> fst ` set rules) v"
  using pipe_outcome [OF assms(1), of rules v] assms(2) by (auto split: if_splits)

lemma pipe_refuses:
  assumes "pipe_laws W vp" and "\<not> obeys W rules v"
  obtains e where "http_req_pipe vp None None rules v = Inl e" and "exn_get e ''status'' = JNum 400"
    and "exn_get e ''name'' = JStr ''BadRequestException''"
  using pipe_outcome [OF assms(1), of rules v] assms(2) that by auto

text \<open>Filtering an object leaves the properties that are kept as they were.\<close>

lemma filtered_get:
  "k \<in> ks \<Longrightarrow> jv_get (JObj (filter (\<lambda>(k, x). k \<in> ks) v)) k = jv_get (JObj v) k"
proof -
  assume "k \<in> ks"
  then have "js_own (filter (\<lambda>(k, x). k \<in> ks) v) k = js_own v k"
    by (induction v) (auto simp: js_own_def)
  then show ?thesis by simp
qed

lemma text_of_rules:
  "validator_laws W \<Longrightarrow> va_check W Is_string x \<Longrightarrow> \<exists>t. x = JStr t"
  by (simp add: validator_laws_def)

subsection \<open>Uploads\<close>

lemma upload_query_text:
  assumes "validator_laws W" and "pipe_laws W vp" and "http_req_pipe vp None None process_csv_query q = Inr q'"
  obtains u where "jv_get (JObj q) ''webhookUrl'' = JStr u" and "jv_string (jv_get (JObj q') ''webhookUrl'') = u"
proof -
  note r = pipe_result [OF assms(2,3)]
  have "va_check W Is_string (jv_get (JObj q) ''webhookUrl'')"
    using r(1) by (simp add: obeys_def process_csv_query_def)
  then obtain u where u: "jv_get (JObj q) ''webhookUrl'' = JStr u" using text_of_rules [OF assms(1)] by blast
  have "jv_get (JObj q') ''webhookUrl'' = jv_get (JObj q) ''webhookUrl''"
    unfolding r(2) by (rule filtered_get) (simp add: process_csv_query_def)
  with u that show thesis by simp
qed

text \<open>A successful answer comes from a run of the controller in the same world.\<close>

lemma successful_upload_ran:
  assumes "validator_laws W" and "pipe_laws W vp"
    and "post_upload S A V dec vp late req uuid s = (Inr (st, body), s')" and "jv_get body ''success'' = JBool True"
  obtains u code i s1 where "jv_get (JObj (ur_query req)) ''webhookUrl'' = JStr u" and "obeys W process_csv_query (ur_query req)"
    and "world s1 = world s" and "process_csv S V dec (multipart_of upload_options late req) u uuid s1 = (Inr (code, i), s')"
    and "st = JNum 202" and "body = success_body (JObj [(''requestId'', JStr i)])"
proof -
  obtain d s1 where w: "world s1 = world s" and h: "upload_handler S V dec vp late req uuid s1 = (Inr d, s')"
    and st: "st = JNum (int (code_of ACCEPTED_CODE))" and b: "body = success_body d"
    using respond_success [OF assms(3) [unfolded post_upload_def] assms(4)] .
  obtain q where q: "http_req_pipe vp None None process_csv_query (ur_query req) = Inr q"
    and p: "andThen (process_csv S V dec (multipart_of upload_options late req) (jv_string (jv_get (JObj q) ''webhookUrl'')) uuid)
      (\<lambda>(code, requestId). returning (JObj [(''requestId'', JStr requestId)])) s1 = (Inr d, s')"
    using h by (auto simp: upload_handler_def andThen_result pure_result_def)
  obtain u where u: "jv_get (JObj (ur_query req)) ''webhookUrl'' = JStr u" "jv_string (jv_get (JObj q) ''webhookUrl'') = u"
    using upload_query_text [OF assms(1,2) q] .
  obtain code i where c: "process_csv S V dec (multipart_of upload_options late req) u uuid s1 = (Inr (code, i), s')"
    and d: "d = JObj [(''requestId'', JStr i)]"
    using p unfolding u(2) by (auto simp: andThen_result returning_eq)
  from that [OF u(1) pipe_result(1) [OF assms(2) q] w c] st b d show thesis by simp
qed

text \<open>
  C16: A successful answer to an upload means that all of it has happened. The status is 202 and the body names the request; the query
  obeyed its rules; the body carried a file that was accepted; under the id, which was free, the database has a request with the
  status Accepted, exactly the products of the file and the webhook of the query, and no other request has changed; and the broker
  has taken one message with the id as key and id, products and webhook as value.
\<close>

theorem successful_upload_is_scheduled:
  assumes "collection_laws (as_model S) docs" and "validator_laws W" and "pipe_laws W vp"
    and "post_upload S A V dec vp late req uuid s = (Inr (st, body), s')" and "jv_get body ''success'' = JBool True"
  shows "st = JNum 202 \<and> body = success_body (JObj [(''requestId'', JStr uuid)]) \<and> obeys W process_csv_query (ur_query req) \<and>
    (\<exists>u mp data. jv_get (JObj (ur_query req)) ''webhookUrl'' = JStr u \<and> multipart_of upload_options late req = Some mp \<and>
      first_file V dec (mp_parts mp) (mp_failure mp) = Inr (Some data) \<and> docs (db_of s) uuid = None \<and>
      docs (db_of s') = (docs (db_of s))(uuid \<mapsto> request_defaults (accepted_request uuid (products data) u)) \<and>
      (\<exists>x. send_call (as_producer S) (as_apm S)
        (mc_topic (as_messaging S), processing_message uuid (products data) u, True) (queue_of s) = (Inr x, queue_of s')))"
proof -
  obtain u code i s1 where r: "jv_get (JObj (ur_query req)) ''webhookUrl'' = JStr u" "obeys W process_csv_query (ur_query req)"
    "world s1 = world s" and c: "process_csv S V dec (multipart_of upload_options late req) u uuid s1 = (Inr (code, i), s')"
    and b: "st = JNum 202" "body = success_body (JObj [(''requestId'', JStr i)])"
    using successful_upload_ran [OF assms(2-5)] .
  have same: "db_of s1 = db_of s" "queue_of s1 = queue_of s" using r(3) by (simp_all add: db_of_def queue_of_def)
  show ?thesis using process_csv_stored [OF assms(1) c] r(1,2) b unfolding same by auto
qed

lemma refused_file_error:
  assumes "case body of None \<Rightarrow> True
    | Some mp \<Rightarrow> \<forall>data. first_file V dec (mp_parts mp) (mp_failure mp) \<noteq> Inr (Some data)"
  shows "\<exists>e. (\<forall>u s. process_csv S V dec body u uuid s = (Inl e, s)) \<and> (body = None \<longrightarrow> e = FILE_NOT_UPLOADED)"
proof (cases "\<exists>mp e. body = Some mp \<and> first_file V dec (mp_parts mp) (mp_failure mp) = Inl e")
  case True
  then obtain mp e where "body = Some mp" "first_file V dec (mp_parts mp) (mp_failure mp) = Inl e" by blast
  then show ?thesis by (simp add: process_csv_def andThen_def pure_result_def)
next
  case False
  then have "process_csv S V dec body u uuid s = (Inl FILE_NOT_UPLOADED, s)" for u s
    using refused_upload_has_no_effect [OF assms, of S u uuid s] by auto
  then show ?thesis by blast
qed

text \<open>
  C22: An upload with a bad query, without a multipart body, without a file, or whose file is refused has no effect: database,
  broker and files are as before. A bad query -- above all a webhook that is not a url -- is answered 400, a request without a
  multipart body 422.
\<close>

theorem refused_upload_changes_nothing:
  assumes "pipe_laws W vp"
    and "obeys W process_csv_query (ur_query req) \<Longrightarrow>
      case multipart_of upload_options late req of None \<Rightarrow> True
      | Some mp \<Rightarrow> \<forall>data. first_file V dec (mp_parts mp) (mp_failure mp) \<noteq> Inr (Some data)"
  shows "world (snd (post_upload S A V dec vp late req uuid s)) = world s \<and>
    files (snd (post_upload S A V dec vp late req uuid s)) = files s \<and>
    (\<not> obeys W process_csv_query (ur_query req) \<longrightarrow>
      (\<exists>err. fst (post_upload S A V dec vp late req uuid s) = Inr (JNum 400, http_error_jv err))) \<and>
    (obeys W process_csv_query (ur_query req) \<longrightarrow> multipart_of upload_options late req = None \<longrightarrow>
      (\<exists>err. fst (post_upload S A V dec vp late req uuid s) = Inr (JNum 422, http_error_jv err)))"
proof (cases "obeys W process_csv_query (ur_query req)")
  case False
  then obtain e where e: "http_req_pipe vp None None process_csv_query (ur_query req) = Inl e" "exn_get e ''status'' = JNum 400"
    "exn_get e ''name'' = JStr ''BadRequestException''"
    using pipe_refuses [OF assms(1)] by blast
  then have "upload_handler S V dec vp late req uuid s1 = (Inl e, s1)" for s1
    by (simp add: upload_handler_def andThen_def pure_result_def)
  from respond_throws [of s "upload_handler S V dec vp late req uuid" e, OF this] e(2,3) False show ?thesis
    unfolding post_upload_def by simp
next
  case True
  then obtain q where q: "http_req_pipe vp None None process_csv_query (ur_query req) = Inr q"
    using pipe_outcome [OF assms(1), of process_csv_query "ur_query req"] by auto
  from refused_file_error [OF assms(2) [OF True], of S uuid] obtain e
    where e: "\<forall>u s1. process_csv S V dec (multipart_of upload_options late req) u uuid s1 = (Inl e, s1)"
    and none: "multipart_of upload_options late req = None \<longrightarrow> e = FILE_NOT_UPLOADED" by (elim exE conjE)
  then have "upload_handler S V dec vp late req uuid s1 = (Inl e, s1)" for s1
    using q by (simp add: upload_handler_def andThen_def pure_result_def)
  from respond_throws [of s "upload_handler S V dec vp late req uuid" e, OF this] True none show ?thesis
    unfolding post_upload_def by (auto simp: FILE_NOT_UPLOADED_def HttpException_def js_own_def)
qed

subsection \<open>Status requests\<close>

text \<open>A successful answer of the status endpoint is what the database holds under the id.\<close>

lemma status_answered:
  assumes "collection_laws (as_model S) docs" and "pipe_laws W vp"
    and "get_request_status S A vp i s = (Inr (st, body), s')" and "jv_get body ''success'' = JBool True"
  shows "\<exists>r. docs (db_of s) i = Some r \<and> st = JNum 200 \<and>
    body = success_body (JObj [(''status'', JStr (status_text (rq_status r))), (''message'', JStr (rq_message r))])"
proof -
  obtain d s2 where w: "world s2 = world s" and h: "status_handler S vp i s2 = (Inr d, s')"
    and st: "st = JNum (int 200)" and b: "body = success_body d"
    using respond_success [OF assms(3) [unfolded get_request_status_def] assms(4)] .
  obtain q where q: "http_req_pipe vp None None get_status_param [(''requestId'', JStr i)] = Inr q"
    and p: "andThen (controller_get_status S (jv_string (jv_get (JObj q) ''requestId'')))
      (\<lambda>(st, msg). returning (JObj [(''status'', JStr (status_text st)), (''message'', JStr msg)])) s2 = (Inr d, s')"
    using h by (auto simp: status_handler_def andThen_result pure_result_def)
  have "q = [(''requestId'', JStr i)]" using pipe_result(2) [OF assms(2) q] by (simp add: get_status_param_def)
  with p obtain a m d' where g: "get_status (as_model S) i (db_of s2) = (Inr (a, m), d')"
    and d: "d = JObj [(''status'', JStr (status_text a)), (''message'', JStr m)]"
    by (auto simp: controller_get_status_def status_service_get_def on_db_result andThen_result returning_eq js_own_def)
  have "db_of s2 = db_of s" using w by (simp add: db_of_def)
  with repo.status_reads [OF assms(1) g] st b d show ?thesis by auto
qed

text \<open>
  C23: The status endpoint answers for what the upload endpoint returned: asked with the id in the body of a successful upload, a
  successful answer is a 200 with the status Accepted and the message of that status.
\<close>

theorem accepted_upload_status_request:
  assumes "collection_laws (as_model S) docs" and "validator_laws W" and "pipe_laws W vp"
    and "post_upload S A V dec vp late req uuid s = (Inr (st, success_body (JObj [(''requestId'', JStr i)])), s')"
    and "get_request_status S A vp i s' = (Inr (st', body), s'')" and "jv_get body ''success'' = JBool True"
  shows "st' = JNum 200 \<and>
    body = success_body (JObj [(''status'', JStr ''Accepted''), (''message'', JStr ''request accepted and queued for processing'')])"
proof -
  from successful_upload_ran [OF assms(2-4) success_body_success]
  obtain u code j s1 where "process_csv S V dec (multipart_of upload_options late req) u uuid s1 = (Inr (code, j), s')"
    and "success_body (JObj [(''requestId'', JStr i)]) = success_body (JObj [(''requestId'', JStr j)])" .
  then have c: "process_csv S V dec (multipart_of upload_options late req) u uuid s1 = (Inr (code, i), s')"
    by (simp add: success_body_def)
  have "docs (db_of s') uuid = Some (request_defaults (accepted_request uuid ps u))" if "schedule_image_processing S uuid ps u s1 = (Inr i, s')" for ps
    using schedule_result [OF assms(1) that] by simp
  moreover obtain ps where "schedule_image_processing S uuid ps u s1 = (Inr i, s')" "i = uuid"
    using process_csv_stored [OF assms(1) c] c by (auto simp: process_csv_def result_simps split: option.splits)
  ultimately show ?thesis
    using status_answered [OF assms(1,3,5,6)]
    by (auto simp: request_defaults_def accepted_request_def status_message.simps status_text.simps)
qed

subsection \<open>The statements in a concrete world\<close>

definition sample_pipe :: validation_pipe where
  "sample_pipe os rules v =
    (if obeys Configuration.sample_validator rules v then Inr (filter (\<lambda>(k, x). k \<in> fst ` set rules) v)
     else Inl (Exn C_HttpException ''BadRequestException'' ''Bad Request Exception'' None [(''status'', JNum 400)]))"

lemma sample_pipe_laws: "pipe_laws Configuration.sample_validator sample_pipe"
  by (simp add: pipe_laws_def sample_pipe_def js_own_def)

definition csv_request :: "string http_upload" where
  "csv_request =
    \<lparr>ur_contentType = Some ''multipart/form-data; boundary=x'', ur_query = [(''webhookUrl'', JStr ''https://shop/hook'')],
     ur_events = [On_file ''file'' sample_file ''text/csv'', On_finish]\<rparr>"

definition sample_post :: "(((string \<Rightarrow> request_doc option) \<times> sample_world), jv \<times> jv) act" where
  "sample_post = post_upload sample_api quiet_apm CsvRefine.sample_validator id sample_pipe 0 csv_request ''r9''"

lemma sample_body:
  "multipart_of upload_options 0 csv_request =
    Some \<lparr>mp_parts = [File_part sample_file ''text/csv''], mp_failure = None\<rparr>"
proof -
  have "str_includes ''multipart/form-data; boundary=x'' ''multipart/form-data''" by code_simp
  then show ?thesis
    by (simp add: multipart_of_def csv_request_def multipart_decorator_def multipart_limits_def upload_options_def
        truthy_nat_def truthy_text_def name_allowed_def get_multipart_data_def CSV_FILES_COUNT_LIMIT_def
        CSV_FILE_SIZE_LIMIT_def emit_def Let_def read_parts_def)
qed

lemma sample_query:
  "http_req_pipe sample_pipe None None process_csv_query (ur_query csv_request) = Inr (ur_query csv_request)"
  by code_simp

definition client_db :: "string \<Rightarrow> request_doc option" where
  "client_db = [''r9'' \<mapsto> request_defaults (accepted_request ''r9'' (products sample_data) ''https://shop/hook'')]"

lemma client_file: "validate_and_parse CsvRefine.sample_validator id sample_file ''text/csv'' = Inr sample_data"
  by code_simp

lemma sample_post_runs:
  "\<exists>s'. sample_post empty_world = (Inr (JNum 202, success_body (JObj [(''requestId'', JStr ''r9'')])), s') \<and>
    db_of s' = client_db"
proof -
  let ?s = "request_received ''/api/image-processing/process/csv'' empty_world"
  let ?u = "\<lparr>mp_parts = [File_part sample_file ''text/csv''], mp_failure = None\<rparr>"
  have "fst (process_csv sample_api CsvRefine.sample_validator id (Some ?u) ''https://shop/hook'' ''r9'' ?s) = Inr (202, ''r9'')"
    by code_simp
  then obtain s' where run: "process_csv sample_api CsvRefine.sample_validator id (Some ?u) ''https://shop/hook'' ''r9'' ?s =
      (Inr (202, ''r9''), s')"
    by (metis prod.collapse)
  have "jv_string (jv_get (JObj (ur_query csv_request)) ''webhookUrl'') = ''https://shop/hook''"
    by (simp add: csv_request_def js_own_def)
  then have "sample_post empty_world = (Inr (JNum 202, success_body (JObj [(''requestId'', JStr ''r9'')])), s')"
    using run by (simp add: sample_post_def post_upload_def respond_eq upload_handler_def tryCatch_def andThen_def
        pure_result_def sample_query sample_body returning_eq)
  moreover have empty: "db_of ?s = Map.empty" by (simp add: request_received_def db_of_def empty_world_def)
  have "db_of s' = client_db"
    using process_csv_stored [OF sample_api_laws(1) run] by (auto simp: client_file client_db_def empty)
  ultimately show ?thesis by blast
qed

lemma sample_status_runs:
  "db_of s ''r9'' = Some r \<Longrightarrow>
    \<exists>d s'. get_request_status sample_api quiet_apm sample_pipe ''r9'' s = (Inr (JNum 200, success_body d), s')"
proof -
  assume r: "db_of s ''r9'' = Some r"
  have q: "http_req_pipe sample_pipe None None get_status_param [(''requestId'', JStr ''r9'')] = Inr [(''requestId'', JStr ''r9'')]"
    by code_simp
  have "db_of (request_received (''/api/image-processing/status/'' @ ''r9'') s) ''r9'' = Some r"
    using r by (simp add: request_received_def db_of_def)
  then have "\<exists>x s'. controller_get_status sample_api ''r9'' (request_received (''/api/image-processing/status/'' @ ''r9'') s) = (Inr x, s')"
    by (auto simp: controller_get_status_def status_service_get_def on_db_result get_status_def sample_api_def memory_model_def
        found_or_404_def)
  then show ?thesis
    by (auto simp: get_request_status_def respond_eq status_handler_def tryCatch_def andThen_def pure_result_def q js_own_def
        returning_eq simp del: append.simps)
qed

theorem successful_upload_is_scheduled_witness:
  "\<exists>s' r. sample_post empty_world = (Inr (JNum 202, success_body (JObj [(''requestId'', JStr ''r9'')])), s') \<and>
    db_of s' ''r9'' = Some r \<and> rq_status r = ACCEPTED \<and> rq_webhookUrl r = ''https://shop/hook''"
proof -
  obtain s' where run: "sample_post empty_world = (Inr (JNum 202, success_body (JObj [(''requestId'', JStr ''r9'')])), s')"
    using sample_post_runs by blast
  from successful_upload_is_scheduled [OF sample_api_laws(1) sample_validator_laws sample_pipe_laws
      run [unfolded sample_post_def] success_body_success] run
  show ?thesis by (auto simp: request_defaults_def accepted_request_def csv_request_def js_own_def)
qed

theorem refused_upload_changes_nothing_witness:
  "\<exists>err. fst (post_upload sample_api quiet_apm CsvRefine.sample_validator id sample_pipe 0
    (csv_request\<lparr>ur_query := []\<rparr>) ''r9'' empty_world) = Inr (JNum 400, http_error_jv err)"
proof -
  have no: "\<not> obeys Configuration.sample_validator process_csv_query (ur_query (csv_request\<lparr>ur_query := []\<rparr>))" by code_simp
  from refused_upload_changes_nothing [OF sample_pipe_laws, of "csv_request\<lparr>ur_query := []\<rparr>"] no
  show ?thesis by blast
qed

theorem accepted_upload_status_request_witness:
  "\<exists>s' s''. sample_post empty_world = (Inr (JNum 202, success_body (JObj [(''requestId'', JStr ''r9'')])), s') \<and>
    get_request_status sample_api quiet_apm sample_pipe ''r9'' s' =
      (Inr (JNum 200, success_body (JObj [(''status'', JStr ''Accepted''),
        (''message'', JStr ''request accepted and queued for processing'')])), s'')"
proof -
  obtain s' where run: "sample_post empty_world = (Inr (JNum 202, success_body (JObj [(''requestId'', JStr ''r9'')])), s')"
    and r: "db_of s' = client_db"
    using sample_post_runs by blast
  have "\<exists>d. db_of s' ''r9'' = Some d" by (simp add: r client_db_def)
  with sample_status_runs obtain d s'' where
    get: "get_request_status sample_api quiet_apm sample_pipe ''r9'' s' = (Inr (JNum 200, success_body d), s'')"
    by blast
  from accepted_upload_status_request [OF sample_api_laws(1) sample_validator_laws sample_pipe_laws
      run [unfolded sample_post_def] get success_body_success] get run
  show ?thesis by auto
qed

end
