(* ===== verification/ServiceRun.thy ===== *)
theory ServiceRun
  imports EndToEnd UploadApi
begin

text \<open>
  The service as its client sees it: an upload to the API process, the message in the consumer process, and a status request, over
  one database.
\<close>

text \<open>Over the database \<open>d\<close>, a status request that is answered successfully is answered 200, with a final status.\<close>

definition final_reported :: "('d, 'q, 'b) api_services \<Rightarrow> apm_conf \<Rightarrow> validation_pipe \<Rightarrow> string \<Rightarrow> 'd \<Rightarrow> bool" where
  "final_reported S A vp requestId d \<longleftrightarrow>
    (\<forall>s st body s'. db_of s = d \<longrightarrow> get_request_status S A vp requestId s = (Inr (st, body), s') \<longrightarrow>
      jv_get body ''success'' = JBool True \<longrightarrow>
      st = JNum 200 \<and> (\<exists>final \<in> {SUCCEEDED, FAILED}. \<exists>m.
        body = success_body (JObj [(''status'', JStr (status_text final)), (''message'', JStr m)])))"

lemma settled_reported:
  assumes "collection_laws (as_model S) docs" and "pipe_laws W vp" and "settled P docs i ps c"
  shows "final_reported S A vp i (db_of c)"
  unfolding final_reported_def
proof (intro allI impI)
  fix s st body s'
  assume d: "db_of s = db_of c" and g: "get_request_status S A vp i s = (Inr (st, body), s')"
    and ok: "jv_get body ''success'' = JBool True"
  from assms(3) obtain r where r: "docs (db_of c) i = Some r" "rq_status r \<in> {SUCCEEDED, FAILED}" by (auto simp: settled_def)
  from status_answered [OF assms(1,2) g ok] r(1) d have "st = JNum 200 \<and>
      body = success_body (JObj [(''status'', JStr (status_text (rq_status r))), (''message'', JStr (rq_message r))])" by simp
  then show "st = JNum 200 \<and> (\<exists>final \<in> {SUCCEEDED, FAILED}. \<exists>m.
      body = success_body (JObj [(''status'', JStr (status_text final)), (''message'', JStr m)]))" using r(2) by blast
qed

text \<open>
  C1: An accepted upload comes to an end, and the client is told. Let the upload endpoint answer an upload with success. Then the request
  is stored as Accepted and the broker has taken its message. Let that message arrive at a consumer over the same database, with
  an offset that is new. Then the handler returns, and the image processor has run once, on the request as it was
  uploaded. If the processor returned, the request is settled -- Succeeded with one output for each image, or Failed, and without
  temporary files -- and a status request that is answered successfully says so: 200, with Succeeded or Failed. If the
  processor threw, the message has been handed to the producer for the dead letter queue.
\<close>

theorem upload_is_processed_and_reported:
  assumes "collection_laws (as_model S) docs" and "collection_laws (ip_model P) docs"
    and "validator_laws W" and "pipe_laws W vp"
    and "post_upload S A V dec vp late req uuid s = (Inr (st, body), s1)" and "jv_get body ''success'' = JBool True"
    and "multipart_of upload_options late req = Some mp" and "first_file V dec (mp_parts mp) (mp_failure mp) = Inr (Some data)"
    and "jv_get (JObj (ur_query req)) ''webhookUrl'' = JStr url"
    and "db_of c = db_of s1" and "decoded_to C message True (queue_of c) = (Inr dm, h1)"
    and "dm_value dm = qm_value (processing_message uuid (products data) url)" and "dm_value_text dm = Inr text"
    and "offset_new C (mc_topic cfg) (mc_group cfg) part (parse_int (km_offset message)) (after_heartbeat hb h1)"
  shows "(\<exists>r. docs (db_of c) uuid = Some r \<and> rq_status r = ACCEPTED) \<and>
    (\<exists>x. send_call (as_producer S) (as_apm S) (mc_topic (as_messaging S), processing_message uuid (products data) url, True)
      (queue_of s) = (Inr x, queue_of s1)) \<and>
    (\<exists>t r t' c'. on_processing_message C cfg P other part hb message c = (Inr (), c') \<and>
      process P \<lparr>pr_requestId = uuid, pr_webhookUrl = url, pr_products = products data\<rparr> t = (r, t') \<and>
      db_of t = db_of c \<and> db_of c' = db_of t' \<and>
      (case r of
         Inr _ \<Rightarrow> settled P docs uuid (products data) c' \<and> final_reported S A vp uuid (db_of c')
       | Inl e \<Rightarrow> queue_of c' = snd (kp_send (kc_producer C) (mc_topic cfg @ ''.DLQ'')
           (dlq_out C (Some dm) message text (run_error (mc_topic cfg) ''Error running message processor'' e)) (queue_of t'))))"
proof -
  obtain u code i s0 where u: "jv_get (JObj (ur_query req)) ''webhookUrl'' = JStr u" and w: "world s0 = world s"
    and run: "process_csv S V dec (multipart_of upload_options late req) u uuid s0 = (Inr (code, i), s1)"
    using successful_upload_ran [OF assms(3-6)] .
  have "u = url" "queue_of s0 = queue_of s" using u w assms(9) by (simp_all add: queue_of_def)
  with process_csv_stored [OF assms(1) run] assms(7,8,10)
  have stored: "(\<exists>r. docs (db_of c) uuid = Some r \<and> rq_status r = ACCEPTED) \<and>
    (\<exists>x. send_call (as_producer S) (as_apm S) (mc_topic (as_messaging S), processing_message uuid (products data) url, True)
      (queue_of s) = (Inr x, queue_of s1))"
    by (auto simp: request_defaults_def accepted_request_def)
  from uploaded_request_settles [OF assms(8,11,12,13,14,2), of other]
  obtain t r t' c' where 1: "on_processing_message C cfg P other part hb message c = (Inr (), c') \<and>
      process P \<lparr>pr_requestId = uuid, pr_webhookUrl = url, pr_products = products data\<rparr> t = (r, t') \<and>
      db_of t = db_of c \<and> db_of c' = db_of t'"
    and 2: "case r of Inr _ \<Rightarrow> settled P docs uuid (products data) c'
     | Inl e \<Rightarrow> queue_of c' = snd (kp_send (kc_producer C) (mc_topic cfg @ ''.DLQ'')
         (dlq_out C (Some dm) message text (run_error (mc_topic cfg) ''Error running message processor'' e)) (queue_of t'))"
    by (elim exE conjE) (rule_tac that, intro conjI, assumption+, simp split: sum.splits)
  have "case r of
       Inr _ \<Rightarrow> settled P docs uuid (products data) c' \<and> final_reported S A vp uuid (db_of c')
     | Inl e \<Rightarrow> queue_of c' = snd (kp_send (kc_producer C) (mc_topic cfg @ ''.DLQ'')
         (dlq_out C (Some dm) message text (run_error (mc_topic cfg) ''Error running message processor'' e)) (queue_of t'))"
    using 2 settled_reported [OF assms(1,4)] by (cases r) simp_all
  with stored 1 show ?thesis by blast
qed

subsection \<open>The statement in a concrete world\<close>

definition client_value :: jv where
  "client_value = qm_value (processing_message ''r9'' (products sample_data) ''https://shop/hook'')"

definition client_service :: "(sample_world, string, nat) kafka_consumer_service" where
  "client_service = (sample_service True)\<lparr>kc_decoder := Some (\<lambda>b w. (Inr (client_value, value_text client_value), w))\<rparr>"

definition client_decoded :: decoded_msg where
  "client_decoded = \<lparr>dm_key = ''k'', dm_value = client_value, dm_value_text = value_text client_value, dm_headers = []\<rparr>"

definition client_run :: "((string \<Rightarrow> request_doc option) \<times> sample_world) rt" where
  "client_run = app_run\<lparr>world := (client_db, (Map.empty, [], []))\<rparr>"

lemma client_decodes:
  "decoded_to client_service (sample_message ''k'' ''v'' 9) True (queue_of client_run) = (Inr client_decoded, queue_of client_run)"
  by (simp add: decoded_to_def client_service_def sample_service_def sample_message_def client_decoded_def
      parse_message_headers_def Let_def)

lemma client_new:
  "offset_new client_service (mc_topic sample_messaging) (mc_group sample_messaging) 0
    (parse_int (km_offset (sample_message ''k'' ''v'' 9))) (after_heartbeat no_heartbeat (queue_of client_run))"
  by code_simp

lemma client_no_dead_letter:
  "fst (snd (queue_of (snd (on_processing_message client_service sample_messaging app_processor (\<lambda>v. returning ()) 0
    no_heartbeat (sample_message ''k'' ''v'' 9) client_run)))) = []"
  by code_simp

theorem upload_is_processed_and_reported_witness:
  "\<exists>s1 c'. sample_post empty_world = (Inr (JNum 202, success_body (JObj [(''requestId'', JStr ''r9'')])), s1) \<and>
    db_of client_run = db_of s1 \<and>
    on_processing_message client_service sample_messaging app_processor (\<lambda>v. returning ()) 0 no_heartbeat
      (sample_message ''k'' ''v'' 9) client_run = (Inr (), c') \<and>
    settled app_processor id ''r9'' (products sample_data) c' \<and>
    final_reported sample_api quiet_apm sample_pipe ''r9'' (db_of c')"
proof -
  obtain s1 where post: "sample_post empty_world = (Inr (JNum 202, success_body (JObj [(''requestId'', JStr ''r9'')])), s1)"
    and db: "db_of client_run = db_of s1"
    using sample_post_runs by (auto simp: client_run_def db_of_def)
  have first: "first_file CsvRefine.sample_validator id (mp_parts \<lparr>mp_parts = [File_part sample_file ''text/csv''], mp_failure = None\<rparr>)
      (mp_failure \<lparr>mp_parts = [File_part sample_file ''text/csv''], mp_failure = None\<rparr>) = Inr (Some sample_data)"
    by (simp add: client_file)
  have url: "jv_get (JObj (ur_query csv_request)) ''webhookUrl'' = JStr ''https://shop/hook''"
    by (simp add: csv_request_def js_own_def)
  have shape: "dm_value client_decoded = qm_value (processing_message ''r9'' (products sample_data) ''https://shop/hook'')"
    and body: "dm_value_text client_decoded = Inr (JStr ''[object Object]'')"
    by (simp add: client_decoded_def client_value_def) code_simp
  have laws: "collection_laws (ip_model app_processor) id" using memory_model_laws by (simp add: app_processor_def)
  have send: "fst (snd (snd (kp_send (kc_producer client_service) tp om h))) \<noteq> []" for tp om h
    by (cases h) (simp add: client_service_def sample_service_def sample_producer_def)
  from upload_is_processed_and_reported [where other = "\<lambda>v. returning ()",
    OF sample_api_laws(1) laws sample_validator_laws sample_pipe_laws post [unfolded sample_post_def] success_body_success
      sample_body first url db client_decodes shape body client_new]
  obtain c' where "on_processing_message client_service sample_messaging app_processor (\<lambda>v. returning ()) 0 no_heartbeat
      (sample_message ''k'' ''v'' 9) client_run = (Inr (), c')"
    and "(settled app_processor id ''r9'' (products sample_data) c' \<and> final_reported sample_api quiet_apm sample_pipe ''r9'' (db_of c')) \<or>
      fst (snd (queue_of c')) \<noteq> []"
    by clarify (fastforce simp: send split: sum.splits)
  then show ?thesis using client_no_dead_letter post db by auto
qed

end
