(* ===== verification/HealthApi.thy ===== *)
theory HealthApi
  imports HttpAnswer
begin

text \<open>
  The two endpoints of \<open>health-check.controller.ts\<close> as a client sees them: the checks of \<open>health-check.service.ts\<close>, answered through
  the interceptor and the filter with its renaming of the failed check. The library of the checks is a parameter.
\<close>

definition get_liveness :: "terminus \<Rightarrow> apm_conf \<Rightarrow> ('w, string) act \<Rightarrow> ('w, jv \<times> jv) act" where
  "get_liveness T A connectionStatus = respond A ''/api/health-check/liveness'' 200 (liveness T connectionStatus)"

definition get_readiness :: "terminus \<Rightarrow> health_check \<Rightarrow> apm_conf \<Rightarrow> ('w, string) act \<Rightarrow> ('w, jv \<times> jv) act" where
  "get_readiness T H A connectionStatus =
    respond A ''/api/health-check/readiness'' 200 (readiness T H connectionStatus)"

text \<open>
  What is documented of the library's check: it returns when no indicator throws, and otherwise throws a
  \<open>ServiceUnavailableException\<close> whose response names the status of every indicator that threw.
\<close>

definition down :: "terminus \<Rightarrow> string \<Rightarrow> exn" where
  "down T k = tm_error T k (tm_status T k False)"

definition terminus_laws :: "terminus \<Rightarrow> bool" where
  "terminus_laws T \<longleftrightarrow>
    (\<forall>rs. (\<forall>r \<in> set rs. \<exists>v. r = Inr v) \<longrightarrow> (\<exists>v. tm_check T rs = Inr v)) \<and>
    (\<forall>rs ks. {e. Inl e \<in> set rs} = down T ` ks \<longrightarrow> ks \<noteq> {} \<longrightarrow> ks \<subseteq> {''no_shutdown_mode'', ''db_status''} \<longrightarrow>
      (\<exists>c m d fs. tm_check T rs = Inl (Exn c ''ServiceUnavailableException'' m d fs) \<and>
        jv_get (JObj fs) ''status'' = JNum 503 \<and>
        (\<forall>k. check_is_down (Exn c ''ServiceUnavailableException'' m d fs) k \<longleftrightarrow> k \<in> ks)))"

text \<open>Which checks fail, and the name and message of the first failed one.\<close>

definition failed_checks :: "string \<Rightarrow> health_event list \<Rightarrow> string set" where
  "failed_checks st es =
    (if Shutdown_event \<in> set es then {''no_shutdown_mode''} else {}) \<union> (if st \<noteq> ''success'' then {''db_status''} else {})"

definition failure_name :: "string set \<Rightarrow> string" where
  "failure_name ks = (if ''no_shutdown_mode'' \<in> ks then ''ShutdownModeError'' else ''DbHealthCheckError'')"

definition failure_text :: "string set \<Rightarrow> string" where
  "failure_text ks = (if ''no_shutdown_mode'' \<in> ks then ''Shutdown mode is enabled'' else ''DB is down'')"

text \<open>An exception of the check is answered 503, and reported with the name of the first failed check.\<close>

lemma unavailable_answered:
  assumes "e = Exn c ''ServiceUnavailableException'' m d fs" and "jv_get (JObj fs) ''status'' = JNum 503"
    and "\<And>k. check_is_down e k \<longleftrightarrow> k \<in> ks" and "ks \<noteq> {}" and "ks \<subseteq> {''no_shutdown_mode'', ''db_status''}"
  shows "\<exists>err. exception_filter A e s = (Inr (JNum 503, err),
    s\<lparr>log_lines := log_lines s @ [Log_line ApmLogger LError [] [http_error_jv err]],
      apm_events := apm_events s @ (if apm_on A then [Captured (Exn c (failure_name ks) (failure_text ks) d fs)] else [])\<rparr>)"
proof (cases "''no_shutdown_mode'' \<in> ks")
  case True
  then show ?thesis
    using assms(1-3)
    by (auto simp: exception_filter_def health_check_error_resp_def health_checks_def failure_name_def failure_text_def Let_def nullish_def
        thenDo_def capture_error_def andThen_def returning_eq log_to_def)
next
  case False
  then have "''db_status'' \<in> ks" using assms(4,5) by auto
  then show ?thesis
    using assms(1-3) False
    by (auto simp: exception_filter_def health_check_error_resp_def health_checks_def failure_name_def failure_text_def Let_def nullish_def
        thenDo_def capture_error_def andThen_def returning_eq log_to_def)
qed

text \<open>A health check's handler, by what its indicators give.\<close>

lemma check_answered:
  assumes "terminus_laws T" and "{e. Inl e \<in> set rs} = down T ` ks" and "ks \<subseteq> {''no_shutdown_mode'', ''db_status''}"
    and "h s = (tm_check T rs, s')" and "starts_with url ''/api/health-check''"
  shows "if ks = {} then \<exists>v. respond A url 200 h s = (Inr (JNum 200, success_body v), s')
    else \<exists>err e s2. respond A url 200 h s = (Inr (JNum 503, http_error_jv err), s2) \<and> world s2 = world s' \<and>
      log_lines s2 = log_lines s' @ [Log_line ApmLogger LError [] [http_error_jv err]] \<and>
      apm_events s2 = apm_events s' @ (if apm_on A then [Captured e] else []) \<and>
      exn_get e ''name'' = JStr (failure_name ks)"
proof (cases "ks = {}")
  case True
  then have "\<exists>v. r = Inr v" if "r \<in> set rs" for r using assms(2) that by (cases r) auto
  then obtain v where "tm_check T rs = Inr v" using assms(1) unfolding terminus_laws_def by blast
  then show ?thesis
    using True assms(4,5) by (auto simp: respond_eq request_received_def tryCatch_def andThen_def returning_eq)
next
  case False
  then obtain c m d fs where t: "tm_check T rs = Inl (Exn c ''ServiceUnavailableException'' m d fs)"
    "jv_get (JObj fs) ''status'' = JNum 503"
    "\<And>k. check_is_down (Exn c ''ServiceUnavailableException'' m d fs) k \<longleftrightarrow> k \<in> ks"
    using assms(1-3) unfolding terminus_laws_def by meson
  from unavailable_answered [OF refl t(2,3) False assms(3), of A s'] obtain err where
    f: "exception_filter A (Exn c ''ServiceUnavailableException'' m d fs) s' = (Inr (JNum 503, err),
      s'\<lparr>log_lines := log_lines s' @ [Log_line ApmLogger LError [] [http_error_jv err]],
        apm_events := apm_events s' @ (if apm_on A then [Captured (Exn c (failure_name ks) (failure_text ks) d fs)] else [])\<rparr>)"
    by blast
  have "h s = (Inl (Exn c ''ServiceUnavailableException'' m d fs), s')" using assms(4) t(1) by simp
  then show ?thesis
    using False f assms(5)
    by (auto simp: respond_eq request_received_def tryCatch_def andThen_def returning_eq
        intro!: exI [of _ "Exn c (failure_name ks) m' d fs"])
qed

lemma indicator_errors:
  "{e. Inl e \<in> set [db_indicator T st]} = down T ` failed_checks st []"
  "{e. Inl e \<in> set [db_indicator T st, get_shutdown_mode_status T (health_state es new_health_check)]} =
    down T ` failed_checks st es"
  by (auto simp: db_indicator_def get_shutdown_mode_status_def health_state_shutdown new_health_check_def failed_checks_def down_def)

text \<open>
  C39: What a load balancer sees. The readiness endpoint answers 200 exactly when the database is connected and no shutdown event
  was ever seen, and 503 otherwise; the error reported to the performance monitor is then named after the shutdown when there was one,
  and after the database if not. The liveness endpoint answers 200 or 503 by the database alone. None of them changes the world, and
  only a failure is logged.
\<close>

theorem health_endpoints_answer:
  assumes "terminus_laws T" and "connection_status M S s = (Inr st, s')"
  shows "(if failed_checks st es = {}
     then \<exists>v. get_readiness T (health_state es new_health_check) A (connection_status M S) s = (Inr (JNum 200, success_body v), s')
     else \<exists>err e s2. get_readiness T (health_state es new_health_check) A (connection_status M S) s =
         (Inr (JNum 503, http_error_jv err), s2) \<and> world s2 = world s' \<and>
       log_lines s2 = log_lines s' @ [Log_line ApmLogger LError [] [http_error_jv err]] \<and>
       apm_events s2 = apm_events s' @ (if apm_on A then [Captured e] else []) \<and>
       exn_get e ''name'' = JStr (failure_name (failed_checks st es))) \<and>
    (if st = ''success''
     then \<exists>v. get_liveness T A (connection_status M S) s = (Inr (JNum 200, success_body v), s')
     else \<exists>err s2. get_liveness T A (connection_status M S) s = (Inr (JNum 503, http_error_jv err), s2) \<and> world s2 = world s')"
proof -
  have sub: "failed_checks st es' \<subseteq> {''no_shutdown_mode'', ''db_status''}" for es' by (auto simp: failed_checks_def)
  have r: "readiness T (health_state es new_health_check) (connection_status M S) s =
      (tm_check T [db_indicator T st, get_shutdown_mode_status T (health_state es new_health_check)], s')"
    using assms(2) by (simp add: readiness_def get_db_statuses_def andThen_def returning_eq pure_result_def)
  have l: "liveness T (connection_status M S) s = (tm_check T [db_indicator T st], s')"
    using assms(2) by (simp add: liveness_def get_db_statuses_def andThen_def returning_eq pure_result_def)
  have f: "failed_checks st [] = {} \<longleftrightarrow> st = ''success''" by (simp add: failed_checks_def)
  have u: "starts_with ''/api/health-check/readiness'' ''/api/health-check''"
    "starts_with ''/api/health-check/liveness'' ''/api/health-check''" by (simp_all add: starts_with_def)
  note ready = check_answered [where h = "readiness T (health_state es new_health_check) (connection_status M S)" and s = s,
      OF assms(1) indicator_errors(2) sub r u(1), of A, folded get_readiness_def]
    and alive = check_answered [where h = "liveness T (connection_status M S)" and s = s,
      OF assms(1) indicator_errors(1) sub l u(2), of A, folded get_liveness_def]
  have "if st = ''success'' then \<exists>v. get_liveness T A (connection_status M S) s = (Inr (JNum 200, success_body v), s')
     else \<exists>err s2. get_liveness T A (connection_status M S) s = (Inr (JNum 503, http_error_jv err), s2) \<and> world s2 = world s'"
    using alive unfolding f by (auto split: if_splits)
  with ready show ?thesis by (rule conjI)
qed

subsection \<open>The statement in a concrete world\<close>

text \<open>A library that collects the status objects of the indicators that threw.\<close>

definition causes_of :: "(exn + jv) list \<Rightarrow> jv js_object" where
  "causes_of rs = concat (map (\<lambda>r. case r of
     Inl e \<Rightarrow> (case exn_get e ''causes'' of JObj ps \<Rightarrow> ps | _ \<Rightarrow> []) | Inr v \<Rightarrow> []) rs)"

definition unavailable :: "jv js_object \<Rightarrow> exn" where
  "unavailable causes =
    Exn C_HttpException ''ServiceUnavailableException'' ''Service Unavailable Exception'' None
      [(''status'', JNum 503), (''response'', JObj [(''status'', JStr ''error''), (''error'', JObj causes)])]"

definition collecting_terminus :: terminus where
  "collecting_terminus = sample_terminus\<lparr>tm_check := (\<lambda>rs.
    if list_all (\<lambda>r. case r of Inr v \<Rightarrow> True | Inl e \<Rightarrow> False) rs then Inr (JObj [(''status'', JStr ''ok'')])
    else Inl (unavailable (causes_of rs)))\<rparr>"

lemma causes_of_down:
  assumes "{e. Inl e \<in> set rs} = down collecting_terminus ` ks"
  shows "js_own (causes_of rs) k = (if k \<in> ks then Some (JObj [(''status'', JStr ''down'')]) else None)"
proof -
  have d: "down collecting_terminus k = Exn C_LibraryError ''HealthCheckError'' k None
      [(''causes'', JObj [(k, JObj [(''status'', JStr ''down'')])])]" for k
    by (simp add: down_def collecting_terminus_def sample_terminus_def)
  have "js_own (causes_of rs) k = (if Inl (down collecting_terminus k) \<in> set rs then Some (JObj [(''status'', JStr ''down'')]) else None)"
    if "{e. Inl e \<in> set rs} \<subseteq> range (down collecting_terminus)"
    using that
  proof (induction rs)
    case Nil
    then show ?case by (simp add: causes_of_def js_own_def)
  next
    case (Cons r rs)
    have "{e. Inl e \<in> set rs} \<subseteq> range (down collecting_terminus)" using Cons.prems by auto
    from Cons.IH [OF this] have IH: "js_own (causes_of rs) k =
        (if Inl (down collecting_terminus k) \<in> set rs then Some (JObj [(''status'', JStr ''down'')]) else None)" .
    show ?case
    proof (cases r)
      case (Inl e)
      with Cons.prems obtain j where "e = down collecting_terminus j" by auto
      with Inl IH show ?thesis by (auto simp: causes_of_def js_own_def d)
    next
      case (Inr v)
      with IH show ?thesis by (simp add: causes_of_def)
    qed
  qed
  moreover have "Inl (down collecting_terminus k) \<in> set rs \<longleftrightarrow> k \<in> ks"
    using assms by (auto simp: d set_eq_iff)
  moreover have "{e. Inl e \<in> set rs} \<subseteq> range (down collecting_terminus)" unfolding assms by blast
  ultimately show ?thesis by simp
qed

lemma collecting_terminus_laws: "terminus_laws collecting_terminus"
proof -
  have inr: "(case r of Inr v \<Rightarrow> True | Inl e \<Rightarrow> False) \<longleftrightarrow> (\<exists>v. r = Inr v)" for r :: "exn + jv" by (cases r) simp_all
  have "\<exists>c m d fs. tm_check collecting_terminus rs = Inl (Exn c ''ServiceUnavailableException'' m d fs) \<and>
      jv_get (JObj fs) ''status'' = JNum 503 \<and>
      (\<forall>k. check_is_down (Exn c ''ServiceUnavailableException'' m d fs) k \<longleftrightarrow> k \<in> ks)"
    if "{e. Inl e \<in> set rs} = down collecting_terminus ` ks" "ks \<noteq> {}" for rs ks
  proof -
    have "{e. Inl e \<in> set rs} \<noteq> {}" using that by simp
    then obtain e where "Inl e \<in> set rs" by blast
    then have "tm_check collecting_terminus rs = Inl (unavailable (causes_of rs))"
      by (auto simp: collecting_terminus_def inr list_all_iff)
    moreover have "check_is_down (unavailable (causes_of rs)) k \<longleftrightarrow> k \<in> ks" for k
      using causes_of_down [OF that(1), of k] by (simp add: check_is_down_def unavailable_def js_own_def split: if_splits)
    ultimately show ?thesis unfolding unavailable_def by (auto simp: js_own_def)
  qed
  moreover have "\<exists>v. tm_check collecting_terminus rs = Inr v" if "\<forall>r \<in> set rs. \<exists>v. r = Inr v" for rs
    using that by (simp add: collecting_terminus_def inr list_all_iff)
  ultimately show ?thesis unfolding terminus_laws_def by blast
qed

theorem health_endpoints_answer_witness:
  "\<exists>S e err s2. get_readiness collecting_terminus (health_state [Shutdown_event] new_health_check) db_apm
      (connection_status sample_mongoose S) db_run = (Inr (JNum 503, http_error_jv err), s2) \<and>
    (apm_on db_apm \<longrightarrow> apm_events s2 = apm_events db_run @ [Captured e]) \<and> exn_get e ''name'' = JStr ''ShutdownModeError'' \<and>
    (\<exists>v. get_liveness collecting_terminus db_apm (connection_status sample_mongoose S) db_run = (Inr (JNum 200, success_body v), db_run))"
proof -
  let ?S = "fresh_mongo\<lparr>ms_connection := Some 7\<rparr>"
  have c: "connection_status sample_mongoose ?S db_run = (Inr ''success'', db_run)"
    by (simp add: connection_status_def mongo_is_connected_def andThen_def returning_eq sample_mongoose_def)
  have "failed_checks ''success'' [Shutdown_event] = {''no_shutdown_mode''}" by (simp add: failed_checks_def)
  then show ?thesis
    using health_endpoints_answer [OF collecting_terminus_laws c, of "[Shutdown_event]" db_apm]
    by (force simp: failure_name_def)
qed

end
