(* ===== verification/RequestLogging.thy ===== *)
theory RequestLogging
  imports Effects
begin

text \<open>
  The configuration of the request log, \<open>util/logger/logger.config.ts\<close>: whether a request gets a log line, its level, the trace it
  belongs to, the request's id, and what is removed from it; and the wrapper around the logger, \<open>pino.service.ts\<close>. pino itself, and
  the agent's and the tracer's answers, are parameters.
\<close>

text \<open>\<open>formatters.log\<close>: \<open>trace\<close> is \<open>apm?.currentTraceIds\<close>.\<close>

definition format_log :: "jv \<Rightarrow> jv \<Rightarrow> jv js_object \<Rightarrow> jv js_object" where
  "format_log trace reqId object =
    (if \<not> truthy trace then object
     else js_put ''traceContext'' (JObj
       [(''traceId'', jv_get trace ''trace.id''), (''spanId'', jv_get trace ''span.id''),
        (''transactionId'', jv_get trace ''transaction.id''), (''reqId'', reqId)]) object)"

definition health_route :: string where
  "health_route = ''/api/health-check''"

text \<open>\<open>autoLogging.ignore\<close>\<close>

definition ignore_request :: "string option \<Rightarrow> bool" where
  "ignore_request url = (case url of None \<Rightarrow> False | Some u \<Rightarrow> prefix health_route u)"

definition custom_log_level :: "nat \<Rightarrow> bool \<Rightarrow> string" where
  "custom_log_level statusCode error =
    (if 400 \<le> statusCode \<and> statusCode < 500 then ''warn''
     else if 500 \<le> statusCode \<or> error then ''error''
     else ''info'')"

text \<open>The id, and the header that the response gets; \<open>traceId\<close> is \<open>apm?.currentTraceIds['trace.id']\<close>.\<close>

definition gen_req_id ::
  "apm_conf \<Rightarrow> string option \<Rightarrow> string option \<Rightarrow> string \<Rightarrow> ('w, string \<times> (string \<times> string)) act" where
  "gen_req_id A header traceId uuid =
    (let id = (if header \<noteq> None \<and> header \<noteq> Some [] then the header
               else if traceId \<noteq> None \<and> traceId \<noteq> Some [] then the traceId else uuid)
     in thenDo (set_label A ''X-Request-Id'' (JStr id)) (returning (id, (''X-Request-Id'', id))))"

lemma custom_log_level_info: "custom_log_level c e = ''info'' \<longleftrightarrow> c < 400 \<and> \<not> e"
  by (auto simp: custom_log_level_def)

text \<open>A request's id is never empty, and a caller's own id is kept.\<close>

lemma gen_req_id_id:
  assumes "uuid \<noteq> []" and "gen_req_id A header traceId uuid s = (Inr (i, h), s')"
  shows "i \<noteq> []" and "h = (''X-Request-Id'', i)" and "header = Some t \<Longrightarrow> t \<noteq> [] \<Longrightarrow> i = t"
  using assms by (auto simp: gen_req_id_def Let_def thenDo_label returning_eq split: if_splits)

lemma format_log_keeps: "k \<noteq> ''traceContext'' \<Longrightarrow> js_own (format_log trace reqId object) k = js_own object k"
  by (simp add: format_log_def js_own_put)

subsection \<open>What is removed\<close>

definition header_path :: "string \<Rightarrow> string" where
  "header_path h = ''Request.headers[\"'' @ h @ ''\"]''"

definition headers_to_remove :: "string list" where
  "headers_to_remove = map header_path
    [''x-authorization'', ''x-user-detail'', ''Authorization'', ''accept'', ''accept-encoding'',
     ''accept-language'', ''cache-control'', ''connection'', ''content-length'', ''content-type'',
     ''host'', ''origin'', ''user-agent'', ''referer'', ''upgrade-insecure-requests'',
     ''x-forwarded-for'', ''x-forwarded-proto'', ''x-requested-with'', ''x-powered-by'', ''etag'', ''x-authorization'',
     ''postman-token'', ''x-powered-by'', ''x-real-ip'', ''x-forwarded-host'', ''x-forwarded-port'',
     ''x-forwarded-scheme'', ''x-scheme'']"

record redaction =
  rd_paths :: "string list"
  rd_remove :: bool

definition masked_logger_keys :: redaction where
  "masked_logger_keys = \<lparr>rd_paths = headers_to_remove, rd_remove = True\<rparr>"

definition custom_attribute_keys :: "string js_object" where
  "custom_attribute_keys =
    [(''req'', ''Request''), (''res'', ''Response''), (''err'', ''Error''), (''responseTime'', ''Response Time'')]"

definition custom_success_message :: string where
  "custom_success_message = ''Request completed''"

text \<open>
  What pino documents of a path to a header: the property of that very name is removed, no other header is touched. \<open>rx\<close> is the
  redaction of a line, and a line is the object with the keys as they were renamed.
\<close>

definition logged_header :: "jv \<Rightarrow> string \<Rightarrow> jv" where
  "logged_header line h = jv_get (jv_get (jv_get line (the (js_own custom_attribute_keys ''req''))) ''headers'') h"

definition redaction_laws :: "(redaction \<Rightarrow> jv \<Rightarrow> jv) \<Rightarrow> bool" where
  "redaction_laws rx \<longleftrightarrow>
    (\<forall>r line h. rd_remove r \<longrightarrow>
      logged_header (rx r line) h = (if header_path h \<in> set (rd_paths r) then JUndef else logged_header line h))"

lemma header_path_inj: "header_path h = header_path k \<longleftrightarrow> h = k"
  by (simp add: header_path_def)

text \<open>
  Node gives a request's headers in lower case. The list has \<open>Authorization\<close> with a capital letter, so that no path of it names the
  header that carries the caller's credentials: it stays in the line, while the listed ones are gone.
\<close>

lemma authorization_is_logged:
  assumes "redaction_laws rx"
  shows "logged_header (rx masked_logger_keys line) ''authorization'' = logged_header line ''authorization''"
    and "logged_header (rx masked_logger_keys line) ''x-authorization'' = JUndef"
  using assms
  by (auto simp: redaction_laws_def masked_logger_keys_def headers_to_remove_def header_path_inj)

subsection \<open>The logger\<close>

text \<open>\<open>ILogger\<close>, and the class that hands every call on to the logger of \<open>nestjs-pino\<close>.\<close>

record 'w logger =
  lg_verbose :: "jv \<Rightarrow> jv list \<Rightarrow> ('w, unit) act"
  lg_debug :: "jv \<Rightarrow> jv list \<Rightarrow> ('w, unit) act"
  lg_log :: "jv \<Rightarrow> jv list \<Rightarrow> ('w, unit) act"
  lg_warn :: "jv \<Rightarrow> jv list \<Rightarrow> ('w, unit) act"
  lg_error :: "jv \<Rightarrow> jv list \<Rightarrow> ('w, unit) act"
  lg_fatal :: "jv \<Rightarrow> jv list \<Rightarrow> ('w, unit) act"

definition pino_logger :: "'w logger \<Rightarrow> 'w logger" where
  "pino_logger L =
    \<lparr>lg_verbose = (\<lambda>message optionalParams. lg_verbose L message optionalParams),
     lg_debug = (\<lambda>message optionalParams. lg_debug L message optionalParams),
     lg_log = (\<lambda>message optionalParams. lg_log L message optionalParams),
     lg_warn = (\<lambda>message optionalParams. lg_warn L message optionalParams),
     lg_error = (\<lambda>message optionalParams. lg_error L message optionalParams),
     lg_fatal = (\<lambda>message optionalParams. lg_fatal L message optionalParams)\<rparr>"

lemma pino_logger_forwards: "pino_logger L = L"
  by (simp add: pino_logger_def)

end
