(* ===== verification/PlainMessages.thy ===== *)
theory PlainMessages
  imports Consumption
begin

text \<open>
  Messages without a schema, as the dead letter queue gets them: the producer writes their value with
  \<open>JSON.stringify\<close>, the consumer reads it with \<open>JSON.parse\<close>.
\<close>

lemma encode_plain:
  "encode_value K t v False s = (Inr (Json_payload (JStr written)), s') \<Longrightarrow> v \<noteq> JUndef \<and> written = json_value v"
  by (auto simp: encode_value_def json_stringify_def returning_eq split: option.splits if_splits)

lemma decoded_to_plain:
  assumes "km_value message = Some b" and "kc_text C b = json_value v" and "json_ok v"
    and "\<not> se \<or> kc_decoder C = None"
  shows "\<exists>dm. decoded_to C message se w = (Inr dm, w) \<and> dm_value dm = json_norm v"
  using assms json_parse_value [OF assms(3)]
  by (cases "kc_decoder C") (auto simp: decoded_to_def Let_def)

text \<open>
  C35: What is published without a schema is what a consumer of the topic is handed: if the text the producer made of
  a value is what the message's buffer holds, decoding succeeds without touching anything outside, and gives the value again --
  exactly, when no \<open>undefined\<close> occurs in it; else with \<open>undefined\<close> read as null in arrays and left out of objects.
\<close>

theorem plain_message_roundtrip:
  assumes "encode_value K t v False s = (Inr (Json_payload (JStr written)), s1)"
    and "km_value message = Some b" and "kc_text C b = written" and "\<not> se \<or> kc_decoder C = None"
    and "json_ok v"
  shows "\<exists>dm s'. decode_msg C topic message se s2 = (Inr dm, s') \<and> world s' = world s2 \<and>
    dm_value dm = json_norm v \<and> (no_undef v \<longrightarrow> dm_value dm = v)"
proof -
  have "kc_text C b = json_value v" using assms(3) encode_plain [OF assms(1)] by simp
  from decoded_to_plain [OF assms(2) this assms(5,4)] obtain dm where
    dm: "decoded_to C message se (world s2) = (Inr dm, world s2)" "dm_value dm = json_norm v" by blast
  obtain r s' where m: "decode_msg C topic message se s2 = (r, s')" by (cases "decode_msg C topic message se s2")
  have "r = Inr dm" "world s' = world s2"
    using decoding.outcome [of C "(topic, message, se)" s2] decoding.world_after [of C "(topic, message, se)" s2] m dm(1)
    by simp_all
  then show ?thesis using m dm(2) json_norm_id by auto
qed

text \<open>A dead letter with a text of every kind of escape.\<close>

definition sample_letter :: jv where
  "sample_letter = JObj [(''body'', JStr (''say '' @ [CHR 0x22, CHR 0x0A, CHR 0x5C, CHR 0x01])),
     (''error'', JObj [(''name'', JStr ''Error''), (''data'', JUndef)]), (''headers'', JObj []),
     (''list'', JArr [JUndef, JNum (- 120), JBool False])]"

theorem plain_message_roundtrip_witness:
  "\<exists>written s1 dm s'. encode_value sample_producer ''t.DLQ'' sample_letter False (sample_consumer_run stored_seven) =
      (Inr (Json_payload (JStr written)), s1) \<and>
    decode_msg (sample_service True) ''t.DLQ'' ((sample_message ''k'' ''v'' 9)\<lparr>km_value := Some written\<rparr>) False
      (sample_consumer_run stored_seven) = (Inr dm, s') \<and>
    jv_get (jv_get (dm_value dm) ''error'') ''name'' = JStr ''Error''"
proof -
  let ?m = "(sample_message ''k'' ''v'' 9)\<lparr>km_value := Some (json_value sample_letter)\<rparr>"
  let ?s = "sample_consumer_run stored_seven"
  have e: "encode_value sample_producer ''t.DLQ'' sample_letter False ?s =
      (Inr (Json_payload (JStr (json_value sample_letter))), ?s)"
    by (simp add: encode_value_def sample_producer_def json_stringify_def sample_letter_def returning_eq
        del: json_value.simps)
  have m: "km_value ?m = Some (json_value sample_letter)"
    "kc_text (sample_service True) (json_value sample_letter) = json_value sample_letter"
    "\<not> False \<or> kc_decoder (sample_service True) = None"
    by (simp_all add: sample_service_def)
  have ok: "json_ok sample_letter" by code_simp
  obtain dm s' where "decode_msg (sample_service True) ''t.DLQ'' ?m False ?s = (Inr dm, s')"
    "dm_value dm = json_norm sample_letter"
    using plain_message_roundtrip [OF e m ok, of "''t.DLQ''" ?s] by auto
  moreover have "jv_get (jv_get (json_norm sample_letter) ''error'') ''name'' = JStr ''Error''" by code_simp
  ultimately show ?thesis using e by auto
qed

end
