(* ===== verification/BusUsage.thy ===== *)
theory BusUsage
  imports ServiceBus "HOL-Library.Multiset"
begin

text \<open>
  What every operation on the service bus has in common: it acquires a sender or a receiver, uses it, and releases it
  whatever happens. The locale \<open>scoped_use\<close> is that contract; sending, cancelling and settling are its
  interpretations. A subscription keeps its receiver until the service disconnects. A handle is held from its creation until
  its \<open>close\<close> is called, whatever that call answers.
\<close>

subsection \<open>The contract\<close>

lemma thenDo_attempt: "thenDo (thenDo (attempt m) (returning ())) n s = n (snd (m s))"
  by (simp add: thenDo_def andThen_def attempt_def returning_eq split: prod.split)

locale scoped_use =
  fixes op :: "'x \<Rightarrow> ('w, 'b) act"
    and acquire :: "'x \<Rightarrow> ('w, 'k) call"
    and use :: "'x \<Rightarrow> 'k \<Rightarrow> ('w, 'a) call"
    and release :: "'k \<Rightarrow> ('w, unit) call"
    and res :: "'a \<Rightarrow> 'b"
    and mk :: "'x \<Rightarrow> exn \<Rightarrow> exn"
    and closing :: "apm_event list"
  assumes op_used: "acquire x (world s) = (Inr k, w1) \<Longrightarrow> use x k w1 = (r, w2) \<Longrightarrow>
      \<exists>s'. op x s = (map_sum (mk x) res r, s') \<and> world s' = snd (release k w2) \<and>
        (\<exists>evs. apm_events s' = apm_events s @ evs @ closing)"
    and op_refused: "acquire x (world s) = (Inl e, w1) \<Longrightarrow> \<exists>s'. op x s = (Inl e, s') \<and> world s' = w1"
begin

text \<open>
  When acquiring adds a handle to the handles held, releasing takes it away and using does neither, an operation
  holds at its end what was held before; so does any sequence of operations, each with its errors caught.
\<close>

lemma nothing_left_open:
  assumes "\<And>x w k w'. acquire x w = (Inr k, w') \<Longrightarrow> held w' = add_mset (h k) (held w)"
    and "\<And>x w e w'. acquire x w = (Inl e, w') \<Longrightarrow> held w' = held w"
    and "\<And>x k w. held (snd (use x k w)) = held w"
    and "\<And>k w. held (snd (release k w)) = held w - {#h k#}"
  shows "held (world (snd (op x s))) = held (world s)"
proof (cases "acquire x (world s)")
  case (Pair a w1)
  show ?thesis
  proof (cases a)
    case (Inl e)
    with Pair op_refused [of x s e w1] assms(2) show ?thesis by fastforce
  next
    case (Inr k)
    obtain r w2 where u: "use x k w1 = (r, w2)" by (cases "use x k w1")
    with Pair Inr op_used [of x s k w1 r w2] obtain s' where
      "op x s = (map_sum (mk x) res r, s')" "world s' = snd (release k w2)" by auto
    moreover have "held w2 = add_mset (h k) (held (world s))" using assms(1) [of x "world s" k w1] assms(3) [of x k w1] u Pair Inr by simp
    ultimately show ?thesis by (simp add: assms(4))
  qed
qed

lemma nothing_left_open_many:
  assumes "\<And>x w k w'. acquire x w = (Inr k, w') \<Longrightarrow> held w' = add_mset (h k) (held w)"
    and "\<And>x w e w'. acquire x w = (Inl e, w') \<Longrightarrow> held w' = held w"
    and "\<And>x k w. held (snd (use x k w)) = held w"
    and "\<And>k w. held (snd (release k w)) = held w - {#h k#}"
  shows "held (world (snd (for_each (\<lambda>x. thenDo (attempt (op x)) (returning ())) xs s))) = held (world s)"
proof (induction xs arbitrary: s)
  case Nil
  then show ?case by (simp add: returning_eq)
next
  case (Cons x xs)
  have "held (world (snd (op x s))) = held (world s)" by (rule nothing_left_open [OF assms])
  then show ?case using Cons.IH [of "snd (op x s)"] by (simp add: thenDo_attempt)
qed

end

subsection \<open>The operations meet it\<close>

definition extends :: "'w rt \<Rightarrow> 'w rt \<Rightarrow> bool" where
  "extends s s' \<longleftrightarrow> world s' = world s \<and> (\<exists>evs. apm_events s' = apm_events s @ evs)"

lemma extends_refl [simp]: "extends s s"
  by (simp add: extends_def)

lemma extends_trans: "extends s t \<Longrightarrow> extends t u \<Longrightarrow> extends s u"
  by (auto simp: extends_def)

text \<open>The actions around the library calls only add events and lines.\<close>

definition annotates :: "('w, unit) act \<Rightarrow> bool" where
  "annotates m \<longleftrightarrow> (\<forall>s. \<exists>s'. m s = (Inr (), s') \<and> extends s s')"

lemma annotates_base:
  "annotates (log_to k l t vs)" "annotates (set_label A n v)" "annotates (agent_event b ev)" "annotates (span_event G ev)"
  "annotates (report k A e)" "annotates (returning ())"
  by (simp_all add: annotates_def extends_def log_to_def set_label_def agent_event_def span_event_def report_eq
      reported_def returning_eq)

lemma annotates_thenDo: "annotates m \<Longrightarrow> annotates n \<Longrightarrow> annotates (thenDo m n)"
  unfolding annotates_def thenDo_def andThen_def
proof
  fix s
  assume "\<forall>s. \<exists>s'. m s = (Inr (), s') \<and> extends s s'" and n: "\<forall>s. \<exists>s'. n s = (Inr (), s') \<and> extends s s'"
  then obtain s1 where m: "m s = (Inr (), s1)" "extends s s1" by blast
  from n obtain s2 where "n s1 = (Inr (), s2)" "extends s1 s2" by blast
  with m show "\<exists>s'. (case m s of (Inl e, s') \<Rightarrow> (Inl e, s') | (Inr a, s') \<Rightarrow> n s') = (Inr (), s') \<and> extends s s'"
    by (auto intro: extends_trans)
qed

lemma annotates_start_span: "annotates (start_span G n)"
  by (simp add: start_span_def annotates_thenDo annotates_base)

lemmas annotates_intros = annotates_thenDo annotates_base annotates_start_span

lemma annotates_step: "annotates m \<Longrightarrow> \<exists>s'. thenDo m n s = n s' \<and> extends s s'"
  unfolding annotates_def thenDo_def andThen_def by (metis (no_types, lifting) case_prod_conv sum.case(2))

text \<open>An acquisition after some notes, then a use, then the release and the end of the span.\<close>

definition span_closing :: "apm_agent \<Rightarrow> apm_event list" where
  "span_closing G = (if apm_on (ag_conf G) \<and> ag_spans G then [Span_end] else [])"

lemma close_quietly_ends:
  "\<exists>s'. close_quietly G c s = (Inr (), s') \<and> world s' = snd (c (world s)) \<and> apm_events s' = apm_events s @ span_closing G"
  by (cases "c (world s)"; cases "fst (c (world s))")
    (auto simp: close_quietly_def thenDo_def andThen_def tryCatch_def external_def returning_eq span_event_def
      agent_event_def span_closing_def)

lemma finally_closes:
  assumes "m s = (r, s1)"
  shows "\<exists>s'. tryFinally m (close_quietly G c) s = (r, s') \<and> world s' = snd (c (world s1)) \<and>
    apm_events s' = apm_events s1 @ span_closing G"
  using close_quietly_ends [of G c s1] assms by (auto simp: tryFinally_def)

lemma scoped_run:
  assumes "op = thenDo pre (andThen (external acq) (\<lambda>k. tryFinally (body k) (close_quietly G (rel k))))"
    and "annotates pre" and "acq (world s) = (Inr k, w1)"
    and body: "\<And>t. world t = w1 \<Longrightarrow>
      \<exists>t'. body k t = (r, t') \<and> world t' = w2 \<and> (\<exists>evs. apm_events t' = apm_events t @ evs)"
  shows "\<exists>s'. op s = (r, s') \<and> world s' = snd (rel k w2) \<and> (\<exists>evs. apm_events s' = apm_events s @ evs @ span_closing G)"
proof -
  obtain t where t: "extends s t" "op s = andThen (external acq) (\<lambda>k. tryFinally (body k) (close_quietly G (rel k))) t"
    using annotates_step [OF assms(2), of "andThen (external acq) (\<lambda>k. tryFinally (body k) (close_quietly G (rel k)))" s]
    unfolding assms(1) by blast
  let ?t1 = "t\<lparr>world := w1\<rparr>"
  have run: "op s = tryFinally (body k) (close_quietly G (rel k)) ?t1"
    using t assms(3) by (simp add: andThen_def external_def extends_def)
  obtain t2 where t2: "body k ?t1 = (r, t2)" "world t2 = w2" "\<exists>evs. apm_events t2 = apm_events t @ evs"
    using body [of ?t1] by auto
  show ?thesis
    using finally_closes [of "body k" ?t1 r t2 G "rel k", OF t2(1)] t2(2,3) t(1) run by (auto simp: extends_def)
qed

lemma scoped_refused:
  assumes "op = thenDo pre (andThen (external acq) f)" and "annotates pre" and "acq (world s) = (Inl e, w1)"
  shows "\<exists>s'. op s = (Inl e, s') \<and> world s' = w1"
proof -
  obtain t where t: "extends s t" "op s = andThen (external acq) f t"
    using annotates_step [OF assms(2), of "andThen (external acq) f" s] unfolding assms(1) by blast
  then show ?thesis using assms(3) by (simp add: andThen_def external_def extends_def)
qed

subsection \<open>Sending\<close>

text \<open>The library calls of \<open>sendMessage\<close> as one call.\<close>

definition asb_send_call ::
  "('w, 'k, 'r) service_bus \<Rightarrow> apm_agent \<Rightarrow> asb_message \<Rightarrow> 'k \<Rightarrow> ('w, jv) call" where
  "asb_send_call B G m sender w =
    (if ''scheduleTimeUtc'' \<in> set (js_keys m) then
       (if \<not> truthy (jv_get (JObj m) ''scheduleTimeUtc'')
        then (Inl (new_Error ''scheduleTimeUtc is required for scheduled messages''), w)
        else (case az_schedule B sender (asb_message_data G m) (jv_get (JObj m) ''scheduleTimeUtc'') w of
                (r, w') \<Rightarrow> (map_sum id (\<lambda>seqs. case seqs of [] \<Rightarrow> JUndef | n # _ \<Rightarrow> n) r, w')))
     else (case az_send B sender (asb_message_data G m) w of (r, w') \<Rightarrow> (map_sum id (\<lambda>_. JUndef) r, w')))"

abbreviation send_error :: "exn \<Rightarrow> exn" where
  "send_error e \<equiv> ASBProducerServiceError ''Error sending message to ASB'' (Some e)"

lemma asb_send_message_call:
  assumes "asb_send_call B G m k (world s) = (r, w)"
  shows "\<exists>s'. asb_send_message B G k m s = (map_sum send_error id r, s') \<and> world s' = w \<and>
    (\<exists>evs. apm_events s' = apm_events s @ evs)"
  using assms
  by (cases r) (auto simp: asb_send_message_def asb_send_call_def tryCatch_def andThen_def thenDo_def external_def
      raise_eq returning_eq report_eq reported_def Let_def split: if_splits prod.splits sum.splits)

lemmas run_simps = tryCatch_def andThen_def thenDo_def log_to_def span_event_def agent_event_def returning_eq raise_eq
  external_def report_eq reported_def Let_def

definition publish_body ::
  "('w, 'k, 'r) service_bus \<Rightarrow> apm_agent \<Rightarrow> string \<Rightarrow> asb_message \<Rightarrow> 'k \<Rightarrow> ('w, jv) act" where
  "publish_body B G q m sender =
    tryCatch
      (andThen (asb_send_message B G sender m) (\<lambda>res.
        thenDo (log_to TxnLogger LLog (''[ASBProducerService] Published message to '' @ q) [])
          (thenDo (span_event G (Span_outcome ''success'')) (returning res))))
      (\<lambda>e. thenDo (span_event G (Span_outcome ''failure'')) (raise e))"

definition publish_pre :: "apm_agent \<Rightarrow> string \<Rightarrow> asb_message \<Rightarrow> ('w, unit) act" where
  "publish_pre G q m =
    thenDo (set_label (ag_conf G) ''asb_producer_queue'' (JStr q))
      (thenDo (start_span G (''ASB SEND to '' @ q))
        (log_to TxnLogger LLog
          (''[ASBProducerService] Publishing message to '' @ q @ '': '' @ json_text (JObj m)) []))"

lemma asb_publish_shape:
  "asb_publish B G q m = thenDo (publish_pre G q m) (andThen (external (az_sender B q)) (\<lambda>k.
     tryFinally (publish_body B G q m k) (close_quietly G (az_close_sender B k))))"
  by (simp add: asb_publish_def publish_pre_def publish_body_def thenDo_assoc)

lemma publish_pre_annotates: "annotates (publish_pre G q m)"
  by (simp add: publish_pre_def annotates_intros)

lemma asb_publish_used:
  fixes B :: "('w, 'k, 'r) service_bus"
  assumes "az_sender B q (world s) = (Inr k, w1)" and "asb_send_call B G m k w1 = (r, w2)"
  shows "\<exists>s'. asb_publish B G q m s = (map_sum send_error id r, s') \<and> world s' = snd (az_close_sender B k w2) \<and>
    (\<exists>evs. apm_events s' = apm_events s @ evs @ span_closing G)"
proof (rule scoped_run [OF asb_publish_shape publish_pre_annotates assms(1)])
  fix t :: "'w rt"
  assume "world t = w1"
  with asb_send_message_call [of B G m k t r w2] assms(2) obtain t1 where
    "asb_send_message B G k m t = (map_sum send_error id r, t1)" "world t1 = w2" "\<exists>evs. apm_events t1 = apm_events t @ evs"
    by auto
  then show "\<exists>t'. publish_body B G q m k t = (map_sum send_error id r, t') \<and> world t' = w2 \<and>
      (\<exists>evs. apm_events t' = apm_events t @ evs)"
    by (cases r) (auto simp: publish_body_def run_simps)
qed

interpretation bus_publish: scoped_use
  "\<lambda>(q, m). asb_publish B G q m" "\<lambda>(q, m). az_sender B q" "\<lambda>(q, m). asb_send_call B G m" "az_close_sender B"
  id "\<lambda>_. send_error" "span_closing G"
  for B G
  by unfold_locales
    (auto dest: asb_publish_used scoped_refused [OF asb_publish_shape publish_pre_annotates])

subsection \<open>Cancelling and settling\<close>

text \<open>One library call, logged and marked as a success, or wrapped, reported and marked as a failure.\<close>

definition marked_call ::
  "apm_agent \<Rightarrow> string \<Rightarrow> (exn \<Rightarrow> exn) \<Rightarrow> ('w, unit) call \<Rightarrow> ('w, unit) act" where
  "marked_call G done_text mk c =
    tryCatch
      (thenDo (external c) (thenDo (log_to TxnLogger LLog done_text []) (span_event G (Span_outcome ''success''))))
      (\<lambda>e. let err = mk e
           in thenDo (report TxnLogger (ag_conf G) err)
                (thenDo (span_event G (Span_outcome ''failure'')) (raise err)))"

lemma marked_call_result:
  "c (world t) = (r, w) \<Longrightarrow> \<exists>t'. marked_call G l mk c t = (map_sum mk id r, t') \<and> world t' = w \<and>
    (\<exists>evs. apm_events t' = apm_events t @ evs)"
  by (cases r) (auto simp: marked_call_def run_simps)

definition cancel_pre :: "apm_agent \<Rightarrow> string \<Rightarrow> jv \<Rightarrow> ('w, unit) act" where
  "cancel_pre G q n =
    thenDo (start_span G (''ASB Cancel Scheduled Message: queueName: '' @ q @ '', sequenceNo: '' @ jv_string n))
      (thenDo (span_event G (Span_label ''asb_cancel_scheduled_message_queue'' (JStr q)))
        (span_event G (Span_label ''asb_cancel_scheduled_message'' (JStr (jv_string n)))))"

definition cancel_error :: "string \<times> jv \<Rightarrow> exn \<Rightarrow> exn" where
  "cancel_error x e = ASBProducerServiceError (''Error cancelling scheduled message in ASB('' @ fst x @
     '') for sequenceNo: '' @ jv_string (snd x)) (Some e)"

lemma cancel_pre_annotates: "annotates (cancel_pre G q n)"
  by (simp add: cancel_pre_def annotates_intros)

lemma cancel_shape:
  "asb_cancel_scheduled_message B G q n = thenDo (cancel_pre G q n) (andThen (external (az_sender B q)) (\<lambda>k.
     tryFinally (marked_call G (''[ASBProducerService] Cancelled scheduled message in '' @ q) (cancel_error (q, n))
       (az_cancel B k n)) (close_quietly G (az_close_sender B k))))"
  by (simp add: asb_cancel_scheduled_message_def cancel_pre_def marked_call_def cancel_error_def thenDo_assoc)

lemma cancel_used:
  assumes "az_sender B q (world s) = (Inr k, w1)" and "az_cancel B k n w1 = (r, w2)"
  shows "\<exists>s'. asb_cancel_scheduled_message B G q n s = (map_sum (cancel_error (q, n)) id r, s') \<and>
    world s' = snd (az_close_sender B k w2) \<and> (\<exists>evs. apm_events s' = apm_events s @ evs @ span_closing G)"
  by (rule scoped_run [OF cancel_shape cancel_pre_annotates assms(1)])
    (use assms(2) in \<open>auto intro: marked_call_result\<close>)

interpretation bus_cancel: scoped_use
  "\<lambda>(q, n). asb_cancel_scheduled_message B G q n" "\<lambda>(q, n). az_sender B q" "\<lambda>(q, n) k. az_cancel B k n"
  "az_close_sender B" id cancel_error "span_closing G"
  for B G
  by unfold_locales (auto dest: cancel_used scoped_refused [OF cancel_shape cancel_pre_annotates])

definition settle_pre :: "apm_agent \<Rightarrow> string \<Rightarrow> string \<Rightarrow> string \<Rightarrow> asb_message \<Rightarrow> ('w, unit) act" where
  "settle_pre G span_name label q m =
    (let get = jv_get (JObj m);
         mark = (\<lambda>k v. span_event G (Span_label (label @ k) v))
     in thenDo (start_span G (span_name @ ''('' @ q @ '')''))
         (thenDo (mark ''_queue'' (JStr q))
          (thenDo (mark ''_headers'' (or_empty (json_stringify (get ''applicationProperties''))))
           (thenDo (mark ''_id'' (if nullish (get ''messageId'') then JStr [] else JStr (jv_string (get ''messageId''))))
            (thenDo (mark ''_subject'' (or_empty (get ''subject'')))
             (mark ''_body'' (or_empty (json_stringify (get ''body'')))))))))"

definition settle_error :: "string \<Rightarrow> string \<times> asb_message \<Rightarrow> exn \<Rightarrow> exn" where
  "settle_error t x e = ASBConsumerServiceError (t @ ''('' @ fst x @ '')'') (Some e)"

lemma settle_pre_annotates: "annotates (settle_pre G n l q m)"
  by (simp add: settle_pre_def Let_def annotates_intros)

lemma settle_shape:
  "settle_message n l dt et settle B G q m =
    thenDo (settle_pre G n l q m) (andThen (external (az_receiver B [JStr q])) (\<lambda>k.
      tryFinally (marked_call G (''[ASBConsumerService] '' @ dt @ ''('' @ q @ '')'') (settle_error et (q, m))
        (settle k (JObj m))) (close_quietly G (az_close_receiver B k))))"
  by (simp add: settle_message_def settle_pre_def marked_call_def settle_error_def thenDo_assoc Let_def)

lemma settle_used:
  assumes "az_receiver B [JStr q] (world s) = (Inr k, w1)" and "settle k (JObj m) w1 = (r, w2)"
  shows "\<exists>s'. settle_message n l dt et settle B G q m s = (map_sum (settle_error et (q, m)) id r, s') \<and>
    world s' = snd (az_close_receiver B k w2) \<and> (\<exists>evs. apm_events s' = apm_events s @ evs @ span_closing G)"
  by (rule scoped_run [OF settle_shape settle_pre_annotates assms(1)])
    (use assms(2) in \<open>auto intro: marked_call_result\<close>)

interpretation bus_settle: scoped_use
  "\<lambda>(q, m). settle_message n l dt et settle B G q m" "\<lambda>(q, m). az_receiver B [JStr q]" "\<lambda>(q, m) k. settle k (JObj m)"
  "az_close_receiver B" id "settle_error et" "span_closing G"
  for n l dt et settle B G
  by unfold_locales (auto dest: settle_used scoped_refused [OF settle_shape settle_pre_annotates])

subsection \<open>Any sequence of operations\<close>

datatype bus_op =
    Publish string asb_message
  | Cancel_scheduled string jv
  | Delete_message string asb_message
  | Abandon_message string asb_message
  | Dead_letter string asb_message
  | Subscribe asb_source jv
  | Disconnect

text \<open>One operation of \<open>ASBService\<close>, with the receivers it remembers, and a caller that catches what an operation throws.\<close>

fun run_bus_op :: "('w, 'k, 'r) service_bus \<Rightarrow> apm_agent \<Rightarrow> bus_op \<Rightarrow> 'r list \<Rightarrow> ('w, 'r list) act" where
  "run_bus_op B G (Publish q m) rs = thenDo (asb_publish B G q m) (returning rs)"
| "run_bus_op B G (Cancel_scheduled q n) rs = thenDo (asb_cancel_scheduled_message B G q n) (returning rs)"
| "run_bus_op B G (Delete_message q m) rs = thenDo (asb_delete_message B G q m) (returning rs)"
| "run_bus_op B G (Abandon_message q m) rs = thenDo (asb_abandon_message B G q m) (returning rs)"
| "run_bus_op B G (Dead_letter q m) rs = thenDo (asb_dead_letter_message B G q m) (returning rs)"
| "run_bus_op B G (Subscribe src cfg) rs = asb_subscribe B rs src cfg"
| "run_bus_op B G Disconnect rs = thenDo (asb_disconnect B G rs) (returning rs)"

definition caught_bus_op :: "('w, 'k, 'r) service_bus \<Rightarrow> apm_agent \<Rightarrow> bus_op \<Rightarrow> 'r list \<Rightarrow> ('w, 'r list) act" where
  "caught_bus_op B G x rs = tryCatch (run_bus_op B G x rs) (\<lambda>e. returning rs)"

fun run_bus_ops :: "('w, 'k, 'r) service_bus \<Rightarrow> apm_agent \<Rightarrow> bus_op list \<Rightarrow> 'r list \<Rightarrow> ('w, 'r list) act" where
  "run_bus_ops B G [] rs = returning rs"
| "run_bus_ops B G (x # xs) rs = andThen (caught_bus_op B G x rs) (run_bus_ops B G xs)"

text \<open>The receiver of a subscription that was created but whose own \<open>subscribe\<close> threw: it is not remembered.\<close>

fun lost_receiver :: "('w, 'k, 'r) service_bus \<Rightarrow> bus_op \<Rightarrow> 'w \<Rightarrow> 'r list" where
  "lost_receiver B (Subscribe src cfg) w =
    (case az_receiver B (source_args src) w of
       (Inl e, w1) \<Rightarrow> []
     | (Inr r, w1) \<Rightarrow> (case az_subscribe B r cfg w1 of (Inl e, w2) \<Rightarrow> [r] | (Inr u, w2) \<Rightarrow> []))"
| "lost_receiver B x w = []"

fun lost_receivers :: "('w, 'k, 'r) service_bus \<Rightarrow> apm_agent \<Rightarrow> bus_op list \<Rightarrow> 'r list \<Rightarrow> 'w rt \<Rightarrow> 'r list" where
  "lost_receivers B G [] rs s = []"
| "lost_receivers B G (x # xs) rs s = lost_receiver B x (world s) @
    (case caught_bus_op B G x rs s of (Inl e, s') \<Rightarrow> [] | (Inr rs', s') \<Rightarrow> lost_receivers B G xs rs' s')"

subsection \<open>The handles held\<close>

datatype ('k, 'r) bus_handle = Sender 'k | Receiver 'r

definition receivers :: "'r list \<Rightarrow> ('k, 'r) bus_handle multiset" where
  "receivers rs = mset (map Receiver rs)"

text \<open>
  \<open>held\<close> records the handles that have been created and whose \<open>close\<close> has not been called. Nothing is assumed of the client's
  answers: any client gets the record from a tracking around it.
\<close>

definition tracks_handles ::
  "('w, 'k, 'r) service_bus \<Rightarrow> ('w \<Rightarrow> ('k, 'r) bus_handle multiset) \<Rightarrow> bool" where
  "tracks_handles B held \<longleftrightarrow>
    (\<forall>q w k w'. az_sender B q w = (Inr k, w') \<longrightarrow> held w' = add_mset (Sender k) (held w)) \<and>
    (\<forall>q w e w'. az_sender B q w = (Inl e, w') \<longrightarrow> held w' = held w) \<and>
    (\<forall>a w r w'. az_receiver B a w = (Inr r, w') \<longrightarrow> held w' = add_mset (Receiver r) (held w)) \<and>
    (\<forall>a w e w'. az_receiver B a w = (Inl e, w') \<longrightarrow> held w' = held w) \<and>
    (\<forall>k w. held (snd (az_close_sender B k w)) = held w - {#Sender k#}) \<and>
    (\<forall>r w. held (snd (az_close_receiver B r w)) = held w - {#Receiver r#}) \<and>
    (\<forall>k v w. held (snd (az_send B k v w)) = held w) \<and>
    (\<forall>k v t w. held (snd (az_schedule B k v t w)) = held w) \<and>
    (\<forall>k n w. held (snd (az_cancel B k n w)) = held w) \<and>
    (\<forall>r v w. held (snd (az_subscribe B r v w)) = held w) \<and>
    (\<forall>r v w. held (snd (az_complete B r v w)) = held w) \<and>
    (\<forall>r v w. held (snd (az_abandon B r v w)) = held w) \<and>
    (\<forall>r v w. held (snd (az_dead_letter B r v w)) = held w)"

definition tracked :: "(exn + 'a \<Rightarrow> 'h multiset \<Rightarrow> 'h multiset) \<Rightarrow> ('w, 'a) call \<Rightarrow> ('w \<times> 'h multiset, 'a) call" where
  "tracked f c = (\<lambda>(w, held). case c w of (r, w') \<Rightarrow> (r, (w', f r held)))"

definition opened :: "('a \<Rightarrow> 'h) \<Rightarrow> exn + 'a \<Rightarrow> 'h multiset \<Rightarrow> 'h multiset" where
  "opened h r held = (case r of Inl e \<Rightarrow> held | Inr k \<Rightarrow> add_mset (h k) held)"

definition tracked_bus :: "('w, 'k, 'r) service_bus \<Rightarrow> ('w \<times> ('k, 'r) bus_handle multiset, 'k, 'r) service_bus" where
  "tracked_bus B =
    \<lparr>az_sender = (\<lambda>q. tracked (opened Sender) (az_sender B q)), az_send = (\<lambda>k v. tracked (\<lambda>r held. held) (az_send B k v)),
     az_schedule = (\<lambda>k v t. tracked (\<lambda>r held. held) (az_schedule B k v t)),
     az_cancel = (\<lambda>k n. tracked (\<lambda>r held. held) (az_cancel B k n)),
     az_close_sender = (\<lambda>k. tracked (\<lambda>r held. held - {#Sender k#}) (az_close_sender B k)),
     az_receiver = (\<lambda>a. tracked (opened Receiver) (az_receiver B a)),
     az_subscribe = (\<lambda>r v. tracked (\<lambda>x held. held) (az_subscribe B r v)),
     az_complete = (\<lambda>r v. tracked (\<lambda>x held. held) (az_complete B r v)),
     az_abandon = (\<lambda>r v. tracked (\<lambda>x held. held) (az_abandon B r v)),
     az_dead_letter = (\<lambda>r v. tracked (\<lambda>x held. held) (az_dead_letter B r v)),
     az_close_receiver = (\<lambda>r. tracked (\<lambda>x held. held - {#Receiver r#}) (az_close_receiver B r))\<rparr>"

lemma tracked_result: "fst (tracked f c (w, held)) = fst (c w)" "fst (snd (tracked f c (w, held))) = snd (c w)"
  by (simp_all add: tracked_def split: prod.split)

lemma any_bus_tracked: "tracks_handles (tracked_bus B) snd"
  by (auto simp: tracks_handles_def tracked_bus_def tracked_def opened_def split: prod.splits)

lemma send_call_held: "tracks_handles B held \<Longrightarrow> held (snd (asb_send_call B G m k w)) = held w"
  unfolding tracks_handles_def asb_send_call_def by (auto split: prod.splits) (metis snd_conv)+

lemma publish_held: "tracks_handles B held \<Longrightarrow> held (world (snd (asb_publish B G q m s))) = held (world s)"
  using bus_publish.nothing_left_open [of B held Sender G "(q, m)" s] send_call_held [of B held G]
  by (auto simp: tracks_handles_def)

lemma cancel_held:
  "tracks_handles B held \<Longrightarrow> held (world (snd (asb_cancel_scheduled_message B G q n s))) = held (world s)"
  using bus_cancel.nothing_left_open [of B held Sender G "(q, n)" s] by (auto simp: tracks_handles_def)

lemma settle_held:
  assumes "tracks_handles B held" and "\<And>r v w. held (snd (settle r v w)) = held w"
  shows "held (world (snd (settle_message n l dt et settle B G q m s))) = held (world s)"
  using bus_settle.nothing_left_open [of B held Receiver settle n l dt et G "(q, m)" s] assms
  by (auto simp: tracks_handles_def)

lemmas scoped_held = publish_held cancel_held settle_held

lemma close_all_held:
  "tracks_handles B held \<Longrightarrow> held (snd (all_calls (az_close_receiver B) rs w)) = held w - receivers rs"
proof (induction rs arbitrary: w)
  case (Cons r rs)
  obtain x w1 where 1: "az_close_receiver B r w = (x, w1)" by (cases "az_close_receiver B r w")
  have "held (snd (az_close_receiver B r w)) = held w - {#Receiver r#}" using Cons.prems by (simp add: tracks_handles_def)
  then have "held w1 = held w - {#Receiver r#}" using 1 by simp
  moreover have "snd (all_calls (az_close_receiver B) (r # rs) w) = snd (all_calls (az_close_receiver B) rs w1)"
    using 1 by (simp split: prod.split)
  ultimately show ?case using Cons.IH [OF Cons.prems, of w1] by (simp add: receivers_def diff_diff_add_mset)
qed (simp add: receivers_def)

lemma disconnect_held:
  "tracks_handles B held \<Longrightarrow> held (world (snd (asb_disconnect B G rs s))) = held (world s) - receivers rs"
  using close_all_held [of B held rs "world s"]
  by (cases "all_calls (az_close_receiver B) rs (world s)"; cases "fst (all_calls (az_close_receiver B) rs (world s))")
    (auto simp: asb_disconnect_def asb_consumers_disconnect_def run_simps)

lemma subscribe_held:
  assumes "tracks_handles B held"
  shows "\<exists>news s'. caught_bus_op B G (Subscribe src cfg) rs s = (Inr (rs @ news), s') \<and>
    held (world s') = held (world s) + receivers news + receivers (lost_receiver B (Subscribe src cfg) (world s))"
proof -
  obtain x w1 where 1: "az_receiver B (source_args src) (world s) = (x, w1)"
    by (cases "az_receiver B (source_args src) (world s)")
  show ?thesis
  proof (cases x)
    case (Inl e)
    then show ?thesis
      using 1 assms by (auto simp: caught_bus_op_def asb_subscribe_def run_simps receivers_def tracks_handles_def)
  next
    case (Inr r)
    then have held: "held w1 = add_mset (Receiver r) (held (world s))" using 1 assms by (simp add: tracks_handles_def)
    obtain y w2 where 2: "az_subscribe B r cfg w1 = (y, w2)" by (cases "az_subscribe B r cfg w1")
    then have "held w2 = held w1" using assms unfolding tracks_handles_def by (metis snd_conv)
    then show ?thesis
      using 1 2 Inr held
      by (cases y) (auto simp: caught_bus_op_def asb_subscribe_def run_simps receivers_def intro!: exI [of _ "[r]"])
  qed
qed

text \<open>What one operation does to the handles held and the receivers remembered.\<close>

lemma caught_thenDo:
  "tryCatch (thenDo m (returning a)) (\<lambda>e. returning a) s = (Inr a, snd (m s))"
  by (cases "m s"; cases "fst (m s)") (simp_all add: run_simps)

lemma bus_op_held:
  assumes "tracks_handles B held"
  shows "\<exists>news s'. caught_bus_op B G x rs s = (Inr (rs @ news), s') \<and>
    held (world s') =
      (if x = Disconnect then held (world s) - receivers rs
       else held (world s) + receivers news + receivers (lost_receiver B x (world s)))"
proof (cases x)
  case (Subscribe src cfg)
  then show ?thesis using subscribe_held [OF assms] by simp
next
  case Disconnect
  then show ?thesis using disconnect_held [OF assms] by (simp add: caught_bus_op_def caught_thenDo)
qed (use assms in \<open>auto simp: caught_bus_op_def caught_thenDo scoped_held receivers_def asb_delete_message_def
      asb_abandon_message_def asb_dead_letter_message_def tracks_handles_def\<close>)

text \<open>
  Publishing always releases its sender: once the sender is there, the outcome is that of the one library call
  (wrapped when it throws), the sender is closed after it whether or not it succeeded, and a span that was
  started is ended last.
\<close>

theorem publish_closes_sender:
  assumes "az_sender B q (world s) = (Inr k, w1)" and "asb_send_call B G m k w1 = (r, w2)"
  shows "\<exists>s'. asb_publish B G q m s =
      (map_sum (\<lambda>e. ASBProducerServiceError ''Error sending message to ASB'' (Some e)) id r, s') \<and>
    world s' = snd (az_close_sender B k w2) \<and>
    (apm_on (ag_conf G) \<and> ag_spans G \<longrightarrow> last (apm_events s') = Span_end)"
  using asb_publish_used [OF assms] by (auto simp: span_closing_def)

lemma receivers_append: "receivers (rs @ rs') = receivers rs + receivers rs'"
  by (simp add: receivers_def)

lemma bus_ops_held:
  assumes "tracks_handles B held" and "held (world s) \<subseteq># base + receivers rs"
  shows "\<exists>rs' s'. run_bus_ops B G xs rs s = (Inr rs', s') \<and>
    held (world s') \<subseteq># base + receivers (lost_receivers B G xs rs s) + receivers rs' \<and>
    (xs \<noteq> [] \<longrightarrow> last xs = Disconnect \<longrightarrow> held (world s') \<subseteq># base + receivers (lost_receivers B G xs rs s))"
  using assms(2)
proof (induction xs arbitrary: rs s base)
  case Nil
  then show ?case by (simp add: returning_eq receivers_def)
next
  case (Cons x xs)
  obtain news s1 where 1: "caught_bus_op B G x rs s = (Inr (rs @ news), s1)"
    and h: "held (world s1) = (if x = Disconnect then held (world s) - receivers rs
      else held (world s) + receivers news + receivers (lost_receiver B x (world s)))"
    using bus_op_held [OF assms(1), of G x rs s] by blast
  let ?base = "base + receivers (lost_receiver B x (world s))"
  have "held (world s1) \<subseteq># ?base" if "x = Disconnect"
    using h Cons.prems that by (simp add: subset_eq_diff_conv receivers_def)
  moreover have "held (world s1) \<subseteq># ?base + receivers (rs @ news)" if "x \<noteq> Disconnect"
    using h Cons.prems that by (simp add: receivers_append ac_simps)
  ultimately have now: "held (world s1) \<subseteq># ?base + receivers (rs @ news)"
    "x = Disconnect \<Longrightarrow> held (world s1) \<subseteq># ?base"
    by (cases "x = Disconnect"; simp add: subset_mset.add_increasing2)+
  have lost: "receivers (lost_receivers B G (x # xs) rs s) =
      receivers (lost_receiver B x (world s)) + receivers (lost_receivers B G xs (rs @ news) s1)"
    using 1 by (simp add: receivers_append)
  have run: "run_bus_ops B G (x # xs) rs s = run_bus_ops B G xs (rs @ news) s1" using 1 by (simp add: andThen_def)
  show ?case
  proof (cases xs)
    case Nil
    then show ?thesis using now unfolding run lost by (simp add: returning_eq receivers_def ac_simps)
  next
    case (Cons y ys)
    then show ?thesis
      using Cons.IH [OF now(1)] unfolding run lost by (simp add: ac_simps)
  qed
qed

text \<open>
  C37: Every handle of the service bus is closed, except the receiver of a subscription that failed to start. Take any sequence of
  sending, scheduling, cancelling, settling, subscribing and disconnecting by a fresh service, whatever fails in them, each
  failure caught by the caller. At its end, every sender and receiver whose \<open>close\<close> has not been called was open before, or is
  the receiver of a subscription and remembered for the next disconnect, or is a receiver that was created and whose \<open>subscribe\<close>
  call threw; and when the last operation is a disconnect, \<open>close\<close> has been called on all the remembered ones, too, even if it throws
  for some of them. (Whether a close that throws has closed its handle is up to the client.)
\<close>

theorem bus_handles_are_closed:
  assumes "tracks_handles B held"
  shows "\<exists>rs s'. run_bus_ops B G xs [] s = (Inr rs, s') \<and>
    held (world s') \<subseteq># held (world s) + receivers (lost_receivers B G xs [] s) + receivers rs \<and>
    (xs \<noteq> [] \<longrightarrow> last xs = Disconnect \<longrightarrow>
      held (world s') \<subseteq># held (world s) + receivers (lost_receivers B G xs [] s))"
  by (rule bus_ops_held [OF assms]) (simp add: receivers_def)

text \<open>
  The default error processor never works: an error of the subscription that reaches it is captured and logged by
  \<open>processError\<close>, and then the processor itself throws a \<open>TypeError\<close>.
\<close>

theorem default_error_processor_throws:
  "\<exists>s'. asb_process_error G src (unbound_error_processor lib) a s =
    (Inl (new_TypeError ''Cannot read properties of undefined (reading '_transactionLogger')''), s')"
  by (simp add: asb_process_error_def unbound_error_processor_def default_error_processor_def Let_def run_simps
      capture_error_def)

subsection \<open>The statements in a concrete world\<close>

text \<open>A client in memory that numbers its handles: how many it made and the messages sent. Closing a sender always throws.\<close>

definition plain_bus :: "(nat \<times> jv list, nat, nat) service_bus" where
  "plain_bus =
    \<lparr>az_sender = (\<lambda>q (n, ms). (Inr n, (Suc n, ms))), az_send = (\<lambda>k v (n, ms). (Inr (), (n, ms @ [v]))),
     az_schedule = (\<lambda>k v t (n, ms). (Inl (new_Error ''late''), (n, ms))),
     az_cancel = (\<lambda>k v w. (Inl (new_Error ''unknown''), w)),
     az_close_sender = (\<lambda>k w. (Inl (new_Error ''closing''), w)),
     az_receiver = (\<lambda>a (n, ms). (Inr n, (Suc n, ms))),
     az_subscribe = (\<lambda>r v w. if v = JUndef then (Inl (new_Error ''no handlers''), w) else (Inr (), w)),
     az_complete = (\<lambda>r v w. (Inr (), w)), az_abandon = (\<lambda>r v w. (Inl (new_Error ''gone''), w)),
     az_dead_letter = (\<lambda>r v w. (Inr (), w)),
     az_close_receiver = (\<lambda>r w. (Inr (), w))\<rparr>"

type_synonym bus_world = "(nat \<times> jv list) \<times> (nat, nat) bus_handle multiset"

definition sample_bus :: "(bus_world, nat, nat) service_bus" where
  "sample_bus = tracked_bus plain_bus"

definition sample_agent :: apm_agent where
  "sample_agent =
    \<lparr>ag_conf = \<lparr>apm_on = True, apm_txn = None\<rparr>, ag_spans = True, ag_traceparent = JUndef, ag_trace_ids = JUndef\<rparr>"

definition sample_bus_run :: "bus_world rt" where
  "sample_bus_run =
    \<lparr>world = ((2, []), {#Sender 0#}), files = \<lparr>is_dir = (\<lambda>q. q = []), file_at = Map.empty\<rparr>, log_lines = [],
     apm_events = []\<rparr>"

lemma sample_bus_tracks: "tracks_handles sample_bus snd"
  unfolding sample_bus_def by (rule any_bus_tracked)

theorem publish_closes_sender_witness:
  "\<exists>s'. asb_publish sample_bus sample_agent ''q'' [(''body'', JStr ''x'')] sample_bus_run = (Inr JUndef, s') \<and>
    snd (world s') = {#Sender 0#} \<and> last (apm_events s') = Span_end"
proof -
  let ?m = "[(''body'', JStr ''x'')]"
  have 1: "az_sender sample_bus ''q'' (world sample_bus_run) = (Inr 2, ((3, []), {#Sender 2, Sender 0#}))"
    by (simp add: sample_bus_def plain_bus_def tracked_bus_def tracked_def opened_def sample_bus_run_def)
  obtain ms where 2: "asb_send_call sample_bus sample_agent ?m 2 ((3, []), {#Sender 2, Sender 0#}) =
      (Inr JUndef, ((3, ms), {#Sender 2, Sender 0#}))"
    by (simp add: asb_send_call_def sample_bus_def plain_bus_def tracked_bus_def tracked_def js_keys_def)
  from publish_closes_sender [OF 1 2] show ?thesis
    by (auto simp: sample_bus_def plain_bus_def tracked_bus_def tracked_def sample_agent_def)
qed

text \<open>A subscription that works, one that fails to start, a message sent and one abandoned, and the disconnect.\<close>

definition sample_bus_ops :: "bus_op list" where
  "sample_bus_ops =
    [Subscribe (Queue_source ''q'' JUndef) (JObj []), Subscribe (Queue_source ''q'' JUndef) JUndef, Publish ''q'' [],
     Abandon_message ''q'' [], Disconnect]"

theorem bus_handles_are_closed_witness:
  "\<exists>rs s'. run_bus_ops sample_bus sample_agent sample_bus_ops [] sample_bus_run = (Inr rs, s') \<and>
    snd (world s') \<subseteq># {#Sender 0, Receiver 3#}"
proof -
  have "lost_receivers sample_bus sample_agent sample_bus_ops [] sample_bus_run = [3]" by code_simp
  moreover have "sample_bus_ops \<noteq> []" "last sample_bus_ops = Disconnect" by (simp_all add: sample_bus_ops_def)
  ultimately show ?thesis
    using bus_handles_are_closed [OF sample_bus_tracks, of sample_agent sample_bus_ops sample_bus_run]
    by (auto simp: sample_bus_run_def receivers_def add_mset_commute)
qed

end
