(* ===== verification/Spec2Isabelle.thy ===== *)
theory Spec2Isabelle
  imports ImageRun Interleaving ApiStart PartitionLog Backlog CsvBytes CsvScan ServiceRun HealthApi RequestLogging PlainMessages BusUsage
begin

text \<open>
  A verification library for the csv-image-processing service: a Nest application (\<open>app/\<close>) and the packages it
  is built on (\<open>packages/\<close>), in TypeScript.

  \<^bold>\<open>The program.\<close> An API process accepts a CSV file of products and image urls
  (\<open>image-processing.controller.ts\<close>), parses it as a stream (\<open>csv.entity.ts\<close>), stores a request in MongoDB
  with the status Accepted (\<open>scheduling.service.ts\<close>, \<open>request.repository.ts\<close>) and publishes it to Kafka
  (\<open>image-processing.messaging.entity.ts\<close>, \<open>kafka-producer-service.ts\<close>). A consumer process receives the message
  (\<open>kafka-consumer-service.ts\<close>, which deduplicates by offsets it keeps in Redis through \<open>redis-service.ts\<close>) and runs
  the image processor (\<open>image.processor.ts\<close>): every image is downloaded, converted, uploaded, and its
  temporary files are removed; then the request becomes Succeeded and a webhook gets the output CSV, or it becomes
  Failed. The status can be read at any time (\<open>status.service.ts\<close>).

  \<^bold>\<open>How it is modelled.\<close> Code without effects is a HOL function with a sum type for what it throws. Code
  with effects is an action \<open>('w, 'a) act\<close> (theory \<open>Effects\<close>): a function from a run-time state -- the world
  outside, the file system, the log lines and the events of the performance monitor -- to a result or a thrown value
  and the next state, so that an exception keeps the effects before it. An awaited call of a library is a
  parameter, a function of the world; what the code relies on of a library are named predicates
  (\<open>collection_laws\<close> and \<open>write_laws\<close> for the mongoose model, \<open>redis_laws\<close> for ioredis, \<open>axios_laws\<close> for its
  interceptors, \<open>validator_laws\<close> and \<open>pipe_laws\<close> for validation, \<open>terminus_laws\<close> for health checks, \<open>library_laws\<close> for the
  framework's modules), each with an instance in memory. Where a library may fail silently nothing is assumed but a record of
  the calls: \<open>records_sends\<close> is the history of the producer's sends with their answers, \<open>tracks_handles\<close> the handles of the
  service bus on which \<open>close\<close> has not been called; any library can be instrumented to have them (\<open>any_producer_recorded\<close>,
  \<open>any_bus_tracked\<close>).

  \<^bold>\<open>The theories,\<close> in the order of their imports:
  \<^item> \<open>Prelude\<close>: results, folds that stop at an error, lists and decimals.
  \<^item> \<open>JsString\<close>, \<open>JsObject\<close>, \<open>JsValue\<close>, \<open>JsError\<close>: the parts of JavaScript the source uses -- trimming, splitting,
    \<open>parseInt\<close>; objects with their property order and inherited names; JSON values and \<open>JSON.stringify\<close>; thrown
    values, the error classes of \<open>exceptions/\<close> and \<open>instanceof\<close>. \<open>JsonParse\<close>: \<open>JSON.parse\<close>, and that it reads back what
    \<open>JSON.stringify\<close> writes.
  \<^item> \<open>FileSystem\<close>: \<open>node:path\<close> and the calls of \<open>node:fs\<close> that the code makes, and base64.
  \<^item> \<open>Effects\<close>: actions, \<open>try\<close>, loops over actions, logging; the locale \<open>wrapped_call\<close>, the contract of the many methods
    that make one library call, log, and wrap its error.
  \<^item> \<open>AppConfig\<close>: status codes, failure messages, the request's statuses.
  \<^item> \<open>CsvEntity\<close>: the operations of \<open>csv.entity.ts\<close>. \<open>CsvColumns\<close> shows what the column scanner does on rendered rows,
    \<open>CsvStream\<close> that the cut into chunks does not matter (locale \<open>row_consumer\<close>), \<open>CsvRefine\<close> that the reader implements
    the merge of its rows by name, and what the writer's file reads as; \<open>CsvTypes\<close> the type of the reader's result;
    \<open>CsvScan\<close> the column scanner once more as the loops it is written with, step by step; \<open>CsvBytes\<close> the decoding of the
    file's bytes, chunk by chunk.
  \<^item> \<open>RedisService\<close>: \<open>redis-service.ts\<close> and \<open>caching-service.ts\<close>.
  \<^item> \<open>RequestRepository\<close>: the schemas of \<open>models/request\<close> and the repository; locale \<open>request_store\<close>.
  \<^item> \<open>ImageProcessor\<close>: the operations of \<open>image.processor.ts\<close>. \<open>Processing\<close>: what a processed request looks like, and the
    failures that escape the error handler. \<open>ImageRun\<close>: one image from its download to its clean-up.
  \<^item> \<open>KafkaProducer\<close>, \<open>KafkaConsumer\<close>, \<open>KafkaService\<close>: the Kafka side of \<open>packages/queue-service\<close>.
    \<open>Consumption\<close>: the fate of a message. \<open>PartitionLog\<close>: the consumer as an implementation of an abstract log of its
    partition (\<open>log_step\<close>). \<open>PlainMessages\<close>: messages without a schema, written and read back.
  \<^item> \<open>ServiceBus\<close>: the Azure Service Bus side (\<open>asb-*.ts\<close>). \<open>BusUsage\<close>: which of its senders and receivers
    are closed (locale \<open>scoped_use\<close>).
  \<^item> \<open>DbService\<close>: \<open>packages/db-service\<close> (mongoose, sequelize, elasticsearch, and the switch) and \<open>repository.service.ts\<close>.
  \<^item> \<open>HttpClient\<close>: \<open>axios-client.service.ts\<close>, its interceptors and what they log.
  \<^item> \<open>ErrorResponse\<close>: the exception filter, the response interceptor and the health check.
    \<open>HttpAnswer\<close>: how a route answers. \<open>HealthApi\<close>: the two health endpoints. \<open>UploadApi\<close>: the endpoints of
    \<open>image-processing.controller.ts\<close> with the validation pipe and its rules, from the request to the answer.
  \<^item> \<open>Scheduling\<close>: messaging entities, scheduling, status and the controller, from an upload to a queued request.
    \<open>MultipartUpload\<close>: the decorators that turn a request's body into files, as folds over the events of busboy.
  \<^item> \<open>Lifecycle\<close>: the state machine of a request's status, and that all operations, in any sequence and with any
    failures, only take its steps. \<open>Interleaving\<close>: the same when the operations overlap, each being the sequence of
    commands it sends to the database, found by running it against a recorder.
  \<^item> \<open>EndToEnd\<close>: the consumer process put together, over a world of a database and everything beside it; the life of a
    request from its file to its final status. \<open>KafkaSetup\<close>: the constructors of the Kafka services and the
    application's configuration of them. \<open>Backlog\<close>: the consumer process over a sequence of deliveries. \<open>Startup\<close>:
    \<open>main.ts\<close>, the life-cycle services and the providers; \<open>ApiStart\<close>: the start of the API, from its providers to the listening
    server.
  \<^item> \<open>Configuration\<close>: the environment, its validation, and the constants read from it. \<open>RequestLogging\<close>: the functions and
    tables of \<open>logger.config.ts\<close>, and the logger's wrapper.
  \<^item> \<open>Wiring\<close>: the modules of both applications and of the \<open>nestjs-*\<close> packages, and what their classes inject.
    \<open>DbSetup\<close>: the constructors of \<open>packages/db-service\<close> and the database as the application configures it.
  \<^item> \<open>ServiceRun\<close>: an upload, its processing and a status request over one database.

  \<^bold>\<open>What is shown.\<close> For the reader: independence of chunking, for text and for UTF-8 bytes that are not cut inside a
  character (and what such a cut does), exactly which files are accepted (the empty one is), the type of the
  result, the dictionary as a refinement of an abstract merge, the only errors, and the round trip of products with plain names through the writer. For the
  processor: what a returning run leaves (final status, complete outputs, webhook delivered, no temporary files), the
  exact effect of one image, where it stops on a failure, and three failures that are never recorded. For the
  consumer: handling any sequence of messages takes exactly the steps of an abstract partition log while the consumer has
  a cache that answers, so that an offset succeeds at most once, however often it is delivered; the handler never throws, a stored offset never decreases and handled offsets are refused, failures are sent to
  the dead letter queue, and a message is lost when Redis cannot be read. For the scanner: its loops end in linear
  time. For the API, from the request to the answer: an accepted upload is stored
  and published exactly once and its status can be asked for, a refused one has no effect and is answered 400 or 422; the decorators keep to their limits, but a
  truncated file is processed. For the whole: a request is never lost, never goes
  back to Accepted, and is never stored as Succeeded while incomplete, also when operations overlap; and an upload that the API
  accepted, once its message is delivered with a new offset, is processed once and ends in a settled request, which the status
  endpoint then reports, or in a send to the dead letter queue; and of any backlog of deliveries every request ends so, or is lost
  because the broker refused its dead letter. What the client of a refused file is answered. The API listens
  only after its database, queue, schemas and topics are there. For the services around it: every
  handle of the service bus is closed but the receiver of a subscription that failed to start, the logging interceptors survive, the application's database is connected and has the
  repository's model before anything uses it, readiness is answered 200 until the shutdown event and 503 from then on, every class
  of both applications is given what it injects, the liveness file follows the database, and a validated environment is what
  the configuration uses; but the application configures its consumer without Redis, so that a redelivered message is processed
  again.

  \<^bold>\<open>Bounds and fuel.\<close> There is no fuel: the scanner's loops and the JSON reader are total functions with measures on
  the text (the reader compares lengths to be one; \<open>json_val_shorter\<close> shows that the comparisons always hold), every other
  loop is over a list. The scanner's machine in \<open>CsvScan\<close> is a \<open>while_option\<close>; \<open>scan_within\<close> gives it three steps for each
  character of the row, which is shown to be enough. JavaScript numbers occur as string lengths, counters, and offsets, which are naturals or
  integers here (the code's own values stay far below \<open>2^53\<close>).

  \<^bold>\<open>Parameters and limits.\<close> Strings are lists of 8-bit characters; decoding of bytes is the parameter \<open>dec\<close>, for which
  \<open>CsvBytes\<close> takes the UTF-8 decoding of Node's buffers, with a parameter for the code units beyond 8 bits. The framework creates the
  database and the queue of the API one after the other, in either order; it may overlap them, which is not modelled.
  \<open>parseInt\<close> is modelled for decimal text (its hexadecimal prefix is not) and exactly, for offsets below \<open>2^53\<close>. The \<open>toString\<close> of
  a thrown value returns (\<open>with_data\<close>, \<open>unknown_text\<close>). A write of the database that rejects has been applied by the time it
  rejects, or never is. The validator of \<open>class-validator\<close>, axios, busboy,
  uuid, mime, sharp, ioredis, mongoose, sequelize, the elasticsearch client, kafkajs, the schema registry, the client
  of \<open>@azure/service-bus\<close>, terminus, pino, the \<open>ValidationPipe\<close> and the modules of the framework's packages are parameters.
  \<open>JSON.stringify\<close> is modelled on values without cycles. \<open>Promise.all\<close> runs its calls in order. In \<open>Interleaving\<close> only the database is
  shared: an execution's files and network calls are its own. Mongoose's timestamps and \<open>_id\<close> are left out. Of the
  framework, the order in which it runs pipe, handler, interceptor and filter is fixed in \<open>respond\<close>, and its rules of
  visibility in \<open>visible\<close>; routing itself is not modelled.

  \<^bold>\<open>Not modelled.\<close> The files that only declare types, the swagger decorators, and \<open>setup-docs.ts\<close>, which makes the documentation by
  calls of its library.
\<close>

end
